theory Spec2Isabelle
  imports Main "HOL-Library.Sublist"
begin

section \<open>Strings and character classes\<close>

text \<open>
  A JavaScript string is a sequence of UTF-16 code units; the regular expressions of the
  source carry no \<open>u\<close> flag, so they match code unit by code unit.  A code unit is
  modelled as its number, a string as the list of its code units.
\<close>

type_synonym jchar = nat
type_synonym jstring = "jchar list"

text \<open>The class \<open>\s\<close> of ECMAScript: WhiteSpace and LineTerminator code points.\<close>

definition is_space :: "jchar \<Rightarrow> bool" where
  "is_space c \<longleftrightarrow>
     c = 0x09 \<or> c = 0x0A \<or> c = 0x0B \<or> c = 0x0C \<or> c = 0x0D \<or> c = 0x20 \<or> c = 0xA0 \<or>
     c = 0x1680 \<or> (0x2000 \<le> c \<and> c \<le> 0x200A) \<or> c = 0x2028 \<or> c = 0x2029 \<or>
     c = 0x202F \<or> c = 0x205F \<or> c = 0x3000 \<or> c = 0xFEFF"

text \<open>The class \<open>\d\<close>: the ten ASCII digits.\<close>

definition is_digit :: "jchar \<Rightarrow> bool" where
  "is_digit c \<longleftrightarrow> 0x30 \<le> c \<and> c \<le> 0x39"

text \<open>
  The dot without the \<open>s\<close> flag: every code unit except the four line terminators
  U+000A, U+000D, U+2028 and U+2029.
\<close>

definition is_dot :: "jchar \<Rightarrow> bool" where
  "is_dot c \<longleftrightarrow> c \<noteq> 0x0A \<and> c \<noteq> 0x0D \<and> c \<noteq> 0x2028 \<and> c \<noteq> 0x2029"

text \<open>
  One character position of a pattern: a literal, an escape class, the dot, or a bracket
  class \<open>[...]\<close> / \<open>[^...]\<close> listing literals, ranges and escape classes.
\<close>

datatype atom =
    Lit jchar
  | Range jchar jchar
  | Space
  | NotSpace
  | Digit
  | Dot
  | OneOf "atom list"
  | NoneOf "atom list"

fun atom_ok :: "atom \<Rightarrow> jchar \<Rightarrow> bool" where
  "atom_ok (Lit k) c = (c = k)"
| "atom_ok (Range lo hi) c = (lo \<le> c \<and> c \<le> hi)"
| "atom_ok Space c = is_space c"
| "atom_ok NotSpace c = (\<not> is_space c)"
| "atom_ok Digit c = is_digit c"
| "atom_ok Dot c = is_dot c"
| "atom_ok (OneOf as) c = list_ex (\<lambda>a. atom_ok a c) as"
| "atom_ok (NoneOf as) c = (\<not> list_ex (\<lambda>a. atom_ok a c) as)"

section \<open>A backtracking matcher for the patterns of the source\<close>

text \<open>
  The fragment of ECMAScript regular expressions that the source uses: literal text,
  single character positions, the quantifiers \<open>*\<close>, \<open>+\<close>, \<open>?\<close>, \<open>{n}\<close> and the lazy
  \<open>*?\<close> (in the source always applied to a single character position), sequence,
  alternation, capture groups and the end-of-input assertion \<open>$\<close> (no \<open>m\<close> flag).
\<close>

datatype re =
    Str jstring
  | One atom
  | Star atom
  | Plus atom
  | Opt atom
  | Times nat atom
  | LazyStar atom
  | Seq re re
  | Alt re re
  | Grp nat re
  | Eos

type_synonym caps = "nat \<rightharpoonup> jstring"
type_synonym mstate = "jstring \<times> caps"

text \<open>
  The remainders a greedy star can leave, in the order in which backtracking tries them:
  the longest repetition first, the empty repetition last.
\<close>

fun star_greedy :: "(jchar \<Rightarrow> bool) \<Rightarrow> jstring \<Rightarrow> jstring list" where
  "star_greedy P [] = [[]]"
| "star_greedy P (c # cs) = (if P c then star_greedy P cs @ [c # cs] else [c # cs])"

text \<open>The lazy star tries the empty repetition first and then grows one position at a time.\<close>

fun star_lazy :: "(jchar \<Rightarrow> bool) \<Rightarrow> jstring \<Rightarrow> jstring list" where
  "star_lazy P [] = [[]]"
| "star_lazy P (c # cs) = (c # cs) # (if P c then star_lazy P cs else [])"

text \<open>
  \<open>ms r (s, c)\<close> lists every way in which \<open>r\<close> can match a prefix of \<open>s\<close>, as the pair of
  the remaining input and the captures, in backtracking priority order: the head of the
  list is the match a backtracking engine reports.
\<close>

fun ms :: "re \<Rightarrow> mstate \<Rightarrow> mstate list" where
  "ms (Str w) (s, c) = (if prefix w s then [(drop (length w) s, c)] else [])"
| "ms (One a) (s, c) =
     (case s of [] \<Rightarrow> [] | x # xs \<Rightarrow> if atom_ok a x then [(xs, c)] else [])"
| "ms (Star a) (s, c) = map (\<lambda>s'. (s', c)) (star_greedy (atom_ok a) s)"
| "ms (Plus a) (s, c) =
     (case s of [] \<Rightarrow> []
      | x # xs \<Rightarrow> if atom_ok a x then map (\<lambda>s'. (s', c)) (star_greedy (atom_ok a) xs) else [])"
| "ms (Opt a) (s, c) =
     (case s of [] \<Rightarrow> [(s, c)]
      | x # xs \<Rightarrow> if atom_ok a x then [(xs, c), (s, c)] else [(s, c)])"
| "ms (Times n a) (s, c) =
     (if n \<le> length s \<and> list_all (atom_ok a) (take n s) then [(drop n s, c)] else [])"
| "ms (LazyStar a) (s, c) = map (\<lambda>s'. (s', c)) (star_lazy (atom_ok a) s)"
| "ms (Seq r1 r2) st = concat (map (ms r2) (ms r1 st))"
| "ms (Alt r1 r2) st = ms r1 st @ ms r2 st"
| "ms (Grp i r) (s, c) =
     map (\<lambda>(s', c'). (s', c'(i \<mapsto> take (length s - length s') s))) (ms r (s, c))"
| "ms Eos (s, c) = (if s = [] then [(s, c)] else [])"

text \<open>
  The result of a successful match: the text before the match, the matched text
  (element 0 of the JavaScript match array), the text after it, and the capture groups.
\<close>

record rmatch =
  pre_text :: jstring
  matched :: jstring
  post_text :: jstring
  groups :: caps

text \<open>
  One attempt of the pattern at the start of \<open>s\<close>: the first match in priority order,
  if there is one.
\<close>

definition first_at :: "re \<Rightarrow> jstring \<Rightarrow> rmatch option" where
  "first_at r s =
     (case ms r (s, Map.empty) of
        [] \<Rightarrow> None
      | (s', c) # _ \<Rightarrow>
          Some \<lparr>pre_text = [], matched = take (length s - length s') s, post_text = s', groups = c\<rparr>)"

text \<open>
  \<open>String.prototype.match\<close> without the \<open>g\<close> flag: the leftmost start position at which
  the pattern matches (the position at the very end of the input included), with the first
  match in priority order there; \<open>None\<close> is JavaScript's \<open>null\<close>.
\<close>

fun search :: "re \<Rightarrow> jstring \<Rightarrow> rmatch option" where
  "search r [] = first_at r []"
| "search r (x # xs) =
     (case first_at r (x # xs) of
        Some m \<Rightarrow> Some m
      | None \<Rightarrow> map_option (\<lambda>m. m\<lparr>pre_text := x # pre_text m\<rparr>) (search r xs))"

text \<open>
  The test \<open>m && m[i]\<close> of the source: the match exists and its group \<open>i\<close> is a non-empty
  string (the empty string and \<open>undefined\<close> are falsy).
\<close>

definition truthy_group :: "rmatch option \<Rightarrow> nat \<Rightarrow> jstring option" where
  "truthy_group mo i =
     (case mo of
        None \<Rightarrow> None
      | Some m \<Rightarrow> (case groups m i of None \<Rightarrow> None | Some g \<Rightarrow> if g = [] then None else Some g))"

text \<open>
  \<open>String.prototype.trim\<close>: strips WhiteSpace and LineTerminator code units, the same set
  as \<open>\s\<close>, from both ends.
\<close>

definition trim :: "jstring \<Rightarrow> jstring" where
  "trim s = rev (dropWhile is_space (rev (dropWhile is_space s)))"

text \<open>\<open>s.includes(w)\<close>: \<open>w\<close> occurs in \<open>s\<close> as a contiguous substring.\<close>

fun includes_str :: "jstring \<Rightarrow> jstring \<Rightarrow> bool" where
  "includes_str [] w = (w = [])"
| "includes_str (x # xs) w = (prefix w (x # xs) \<or> includes_str xs w)"

text \<open>
  A JavaScript number as far as the program makes one: the result of \<open>parseInt\<close> on a
  capture of \<open>\d+\<close>.  Numbers are doubles.  A double holds every integer below \<open>2^53\<close>
  exactly: \<open>Int53 n\<close> is that integer.  For a digit string whose value is \<open>2^53\<close> or more
  \<open>parseInt\<close> returns a double near the value (for \<open>9007199254740993\<close> it is
  \<open>9007199254740992\<close>, and from about 309 digits on it is \<open>Infinity\<close>): \<open>Rounded ds\<close> is
  that double, kept with the digits it came from, and its value is not modelled.
\<close>

datatype jsnumber = Int53 nat | Rounded jstring

text \<open>The value of a string of ASCII digits in radix 10.\<close>

definition decimal :: "jstring \<Rightarrow> nat" where
  "decimal ds = foldl (\<lambda>n c. 10 * n + (c - 0x30)) 0 ds"

text \<open>
  \<open>parseInt(g, 10)\<close> on a capture of \<open>\d+\<close>.  The source only ever passes a non-empty string
  of ASCII digits, so the sign, the leading white space and the \<open>NaN\<close> of \<open>parseInt\<close> never
  arise.
\<close>

definition parseInt10 :: "jstring \<Rightarrow> jsnumber" where
  "parseInt10 ds = (if decimal ds < 2 ^ 53 then Int53 (decimal ds) else Rounded ds)"

text \<open>Every remainder that the matcher leaves is a suffix of its input.\<close>

lemma star_greedy_suffix: "s' \<in> set (star_greedy P s) \<Longrightarrow> suffix s' s"
  by (induction s) (auto split: if_splits intro: suffix_ConsI)

lemma star_lazy_suffix: "s' \<in> set (star_lazy P s) \<Longrightarrow> suffix s' s"
  by (induction s) (auto split: if_splits intro: suffix_ConsI)

lemma ms_suffix: "(s', c') \<in> set (ms r (s, c)) \<Longrightarrow> suffix s' s"
proof (induction r arbitrary: s c s' c')
  case (Str w)
  then show ?case by (auto split: if_splits intro: suffix_drop)
next
  case (One a)
  then show ?case by (auto split: list.splits if_splits intro: suffix_ConsI)
next
  case (Star a)
  then show ?case by (auto dest: star_greedy_suffix)
next
  case (Plus a)
  then show ?case
    by (auto split: list.splits if_splits dest!: star_greedy_suffix intro: suffix_ConsI)
next
  case (Opt a)
  then show ?case by (auto split: list.splits if_splits intro: suffix_ConsI)
next
  case (Times n a)
  then show ?case by (auto split: if_splits intro: suffix_drop)
next
  case (LazyStar a)
  then show ?case by (auto dest: star_lazy_suffix)
next
  case (Seq r1 r2)
  from Seq.prems obtain s1 c1 where
    "(s1, c1) \<in> set (ms r1 (s, c))" "(s', c') \<in> set (ms r2 (s1, c1))"
    by auto
  then show ?case using Seq.IH suffix_order.trans by blast
next
  case (Alt r1 r2)
  then show ?case by auto
next
  case (Grp i r)
  then show ?case by auto
next
  case Eos
  then show ?case by (auto split: if_splits)
qed

lemma first_at_parts:
  assumes "first_at r s = Some m"
  shows "pre_text m = [] \<and> s = matched m @ post_text m"
proof -
  from assms obtain s' c rest where
    hd: "ms r (s, Map.empty) = (s', c) # rest" and
    m: "m = \<lparr>pre_text = [], matched = take (length s - length s') s, post_text = s', groups = c\<rparr>"
    by (auto simp: first_at_def split: list.splits)
  from hd have "(s', c) \<in> set (ms r (s, Map.empty))" by simp
  then have "suffix s' s" by (rule ms_suffix)
  then obtain w where "s = w @ s'" by (auto simp: suffix_def)
  then show ?thesis using m by simp
qed

lemma search_parts: "search r s = Some m \<Longrightarrow> s = pre_text m @ matched m @ post_text m"
proof (induction s arbitrary: m)
  case Nil
  then show ?case using first_at_parts [of r "[]" m] by simp
next
  case (Cons x xs)
  show ?case
  proof (cases "first_at r (x # xs)")
    case None
    with Cons.prems obtain m' where
      "search r xs = Some m'" "m = m'\<lparr>pre_text := x # pre_text m'\<rparr>"
      by auto
    with Cons.IH show ?thesis by simp
  next
    case (Some m')
    with Cons.prems have "m = m'" by simp
    with Some first_at_parts [of r "x # xs" m] show ?thesis by simp
  qed
qed

text \<open>
  \<open>String.prototype.match\<close> with the \<open>g\<close> flag: the matched texts of the successive
  non-overlapping matches, each search resuming where the previous match ended (one
  position further after an empty match).  The empty list stands for JavaScript's
  \<open>null\<close>, which \<open>match\<close> returns when there is no match at all.
\<close>

function match_all :: "re \<Rightarrow> jstring \<Rightarrow> jstring list" where
  "match_all r s =
     (case search r s of
        None \<Rightarrow> []
      | Some m \<Rightarrow>
          if matched m = []
          then (case post_text m of [] \<Rightarrow> [[]] | x # xs \<Rightarrow> [] # match_all r xs)
          else matched m # match_all r (post_text m))"
  by pat_completeness auto
termination
proof (relation "measure (\<lambda>(r, s). length s)")
  show "wf (measure (\<lambda>(r, s). length s))" by simp
next
  fix r s m x xs
  assume "search r s = Some m" "post_text m = x # xs"
  then show "((r, xs), (r, s)) \<in> measure (\<lambda>(r, s). length s)"
    using search_parts [of r s m] by (metis (no_types, lifting) case_prod_conv in_measure
      length_Cons length_append less_Suc_eq trans_less_add2)
next
  fix r s m
  assume "search r s = Some m" "matched m \<noteq> []"
  then show "((r, post_text m), (r, s)) \<in> measure (\<lambda>(r, s). length s)"
    using search_parts [of r s m] by (metis (no_types, lifting) case_prod_conv in_measure
      length_append length_greater_0_conv less_add_same_cancel2 trans_less_add2)
qed

declare match_all.simps [simp del]

section \<open>The resume field extractor (\<open>dataExtractor.ts\<close>)\<close>

text \<open>
  The OCR response as far as the extractor reads it.  \<open>None\<close> stands for a value that is
  \<open>null\<close> or \<open>undefined\<close>: the whole response, its page list, a page's markdown text.
\<close>

record OCRPage =
  index :: nat
  markdown :: "jstring option"

record OCRResponse =
  pages :: "OCRPage list option"

record HistoryEntry =
  year :: jstring
  month :: jstring
  description :: jstring

text \<open>The interface \<open>ExtractedResumeData\<close>: every field is optional, \<open>None\<close> is absent.\<close>

record ExtractedResumeData =
  name :: "jstring option"
  nameKana :: "jstring option"
  birthDate :: "jstring option"
  gender :: "jstring option"
  age :: "jsnumber option"
  address :: "jstring option"
  addressKana :: "jstring option"
  postalCode :: "jstring option"
  phoneNumber :: "jstring option"
  email :: "jstring option"
  alternativeAddress :: "jstring option"
  alternativeAddressKana :: "jstring option"
  alternativePhoneNumber :: "jstring option"
  educationHistory :: "HistoryEntry list option"
  workHistory :: "HistoryEntry list option"
  licenses :: "HistoryEntry list option"
  healthCondition :: "jstring option"
  hobbies :: "jstring option"
  nearestStation :: "jstring option"
  dependents :: "jsnumber option"
  hasSpouse :: "bool option"
  supportingSpouse :: "bool option"

text \<open>The object literal \<open>{}\<close> with which the extraction starts.\<close>

definition emptyData :: ExtractedResumeData where
  "emptyData =
     \<lparr>name = None, nameKana = None, birthDate = None, gender = None, age = None,
      address = None, addressKana = None, postalCode = None, phoneNumber = None,
      email = None, alternativeAddress = None, alternativeAddressKana = None,
      alternativePhoneNumber = None, educationHistory = None, workHistory = None,
      licenses = None, healthCondition = None, hobbies = None, nearestStation = None,
      dependents = None, hasSpouse = None, supportingSpouse = None\<rparr>"

datatype error = NoValidOCRResult | Sheet1NotFound

text \<open>\<open>pages.map(page => page.markdown || "").join("\n\n")\<close>\<close>

fun join_pages :: "jstring list \<Rightarrow> jstring" where
  "join_pages [] = []"
| "join_pages [t] = t"
| "join_pages (t # u # ts) = t @ [0x0A, 0x0A] @ join_pages (u # ts)"

definition allTextOf :: "OCRPage list \<Rightarrow> jstring" where
  "allTextOf ps = join_pages (map (\<lambda>p. case markdown p of None \<Rightarrow> [] | Some t \<Rightarrow> t) ps)"

text \<open>Concatenation of a list of patterns.\<close>

fun seqs :: "re list \<Rightarrow> re" where
  "seqs [] = Str []"
| "seqs [r] = r"
| "seqs (r # rs) = Seq r (seqs rs)"

subsection \<open>The patterns, in the order of the source\<close>

text \<open>\<open>/U+6C0F U+540D [U+FF1A:]*\s*([^\n\r]+)/\<close>\<close>

definition nameRe :: re where
  "nameRe = seqs [Str [0x6C0F, 0x540D], Star (OneOf [Lit 0xFF1A, Lit 0x3A]), Star Space,
     Grp 1 (Plus (NoneOf [Lit 0x0A, Lit 0x0D]))]"

text \<open>\<open>/U+3075 U+308A U+304C U+306A [U+FF1A:]*\s*([^\n\r]+)/\<close>\<close>

definition nameKanaRe :: re where
  "nameKanaRe = seqs [Str [0x3075, 0x308A, 0x304C, 0x306A], Star (OneOf [Lit 0xFF1A, Lit 0x3A]),
     Star Space, Grp 1 (Plus (NoneOf [Lit 0x0A, Lit 0x0D]))]"

text \<open>\<open>/U+751F U+5E74 U+6708 U+65E5 [U+FF1A:]*\s*([^\n\r U+FF08 (]+)/\<close>\<close>

definition birthDateRe :: re where
  "birthDateRe = seqs [Str [0x751F, 0x5E74, 0x6708, 0x65E5], Star (OneOf [Lit 0xFF1A, Lit 0x3A]),
     Star Space, Grp 1 (Plus (NoneOf [Lit 0x0A, Lit 0x0D, Lit 0xFF08, Lit 0x28]))]"

text \<open>
  \<open>/U+751F U+5E74 U+6708 U+65E5 [U+FF1A:]*\s*[^\n\r U+FF08 (]+[U+FF08 (]\s* U+6E80 \s*(\d+)\s* U+6B73/\<close>
\<close>

definition ageRe :: re where
  "ageRe = seqs [Str [0x751F, 0x5E74, 0x6708, 0x65E5], Star (OneOf [Lit 0xFF1A, Lit 0x3A]),
     Star Space, Plus (NoneOf [Lit 0x0A, Lit 0x0D, Lit 0xFF08, Lit 0x28]),
     One (OneOf [Lit 0xFF08, Lit 0x28]), Star Space, Str [0x6E80], Star Space,
     Grp 1 (Plus Digit), Star Space, Str [0x6B73]]"

text \<open>\<open>/U+6027 U+5225 [U+FF1A:]*\s*([U+7537 U+5973])/\<close>\<close>

definition genderRe :: re where
  "genderRe = seqs [Str [0x6027, 0x5225], Star (OneOf [Lit 0xFF1A, Lit 0x3A]), Star Space,
     Grp 1 (One (OneOf [Lit 0x7537, Lit 0x5973]))]"

text \<open>\<open>/U+73FE U+4F4F U+6240 [U+FF1A:]*\s*([^\n\r]+)(?:\n|\r|$)/\<close>\<close>

definition addressRe :: re where
  "addressRe = seqs [Str [0x73FE, 0x4F4F, 0x6240], Star (OneOf [Lit 0xFF1A, Lit 0x3A]), Star Space,
     Grp 1 (Plus (NoneOf [Lit 0x0A, Lit 0x0D])),
     Alt (Str [0x0A]) (Alt (Str [0x0D]) Eos)]"

text \<open>\<open>/U+3012 \s*(\d{3}-\d{4})/\<close>\<close>

definition postalCodeRe :: re where
  "postalCodeRe = seqs [Str [0x3012], Star Space,
     Grp 1 (seqs [Times 3 Digit, Str [0x2D], Times 4 Digit])]"

text \<open>\<open>/U+96FB U+8A71 U+756A U+53F7 [U+FF1A:]*\s*([0-9\-]+)/\<close>\<close>

definition phoneRe :: re where
  "phoneRe = seqs [Str [0x96FB, 0x8A71, 0x756A, 0x53F7], Star (OneOf [Lit 0xFF1A, Lit 0x3A]),
     Star Space, Grp 1 (Plus (OneOf [Range 0x30 0x39, Lit 0x2D]))]"

text \<open>\<open>/E[-\s]?mail[U+FF1A:]*\s*([^\s]+@[^\s]+)/\<close>\<close>

definition emailRe :: re where
  "emailRe = seqs [Str [0x45], Opt (OneOf [Lit 0x2D, Space]), Str [0x6D, 0x61, 0x69, 0x6C],
     Star (OneOf [Lit 0xFF1A, Lit 0x3A]), Star Space,
     Grp 1 (seqs [Plus (NoneOf [Space]), Str [0x40], Plus (NoneOf [Space])])]"

text \<open>\<open>/U+5B66 U+6B74 \s*\n([\s\S]*?)(?:U+8077 U+6B74|$)/\<close>\<close>

definition educationSectionRe :: re where
  "educationSectionRe = seqs [Str [0x5B66, 0x6B74], Star Space, Str [0x0A],
     Grp 1 (LazyStar (OneOf [Space, NotSpace])),
     Alt (Str [0x8077, 0x6B74]) Eos]"

text \<open>\<open>/(\d+)\s* U+5E74 \s*(\d+)\s* U+6708 \s*([^\n\r]+)/g\<close>, the scan for entries.\<close>

definition entriesRe :: re where
  "entriesRe = seqs [Grp 1 (Plus Digit), Star Space, Str [0x5E74], Star Space,
     Grp 2 (Plus Digit), Star Space, Str [0x6708], Star Space,
     Grp 3 (Plus (NoneOf [Lit 0x0A, Lit 0x0D]))]"

text \<open>\<open>/(\d+)\s* U+5E74 \s*(\d+)\s* U+6708 \s*(.+)/\<close>, the decomposition of one entry.\<close>

definition partsRe :: re where
  "partsRe = seqs [Grp 1 (Plus Digit), Star Space, Str [0x5E74], Star Space,
     Grp 2 (Plus Digit), Star Space, Str [0x6708], Star Space,
     Grp 3 (Plus Dot)]"

text \<open>
  \<open>/U+8077 U+6B74 \s*\n([\s\S]*?)(?:U+514D U+8A31 U+30FB U+8CC7 U+683C|U+5065 U+5EB7 U+72B6 U+614B|U+8DA3 U+5473|$)/\<close>
\<close>

definition workSectionRe :: re where
  "workSectionRe = seqs [Str [0x8077, 0x6B74], Star Space, Str [0x0A],
     Grp 1 (LazyStar (OneOf [Space, NotSpace])),
     Alt (Str [0x514D, 0x8A31, 0x30FB, 0x8CC7, 0x683C])
       (Alt (Str [0x5065, 0x5EB7, 0x72B6, 0x614B]) (Alt (Str [0x8DA3, 0x5473]) Eos))]"

text \<open>
  \<open>/U+514D U+8A31 U+30FB U+8CC7 U+683C \s*\n([\s\S]*?)(?:U+5065 U+5EB7 U+72B6 U+614B|U+8DA3 U+5473|$)/\<close>
\<close>

definition licenseSectionRe :: re where
  "licenseSectionRe = seqs [Str [0x514D, 0x8A31, 0x30FB, 0x8CC7, 0x683C], Star Space, Str [0x0A],
     Grp 1 (LazyStar (OneOf [Space, NotSpace])),
     Alt (Str [0x5065, 0x5EB7, 0x72B6, 0x614B]) (Alt (Str [0x8DA3, 0x5473]) Eos)]"

text \<open>\<open>/U+5065 U+5EB7 U+72B6 U+614B [U+FF1A:]*\s*([^\n\r]+)/\<close>\<close>

definition healthRe :: re where
  "healthRe = seqs [Str [0x5065, 0x5EB7, 0x72B6, 0x614B], Star (OneOf [Lit 0xFF1A, Lit 0x3A]),
     Star Space, Grp 1 (Plus (NoneOf [Lit 0x0A, Lit 0x0D]))]"

text \<open>\<open>/U+8DA3 U+5473 U+30FB U+7279 U+6280 [U+FF1A:]*\s*([^\n\r]+)/\<close>\<close>

definition hobbiesRe :: re where
  "hobbiesRe = seqs [Str [0x8DA3, 0x5473, 0x30FB, 0x7279, 0x6280],
     Star (OneOf [Lit 0xFF1A, Lit 0x3A]), Star Space,
     Grp 1 (Plus (NoneOf [Lit 0x0A, Lit 0x0D]))]"

text \<open>\<open>/U+6700 U+5BC4 U+308A U+99C5 [U+FF1A:]*\s*([^\n\r]+)/\<close>\<close>

definition stationRe :: re where
  "stationRe = seqs [Str [0x6700, 0x5BC4, 0x308A, 0x99C5], Star (OneOf [Lit 0xFF1A, Lit 0x3A]),
     Star Space, Grp 1 (Plus (NoneOf [Lit 0x0A, Lit 0x0D]))]"

text \<open>
  \<open>/U+6276 U+990A U+5BB6 U+65CF U+6570 [U+FF08 (] U+914D U+5076 U+8005 U+3092 U+9664 U+304F [U+FF09 )][U+FF1A:]*\s*(\d+)/\<close>
\<close>

definition dependentsRe :: re where
  "dependentsRe = seqs [Str [0x6276, 0x990A, 0x5BB6, 0x65CF, 0x6570],
     One (OneOf [Lit 0xFF08, Lit 0x28]),
     Str [0x914D, 0x5076, 0x8005, 0x3092, 0x9664, 0x304F],
     One (OneOf [Lit 0xFF09, Lit 0x29]),
     Star (OneOf [Lit 0xFF1A, Lit 0x3A]), Star Space, Grp 1 (Plus Digit)]"

text \<open>
  \<open>/U+914D U+5076 U+8005 U+306E U+6709 U+7121 [U+FF1A:]*\s*([U+3042 U+308A | U+306A U+3057]+)/\<close>:
  the bracket is a character class of five characters, the bar included.
\<close>

definition spouseRe :: re where
  "spouseRe = seqs [Str [0x914D, 0x5076, 0x8005, 0x306E, 0x6709, 0x7121],
     Star (OneOf [Lit 0xFF1A, Lit 0x3A]), Star Space,
     Grp 1 (Plus (OneOf [Lit 0x3042, Lit 0x308A, Lit 0x7C, Lit 0x306A, Lit 0x3057]))]"

text \<open>
  \<open>/U+914D U+5076 U+8005 U+306E U+6276 U+990A U+7FA9 U+52D9 [U+FF1A:]*\s*([U+3042 U+308A | U+306A U+3057]+)/\<close>
\<close>

definition supportingSpouseRe :: re where
  "supportingSpouseRe = seqs [Str [0x914D, 0x5076, 0x8005, 0x306E, 0x6276, 0x990A, 0x7FA9, 0x52D9],
     Star (OneOf [Lit 0xFF1A, Lit 0x3A]), Star Space,
     Grp 1 (Plus (OneOf [Lit 0x3042, Lit 0x308A, Lit 0x7C, Lit 0x306A, Lit 0x3057]))]"

subsection \<open>The extraction steps\<close>

text \<open>
  Each block of \<open>extractResumeData\<close> is a step that takes the concatenated text and the
  record built so far and returns the record with the fields it assigns; the record is
  passed from block to block in the order of the source.
\<close>

definition stepName :: "jstring \<Rightarrow> ExtractedResumeData \<Rightarrow> ExtractedResumeData" where
  "stepName allText d =
     (case truthy_group (search nameRe allText) 1 of
        None \<Rightarrow> d
      | Some g \<Rightarrow> d\<lparr>name := Some (trim g)\<rparr>)"

definition stepNameKana :: "jstring \<Rightarrow> ExtractedResumeData \<Rightarrow> ExtractedResumeData" where
  "stepNameKana allText d =
     (case truthy_group (search nameKanaRe allText) 1 of
        None \<Rightarrow> d
      | Some g \<Rightarrow> d\<lparr>nameKana := Some (trim g)\<rparr>)"

definition stepBirthDate :: "jstring \<Rightarrow> ExtractedResumeData \<Rightarrow> ExtractedResumeData" where
  "stepBirthDate allText d =
     (case truthy_group (search birthDateRe allText) 1 of
        None \<Rightarrow> d
      | Some g \<Rightarrow>
          (let d1 = d\<lparr>birthDate := Some (trim g)\<rparr> in
           case truthy_group (search ageRe allText) 1 of
             None \<Rightarrow> d1
           | Some a \<Rightarrow> d1\<lparr>age := Some (parseInt10 a)\<rparr>))"

definition stepGender :: "jstring \<Rightarrow> ExtractedResumeData \<Rightarrow> ExtractedResumeData" where
  "stepGender allText d =
     (case truthy_group (search genderRe allText) 1 of
        None \<Rightarrow> d
      | Some g \<Rightarrow> d\<lparr>gender := Some (trim g)\<rparr>)"

definition stepAddress :: "jstring \<Rightarrow> ExtractedResumeData \<Rightarrow> ExtractedResumeData" where
  "stepAddress allText d =
     (case truthy_group (search addressRe allText) 1 of
        None \<Rightarrow> d
      | Some g \<Rightarrow>
          (let d1 = d\<lparr>address := Some (trim g)\<rparr> in
           case truthy_group (search postalCodeRe g) 1 of
             None \<Rightarrow> d1
           | Some p \<Rightarrow> d1\<lparr>postalCode := Some p\<rparr>))"

definition stepPhone :: "jstring \<Rightarrow> ExtractedResumeData \<Rightarrow> ExtractedResumeData" where
  "stepPhone allText d =
     (case truthy_group (search phoneRe allText) 1 of
        None \<Rightarrow> d
      | Some g \<Rightarrow> d\<lparr>phoneNumber := Some (trim g)\<rparr>)"

definition stepEmail :: "jstring \<Rightarrow> ExtractedResumeData \<Rightarrow> ExtractedResumeData" where
  "stepEmail allText d =
     (case truthy_group (search emailRe allText) 1 of
        None \<Rightarrow> d
      | Some g \<Rightarrow> d\<lparr>email := Some (trim g)\<rparr>)"

text \<open>
  The callback of \<open>entries.map\<close>, the same in the three sections: the decomposition of one
  matched entry, with the fallback when the decomposition pattern does not match.
\<close>

definition entryOf :: "jstring \<Rightarrow> HistoryEntry" where
  "entryOf entry =
     (case search partsRe entry of
        Some parts \<Rightarrow>
          \<lparr>year = the (groups parts 1), month = the (groups parts 2),
           description = trim (the (groups parts 3))\<rparr>
      | None \<Rightarrow> \<lparr>year = [], month = [], description = trim entry\<rparr>)"

text \<open>
  The entries of a section text: \<open>None\<close> when the global match returns \<open>null\<close>, that is
  when there is no match.
\<close>

definition entriesOf :: "jstring \<Rightarrow> HistoryEntry list option" where
  "entriesOf sectionText =
     (case match_all entriesRe sectionText of
        [] \<Rightarrow> None
      | e # es \<Rightarrow> Some (map entryOf (e # es)))"

definition stepEducation :: "jstring \<Rightarrow> ExtractedResumeData \<Rightarrow> ExtractedResumeData" where
  "stepEducation allText d =
     (case truthy_group (search educationSectionRe allText) 1 of
        None \<Rightarrow> d
      | Some educationText \<Rightarrow>
          (case entriesOf educationText of
             None \<Rightarrow> d
           | Some es \<Rightarrow> d\<lparr>educationHistory := Some es\<rparr>))"

definition stepWork :: "jstring \<Rightarrow> ExtractedResumeData \<Rightarrow> ExtractedResumeData" where
  "stepWork allText d =
     (case truthy_group (search workSectionRe allText) 1 of
        None \<Rightarrow> d
      | Some workText \<Rightarrow>
          (case entriesOf workText of
             None \<Rightarrow> d
           | Some es \<Rightarrow> d\<lparr>workHistory := Some es\<rparr>))"

definition stepLicenses :: "jstring \<Rightarrow> ExtractedResumeData \<Rightarrow> ExtractedResumeData" where
  "stepLicenses allText d =
     (case truthy_group (search licenseSectionRe allText) 1 of
        None \<Rightarrow> d
      | Some licenseText \<Rightarrow>
          (case entriesOf licenseText of
             None \<Rightarrow> d
           | Some es \<Rightarrow> d\<lparr>licenses := Some es\<rparr>))"

definition stepHealth :: "jstring \<Rightarrow> ExtractedResumeData \<Rightarrow> ExtractedResumeData" where
  "stepHealth allText d =
     (case truthy_group (search healthRe allText) 1 of
        None \<Rightarrow> d
      | Some g \<Rightarrow> d\<lparr>healthCondition := Some (trim g)\<rparr>)"

definition stepHobbies :: "jstring \<Rightarrow> ExtractedResumeData \<Rightarrow> ExtractedResumeData" where
  "stepHobbies allText d =
     (case truthy_group (search hobbiesRe allText) 1 of
        None \<Rightarrow> d
      | Some g \<Rightarrow> d\<lparr>hobbies := Some (trim g)\<rparr>)"

definition stepStation :: "jstring \<Rightarrow> ExtractedResumeData \<Rightarrow> ExtractedResumeData" where
  "stepStation allText d =
     (case truthy_group (search stationRe allText) 1 of
        None \<Rightarrow> d
      | Some g \<Rightarrow> d\<lparr>nearestStation := Some (trim g)\<rparr>)"

definition stepDependents :: "jstring \<Rightarrow> ExtractedResumeData \<Rightarrow> ExtractedResumeData" where
  "stepDependents allText d =
     (case truthy_group (search dependentsRe allText) 1 of
        None \<Rightarrow> d
      | Some g \<Rightarrow> d\<lparr>dependents := Some (parseInt10 g)\<rparr>)"

definition stepSpouse :: "jstring \<Rightarrow> ExtractedResumeData \<Rightarrow> ExtractedResumeData" where
  "stepSpouse allText d =
     (case truthy_group (search spouseRe allText) 1 of
        None \<Rightarrow> d
      | Some g \<Rightarrow> d\<lparr>hasSpouse := Some (includes_str g [0x3042, 0x308A])\<rparr>)"

definition stepSupportingSpouse :: "jstring \<Rightarrow> ExtractedResumeData \<Rightarrow> ExtractedResumeData" where
  "stepSupportingSpouse allText d =
     (case truthy_group (search supportingSpouseRe allText) 1 of
        None \<Rightarrow> d
      | Some g \<Rightarrow> d\<lparr>supportingSpouse := Some (includes_str g [0x3042, 0x308A])\<rparr>)"

text \<open>The body of \<open>extractResumeData\<close> after the guard, on the concatenated text.\<close>

definition extractFromText :: "jstring \<Rightarrow> ExtractedResumeData" where
  "extractFromText allText =
     (stepSupportingSpouse allText \<circ> stepSpouse allText \<circ> stepDependents allText \<circ>
      stepStation allText \<circ> stepHobbies allText \<circ> stepHealth allText \<circ>
      stepLicenses allText \<circ> stepWork allText \<circ> stepEducation allText \<circ>
      stepEmail allText \<circ> stepPhone allText \<circ> stepAddress allText \<circ>
      stepGender allText \<circ> stepBirthDate allText \<circ> stepNameKana allText \<circ>
      stepName allText) emptyData"

text \<open>
  \<open>extractResumeData\<close>: the guard throws when the response, or its page list, is missing
  or when the page list is empty; otherwise the record extracted from the joined text is
  returned.
\<close>

definition extractResumeData :: "OCRResponse option \<Rightarrow> error + ExtractedResumeData" where
  "extractResumeData ocrResult =
     (case ocrResult of
        None \<Rightarrow> Inl NoValidOCRResult
      | Some r \<Rightarrow>
          (case pages r of
             None \<Rightarrow> Inl NoValidOCRResult
           | Some ps \<Rightarrow>
               if length ps = 0 then Inl NoValidOCRResult
               else Inr (extractFromText (allTextOf ps))))"

section \<open>The history store (\<open>storageUtils.ts\<close>)\<close>

text \<open>
  One record of the history.  The field \<open>id\<close> of the source is called \<open>entry_id\<close> here.
\<close>

record StoredOCRResult =
  entry_id :: jstring
  timestamp :: nat
  filename :: jstring
  result :: OCRResponse

text \<open>
  The exceptions: the one that a storage operation throws, the \<open>SyntaxError\<close> of
  \<open>JSON.parse\<close>, and the \<open>TypeError\<close> of a spread, a method call or a property access on a
  value that does not have it.
\<close>

datatype exn = StorageError | SyntaxError | TypeError

text \<open>
  An element of a stored array.  \<open>getStoredOCRResults\<close> casts the value that \<open>JSON.parse\<close>
  returns to \<open>StoredOCRResult[]\<close> without a check, so an array under the key may hold any
  JSON value, not only the records that this module writes.  The functions of the module
  read nothing of an element but its property \<open>id\<close>.  So an element is a record, or
  \<open>null\<close>, or any other value: \<open>Foreign v\<close>, where \<open>v\<close> is the property \<open>id\<close> of the value when
  that is a string (an object with a string \<open>id\<close> that is not a complete record) and
  \<open>None\<close> otherwise (a number, a string, a boolean, an array, an object without a string
  \<open>id\<close>).
\<close>

datatype element = Entry StoredOCRResult | Foreign "jstring option" | NullElement

text \<open>
  \<open>result.id\<close>: reading a property of \<open>null\<close> throws; of any other value it gives the
  property, or \<open>undefined\<close>, which no string equals.
\<close>

definition idOf :: "element \<Rightarrow> exn + jstring option" where
  "idOf x =
     (case x of
        Entry r \<Rightarrow> Inr (Some (entry_id r))
      | Foreign v \<Rightarrow> Inr v
      | NullElement \<Rightarrow> Inl TypeError)"

text \<open>
  What \<open>localStorage\<close> holds under the key \<open>pdf2md_ocr_results\<close>, as far as the code
  distinguishes it: the empty string (falsy), a text that \<open>JSON.parse\<close> rejects, the JSON
  text of an array, the JSON text of a string, given by the number of its code points,
  or the JSON text of any other value (\<open>null\<close>, a number, a boolean, an object such as
  \<open>{}\<close>), none of which is iterable.  \<open>JSON.stringify\<close> followed by \<open>JSON.parse\<close> is taken to
  give the array back.
\<close>

datatype raw =
  EmptyString | NotJson | JsonArray "element list" | JsonString nat | JsonNotIterable

text \<open>
  The storage as the functions see it: the value under the key (\<open>None\<close> is \<open>null\<close>, no
  value), and whether \<open>getItem\<close> and \<open>setItem\<close> throw in this environment (storage
  disabled, quota exceeded).
\<close>

record localStorage =
  item :: "raw option"
  getItemThrows :: bool
  setItemThrows :: bool

definition getItem :: "localStorage \<Rightarrow> exn + raw option" where
  "getItem ls = (if getItemThrows ls then Inl StorageError else Inr (item ls))"

text \<open>\<open>setItem\<close> with the JSON text of a list; a failed write leaves the storage as it was.\<close>

definition setItem :: "localStorage \<Rightarrow> element list \<Rightarrow> exn + localStorage" where
  "setItem ls xs =
     (if setItemThrows ls then Inl StorageError else Inr (ls\<lparr>item := Some (JsonArray xs)\<rparr>))"

text \<open>
  The value that \<open>JSON.parse\<close> returns: an array, a string of so many code points, or a
  value that is not iterable.
\<close>

datatype parsed = ArrayValue "element list" | StringValue nat | NotIterable

definition JSON_parse :: "raw \<Rightarrow> exn + parsed" where
  "JSON_parse v =
     (case v of
        EmptyString \<Rightarrow> Inl SyntaxError
      | NotJson \<Rightarrow> Inl SyntaxError
      | JsonArray xs \<Rightarrow> Inr (ArrayValue xs)
      | JsonString n \<Rightarrow> Inr (StringValue n)
      | JsonNotIterable \<Rightarrow> Inr NotIterable)"

text \<open>
  \<open>getStoredOCRResults\<close>: the whole body stands in a \<open>try\<close> block whose \<open>catch\<close> returns the
  empty list; the parsed value is returned through the cast, whatever it is.
\<close>

definition getStoredOCRResults :: "localStorage \<Rightarrow> parsed" where
  "getStoredOCRResults ls =
     (case getItem ls of
        Inl e \<Rightarrow> ArrayValue []
      | Inr storedData \<Rightarrow>
          (case storedData of
             None \<Rightarrow> ArrayValue []
           | Some v \<Rightarrow>
               if v = EmptyString then ArrayValue []
               else (case JSON_parse v of Inl e \<Rightarrow> ArrayValue [] | Inr p \<Rightarrow> p)))"

text \<open>
  The spread \<open>...existingResults\<close>: the elements of an array; the code points of a string,
  each a string of its own; a \<open>TypeError\<close> for a value that is not iterable.
\<close>

definition spread :: "parsed \<Rightarrow> exn + element list" where
  "spread p =
     (case p of
        ArrayValue xs \<Rightarrow> Inr xs
      | StringValue n \<Rightarrow> Inr (replicate n (Foreign None))
      | NotIterable \<Rightarrow> Inl TypeError)"

text \<open>
  \<open>saveOCRResult\<close>.  The identifier from \<open>generateUniqueId()\<close> and the time from
  \<open>Date.now()\<close> come from the environment and are parameters here.  The read and the
  spread \<open>[newResult, ...existingResults]\<close> stand before the \<open>try\<close>: when the value read is
  not iterable the spread throws a \<open>TypeError\<close>, which reaches the caller, and \<open>setItem\<close> is
  not called.  Otherwise the result is the new record together with the storage after the
  call; the \<open>catch\<close> around \<open>setItem\<close> only logs.
\<close>

definition saveOCRResult ::
  "jstring \<Rightarrow> nat \<Rightarrow> OCRResponse \<Rightarrow> jstring \<Rightarrow> localStorage \<Rightarrow>
     exn + StoredOCRResult \<times> localStorage"
where
  "saveOCRResult uniqueId now res fname ls =
     (let existingResults = getStoredOCRResults ls;
          newResult = \<lparr>entry_id = uniqueId, timestamp = now, filename = fname, result = res\<rparr>
      in case spread existingResults of
           Inl e \<Rightarrow> Inl e
         | Inr existing \<Rightarrow>
             (let updatedResults = Entry newResult # existing;
                  limitedResults = take 10 updatedResults
              in (case setItem ls limitedResults of
                    Inl e \<Rightarrow> Inr (newResult, ls)
                  | Inr ls' \<Rightarrow> Inr (newResult, ls'))))"

text \<open>
  \<open>results.find(result => result.id === id)\<close> on an array: the callback runs on the
  elements in order up to the first match, and throws on a \<open>null\<close> element.
\<close>

fun find_id :: "jstring \<Rightarrow> element list \<Rightarrow> exn + element option" where
  "find_id i [] = Inr None"
| "find_id i (x # xs) =
     (case idOf x of
        Inl e \<Rightarrow> Inl e
      | Inr v \<Rightarrow> if v = Some i then Inr (Some x) else find_id i xs)"

text \<open>
  \<open>getStoredOCRResultById\<close>: \<open>results.find(...) || null\<close>, outside any \<open>try\<close>; a value that
  is not an array has no method \<open>find\<close>.
\<close>

definition getStoredOCRResultById :: "jstring \<Rightarrow> localStorage \<Rightarrow> exn + element option" where
  "getStoredOCRResultById i ls =
     (case getStoredOCRResults ls of
        ArrayValue results \<Rightarrow> find_id i results
      | StringValue n \<Rightarrow> Inl TypeError
      | NotIterable \<Rightarrow> Inl TypeError)"

text \<open>
  \<open>results.filter(result => result.id !== id)\<close> on an array: the callback runs on every
  element in order, and throws on a \<open>null\<close> element.
\<close>

fun filter_other_ids :: "jstring \<Rightarrow> element list \<Rightarrow> exn + element list" where
  "filter_other_ids i [] = Inr []"
| "filter_other_ids i (x # xs) =
     (case idOf x of
        Inl e \<Rightarrow> Inl e
      | Inr v \<Rightarrow>
          (case filter_other_ids i xs of
             Inl e \<Rightarrow> Inl e
           | Inr ys \<Rightarrow> Inr (if v \<noteq> Some i then x # ys else ys)))"

text \<open>
  \<open>deleteStoredOCRResult\<close>: the result is the returned boolean together with the storage
  after the call.  The whole body stands in the \<open>try\<close>, and the \<open>catch\<close> returns \<open>false\<close>:
  for a failing \<open>setItem\<close>, for the \<open>TypeError\<close> of the callback on a \<open>null\<close> element, and for
  the \<open>TypeError\<close> of \<open>results.filter\<close> on a value that is not an array.
\<close>

definition deleteStoredOCRResult :: "jstring \<Rightarrow> localStorage \<Rightarrow> bool \<times> localStorage" where
  "deleteStoredOCRResult i ls =
     (case getStoredOCRResults ls of
        ArrayValue results \<Rightarrow>
          (case filter_other_ids i results of
             Inl e \<Rightarrow> (False, ls)
           | Inr filteredResults \<Rightarrow>
               if length results = length filteredResults then (False, ls)
               else (case setItem ls filteredResults of
                       Inl e \<Rightarrow> (False, ls)
                     | Inr ls' \<Rightarrow> (True, ls')))
      | StringValue n \<Rightarrow> (False, ls)
      | NotIterable \<Rightarrow> (False, ls))"

text \<open>
  The history list that the storage holds, whether or not a read of it would succeed:
  the elements that a spread of the stored value gives, that is the array under the key
  (or the code points of a string under the key), and the empty list when there is
  neither.
\<close>

definition storedList :: "localStorage \<Rightarrow> element list" where
  "storedList ls =
     (case item ls of
        Some (JsonArray xs) \<Rightarrow> xs
      | Some (JsonString n) \<Rightarrow> replicate n (Foreign None)
      | _ \<Rightarrow> [])"

text \<open>
  The entries that \<open>saveOCRResult\<close> reads: the elements that the spread of the value read
  gives, and none when that value is not iterable.
\<close>

definition readList :: "localStorage \<Rightarrow> element list" where
  "readList ls = (case spread (getStoredOCRResults ls) of Inr xs \<Rightarrow> xs | Inl e \<Rightarrow> [])"

text \<open>The \<open>id\<close> of an element, when it has one that is a string.\<close>

definition elementId :: "element \<Rightarrow> jstring option" where
  "elementId x = (case x of Entry r \<Rightarrow> Some (entry_id r) | Foreign v \<Rightarrow> v | NullElement \<Rightarrow> None)"

section \<open>The template filler (\<open>excelGenerator.ts\<close>)\<close>

text \<open>
  A cell address is a column letter and a row number (\<open>getCell('A' + rowIndex)\<close>); a
  worksheet maps the addresses to the cell values, \<open>None\<close> for a cell without a value.
  The source writes strings and, for \<open>dependents\<close>, a number.  \<open>TextWithNumber u n v\<close> is
  the string made of \<open>u\<close>, the characters that JavaScript prints for the number \<open>n\<close>, and
  \<open>v\<close>; it stands where the print of the number is not modelled.
\<close>

type_synonym cell = "string \<times> nat"

datatype cellValue =
  TextValue jstring | NumberValue jsnumber | TextWithNumber jstring jsnumber jstring

type_synonym worksheet = "cell \<rightharpoonup> cellValue"

type_synonym workbook = "string \<rightharpoonup> worksheet"

text \<open>The test \<open>if (resumeData.f)\<close> on an optional string: present and not empty.\<close>

definition truthy :: "jstring option \<Rightarrow> bool" where
  "truthy v = (case v of None \<Rightarrow> False | Some x \<Rightarrow> x \<noteq> [])"

text \<open>
  The decimal digits of an integer.  The template literal prints a number that is an
  integer below \<open>10^21\<close> this way; the function is applied to integers below \<open>2^53\<close> only.
\<close>

fun digitsOf :: "nat \<Rightarrow> nat \<Rightarrow> jstring" where
  "digitsOf 0 n = []"
| "digitsOf (Suc fuel) n =
     (if n < 10 then [0x30 + n] else digitsOf fuel (n div 10) @ [0x30 + n mod 10])"

definition numberToString :: "nat \<Rightarrow> jstring" where
  "numberToString n = digitsOf (Suc n) n"

text \<open>\<open>/(\d+)\s* U+5E74 \s*(\d+)\s* U+6708 \s*(\d+)\s* U+65E5/\<close>\<close>

definition birthDatePartsRe :: re where
  "birthDatePartsRe = seqs [Grp 1 (Plus Digit), Star Space, Str [0x5E74], Star Space,
     Grp 2 (Plus Digit), Star Space, Str [0x6708], Star Space,
     Grp 3 (Plus Digit), Star Space, Str [0x65E5]]"

text \<open>\<open>/U+3012 \s*\d{3}-\d{4}\s*/\<close>\<close>

definition postalPrefixRe :: re where
  "postalPrefixRe = seqs [Str [0x3012], Star Space, Times 3 Digit, Str [0x2D], Times 4 Digit,
     Star Space]"

text \<open>\<open>s.replace(re, '')\<close> without the \<open>g\<close> flag: the first match is cut out.\<close>

definition replace_first_empty :: "re \<Rightarrow> jstring \<Rightarrow> jstring" where
  "replace_first_empty r s =
     (case search r s of None \<Rightarrow> s | Some m \<Rightarrow> pre_text m @ post_text m)"

text \<open>The blocks of lines 37 to 143, one per field, in the order of the source.\<close>

definition fillName :: "ExtractedResumeData \<Rightarrow> worksheet \<Rightarrow> worksheet" where
  "fillName d ws =
     (if truthy (name d) then ws((''B'', 3) \<mapsto> TextValue (the (name d))) else ws)"

definition fillNameKana :: "ExtractedResumeData \<Rightarrow> worksheet \<Rightarrow> worksheet" where
  "fillNameKana d ws =
     (if truthy (nameKana d) then ws((''B'', 2) \<mapsto> TextValue (the (nameKana d))) else ws)"

text \<open>
  The cell A5: the date rebuilt from its parts, with \<open>resumeData.age || ''\<close> (an absent age
  and the age 0 both print as the empty string), or the birth date as it is.  The digits
  of the age are written out when it is an integer below \<open>2^53\<close>; otherwise the print of
  the number is left in the cell value as it is.
\<close>

definition fillBirthDate :: "ExtractedResumeData \<Rightarrow> worksheet \<Rightarrow> worksheet" where
  "fillBirthDate d ws =
     (if truthy (birthDate d) then
        (case search birthDatePartsRe (the (birthDate d)) of
           Some m \<Rightarrow>
             (let u = the (groups m 1) @ [0x5E74, 0x20] @ the (groups m 2) @ [0x6708, 0x20] @
                      the (groups m 3) @ [0x65E5, 0x751F, 0x20, 0xFF08, 0x20, 0x6E80, 0x20];
                  v = [0x6B73, 0x20, 0xFF09]
              in case age d of
                   None \<Rightarrow> ws((''A'', 5) \<mapsto> TextValue (u @ v))
                 | Some (Int53 a) \<Rightarrow>
                     if a < 2 ^ 53
                     then ws((''A'', 5) \<mapsto>
                            TextValue (u @ (if a = 0 then [] else numberToString a) @ v))
                     else ws((''A'', 5) \<mapsto> TextWithNumber u (Int53 a) v)
                 | Some (Rounded ds) \<Rightarrow>
                     ws((''A'', 5) \<mapsto> TextWithNumber u (Rounded ds) v))
         | None \<Rightarrow> ws((''A'', 5) \<mapsto> TextValue (the (birthDate d))))
      else ws)"

definition fillGender :: "ExtractedResumeData \<Rightarrow> worksheet \<Rightarrow> worksheet" where
  "fillGender d ws =
     (if truthy (gender d) then ws((''D'', 2) \<mapsto> TextValue (the (gender d))) else ws)"

definition fillAddressKana :: "ExtractedResumeData \<Rightarrow> worksheet \<Rightarrow> worksheet" where
  "fillAddressKana d ws =
     (if truthy (addressKana d) then ws((''B'', 6) \<mapsto> TextValue (the (addressKana d))) else ws)"

definition fillPostalCode :: "ExtractedResumeData \<Rightarrow> worksheet \<Rightarrow> worksheet" where
  "fillPostalCode d ws =
     (if truthy (postalCode d)
      then ws((''B'', 7) \<mapsto> TextValue ([0x3012, 0x20] @ the (postalCode d))) else ws)"

definition fillAddress :: "ExtractedResumeData \<Rightarrow> worksheet \<Rightarrow> worksheet" where
  "fillAddress d ws =
     (if truthy (address d)
      then ws((''A'', 7) \<mapsto> TextValue (replace_first_empty postalPrefixRe (the (address d))))
      else ws)"

definition fillPhoneNumber :: "ExtractedResumeData \<Rightarrow> worksheet \<Rightarrow> worksheet" where
  "fillPhoneNumber d ws =
     (if truthy (phoneNumber d) then ws((''F'', 6) \<mapsto> TextValue (the (phoneNumber d))) else ws)"

definition fillEmail :: "ExtractedResumeData \<Rightarrow> worksheet \<Rightarrow> worksheet" where
  "fillEmail d ws =
     (if truthy (email d) then ws((''F'', 7) \<mapsto> TextValue (the (email d))) else ws)"

text \<open>
  The \<open>forEach\<close> loops: one row per entry from the start row on, the year, the month and the
  description in three columns; \<open>rowIndex\<close> is not checked against anything.
\<close>

fun writeRows :: "string \<Rightarrow> string \<Rightarrow> string \<Rightarrow> nat \<Rightarrow> HistoryEntry list \<Rightarrow> worksheet \<Rightarrow> worksheet"
where
  "writeRows c1 c2 c3 rowIndex [] ws = ws"
| "writeRows c1 c2 c3 rowIndex (entry # es) ws =
     writeRows c1 c2 c3 (Suc rowIndex) es
       (ws((c1, rowIndex) \<mapsto> TextValue (year entry),
           (c2, rowIndex) \<mapsto> TextValue (month entry),
           (c3, rowIndex) \<mapsto> TextValue (description entry)))"

text \<open>The test \<open>list && list.length > 0\<close> with the loop behind it.\<close>

definition fillRows ::
  "string \<Rightarrow> string \<Rightarrow> string \<Rightarrow> nat \<Rightarrow> HistoryEntry list option \<Rightarrow> worksheet \<Rightarrow> worksheet"
where
  "fillRows c1 c2 c3 start l ws =
     (case l of
        None \<Rightarrow> ws
      | Some es \<Rightarrow> if length es > 0 then writeRows c1 c2 c3 start es ws else ws)"

definition fillEducation :: "ExtractedResumeData \<Rightarrow> worksheet \<Rightarrow> worksheet" where
  "fillEducation d ws = fillRows ''A'' ''B'' ''C'' 14 (educationHistory d) ws"

definition fillWork :: "ExtractedResumeData \<Rightarrow> worksheet \<Rightarrow> worksheet" where
  "fillWork d ws = fillRows ''A'' ''B'' ''C'' 20 (workHistory d) ws"

definition fillLicenses :: "ExtractedResumeData \<Rightarrow> worksheet \<Rightarrow> worksheet" where
  "fillLicenses d ws = fillRows ''I'' ''J'' ''K'' 14 (licenses d) ws"

definition fillHealthCondition :: "ExtractedResumeData \<Rightarrow> worksheet \<Rightarrow> worksheet" where
  "fillHealthCondition d ws =
     (if truthy (healthCondition d)
      then ws((''I'', 17) \<mapsto> TextValue (the (healthCondition d))) else ws)"

definition fillHobbies :: "ExtractedResumeData \<Rightarrow> worksheet \<Rightarrow> worksheet" where
  "fillHobbies d ws =
     (if truthy (hobbies d) then ws((''I'', 18) \<mapsto> TextValue (the (hobbies d))) else ws)"

definition fillNearestStation :: "ExtractedResumeData \<Rightarrow> worksheet \<Rightarrow> worksheet" where
  "fillNearestStation d ws =
     (if truthy (nearestStation d)
      then ws((''I'', 19) \<mapsto> TextValue (the (nearestStation d))) else ws)"

text \<open>The last three blocks test \<open>!== undefined\<close>: the value 0 and \<open>false\<close> are written.\<close>

definition fillDependents :: "ExtractedResumeData \<Rightarrow> worksheet \<Rightarrow> worksheet" where
  "fillDependents d ws =
     (case dependents d of None \<Rightarrow> ws | Some n \<Rightarrow> ws((''L'', 17) \<mapsto> NumberValue n))"

definition fillHasSpouse :: "ExtractedResumeData \<Rightarrow> worksheet \<Rightarrow> worksheet" where
  "fillHasSpouse d ws =
     (case hasSpouse d of
        None \<Rightarrow> ws
      | Some b \<Rightarrow>
          ws((''L'', 18) \<mapsto> TextValue (if b then [0x3042, 0x308A] else [0x306A, 0x3057])))"

definition fillSupportingSpouse :: "ExtractedResumeData \<Rightarrow> worksheet \<Rightarrow> worksheet" where
  "fillSupportingSpouse d ws =
     (case supportingSpouse d of
        None \<Rightarrow> ws
      | Some b \<Rightarrow>
          ws((''L'', 19) \<mapsto> TextValue (if b then [0x3042, 0x308A] else [0x306A, 0x3057])))"

text \<open>The fields of the record that have a block in the filler, in the order of the blocks.\<close>

datatype field =
    Name | NameKana | BirthDate | Gender | AddressKana | PostalCode | Address
  | PhoneNumber | Email | EducationHistory | WorkHistory | Licenses
  | HealthCondition | Hobbies | NearestStation | Dependents | HasSpouse | SupportingSpouse

fun fillField :: "field \<Rightarrow> ExtractedResumeData \<Rightarrow> worksheet \<Rightarrow> worksheet" where
  "fillField Name = fillName"
| "fillField NameKana = fillNameKana"
| "fillField BirthDate = fillBirthDate"
| "fillField Gender = fillGender"
| "fillField AddressKana = fillAddressKana"
| "fillField PostalCode = fillPostalCode"
| "fillField Address = fillAddress"
| "fillField PhoneNumber = fillPhoneNumber"
| "fillField Email = fillEmail"
| "fillField EducationHistory = fillEducation"
| "fillField WorkHistory = fillWork"
| "fillField Licenses = fillLicenses"
| "fillField HealthCondition = fillHealthCondition"
| "fillField Hobbies = fillHobbies"
| "fillField NearestStation = fillNearestStation"
| "fillField Dependents = fillDependents"
| "fillField HasSpouse = fillHasSpouse"
| "fillField SupportingSpouse = fillSupportingSpouse"

definition blockOrder :: "field list" where
  "blockOrder =
     [Name, NameKana, BirthDate, Gender, AddressKana, PostalCode, Address, PhoneNumber,
      Email, EducationHistory, WorkHistory, Licenses, HealthCondition, Hobbies,
      NearestStation, Dependents, HasSpouse, SupportingSpouse]"

text \<open>Lines 37 to 143: the blocks one after the other on the worksheet.\<close>

definition fillSheet :: "ExtractedResumeData \<Rightarrow> worksheet \<Rightarrow> worksheet" where
  "fillSheet d ws = fold (\<lambda>f. fillField f d) blockOrder ws"

text \<open>
  \<open>generateResumeExcel\<close> on the workbook read from the template: the error when the
  workbook has no sheet \<open>Sheet1\<close>, otherwise the workbook with that sheet filled.  Reading
  the template, writing the file and the upload are left to the libraries.
\<close>

definition generateResumeExcel :: "ExtractedResumeData \<Rightarrow> workbook \<Rightarrow> error + workbook" where
  "generateResumeExcel resumeData wb =
     (case wb ''Sheet1'' of
        None \<Rightarrow> Inl Sheet1NotFound
      | Some worksheet \<Rightarrow> Inr (wb(''Sheet1'' \<mapsto> fillSheet resumeData worksheet)))"

text \<open>
  The cells to which the spec maps a field: one cell for a scalar field, and for a list
  the three columns of its region, one row per entry from the start row on.
\<close>

definition rowCells :: "string \<Rightarrow> string \<Rightarrow> string \<Rightarrow> nat \<Rightarrow> HistoryEntry list option \<Rightarrow> cell set"
where
  "rowCells c1 c2 c3 start l =
     {(c, r). c \<in> {c1, c2, c3} \<and> start \<le> r \<and> r < start + length (case l of None \<Rightarrow> [] | Some es \<Rightarrow> es)}"

fun mappedTarget :: "field \<Rightarrow> ExtractedResumeData \<Rightarrow> cell set" where
  "mappedTarget Name d = {(''B'', 3)}"
| "mappedTarget NameKana d = {(''B'', 2)}"
| "mappedTarget BirthDate d = {(''A'', 5)}"
| "mappedTarget Gender d = {(''D'', 2)}"
| "mappedTarget AddressKana d = {(''B'', 6)}"
| "mappedTarget PostalCode d = {(''B'', 7)}"
| "mappedTarget Address d = {(''A'', 7)}"
| "mappedTarget PhoneNumber d = {(''F'', 6)}"
| "mappedTarget Email d = {(''F'', 7)}"
| "mappedTarget EducationHistory d = rowCells ''A'' ''B'' ''C'' 14 (educationHistory d)"
| "mappedTarget WorkHistory d = rowCells ''A'' ''B'' ''C'' 20 (workHistory d)"
| "mappedTarget Licenses d = rowCells ''I'' ''J'' ''K'' 14 (licenses d)"
| "mappedTarget HealthCondition d = {(''I'', 17)}"
| "mappedTarget Hobbies d = {(''I'', 18)}"
| "mappedTarget NearestStation d = {(''I'', 19)}"
| "mappedTarget Dependents d = {(''L'', 17)}"
| "mappedTarget HasSpouse d = {(''L'', 18)}"
| "mappedTarget SupportingSpouse d = {(''L'', 19)}"

text \<open>A field is absent when the record has no value for it.\<close>

fun absent :: "field \<Rightarrow> ExtractedResumeData \<Rightarrow> bool" where
  "absent Name d = (name d = None)"
| "absent NameKana d = (nameKana d = None)"
| "absent BirthDate d = (birthDate d = None)"
| "absent Gender d = (gender d = None)"
| "absent AddressKana d = (addressKana d = None)"
| "absent PostalCode d = (postalCode d = None)"
| "absent Address d = (address d = None)"
| "absent PhoneNumber d = (phoneNumber d = None)"
| "absent Email d = (email d = None)"
| "absent EducationHistory d = (educationHistory d = None)"
| "absent WorkHistory d = (workHistory d = None)"
| "absent Licenses d = (licenses d = None)"
| "absent HealthCondition d = (healthCondition d = None)"
| "absent Hobbies d = (hobbies d = None)"
| "absent NearestStation d = (nearestStation d = None)"
| "absent Dependents d = (dependents d = None)"
| "absent HasSpouse d = (hasSpouse d = None)"
| "absent SupportingSpouse d = (supportingSpouse d = None)"

section \<open>Vocabulary of the statements\<close>

text \<open>
  The label of the birth date, the two colons that may follow a label (full width and
  ASCII), and the characters at which the capture of the birth date stops: a new line, a
  carriage return, and the opening parenthesis, full width or ASCII.
\<close>

definition birthLabel :: jstring where
  "birthLabel = [0x751F, 0x5E74, 0x6708, 0x65E5]"

definition is_colon :: "jchar \<Rightarrow> bool" where
  "is_colon c \<longleftrightarrow> c = 0xFF1A \<or> c = 0x3A"

definition ends_date :: "jchar \<Rightarrow> bool" where
  "ends_date c \<longleftrightarrow> c = 0x0A \<or> c = 0x0D \<or> c = 0xFF08 \<or> c = 0x28"

text \<open>An opening parenthesis, full width or ASCII.\<close>

definition is_open_paren :: "jchar \<Rightarrow> bool" where
  "is_open_paren c \<longleftrightarrow> c = 0xFF08 \<or> c = 0x28"

text \<open>
  The shape that the three section patterns share: the header, white space, a new line,
  the lazily captured section text, and then one of the terminators or the end of the
  text.
\<close>

fun alts :: "jstring list \<Rightarrow> re" where
  "alts [] = Eos"
| "alts (t # ts) = Alt (Str t) (alts ts)"

definition sectionRe :: "jstring \<Rightarrow> jstring list \<Rightarrow> re" where
  "sectionRe header terms =
     seqs [Str header, Star Space, Str [0x0A], Grp 1 (LazyStar (OneOf [Space, NotSpace])),
       alts terms]"

text \<open>
  The headers and, for each section, the terminators that its pattern names:
  for education U+8077 U+6B74; for work history U+514D U+8A31 U+30FB U+8CC7 U+683C,
  U+5065 U+5EB7 U+72B6 U+614B and U+8DA3 U+5473; for licenses the last two.
\<close>

definition educationHeader :: jstring where
  "educationHeader = [0x5B66, 0x6B74]"

definition workHeader :: jstring where
  "workHeader = [0x8077, 0x6B74]"

definition licenseHeader :: jstring where
  "licenseHeader = [0x514D, 0x8A31, 0x30FB, 0x8CC7, 0x683C]"

definition educationTerminators :: "jstring list" where
  "educationTerminators = [[0x8077, 0x6B74]]"

definition workTerminators :: "jstring list" where
  "workTerminators =
     [[0x514D, 0x8A31, 0x30FB, 0x8CC7, 0x683C], [0x5065, 0x5EB7, 0x72B6, 0x614B], [0x8DA3, 0x5473]]"

definition licenseTerminators :: "jstring list" where
  "licenseTerminators = [[0x5065, 0x5EB7, 0x72B6, 0x614B], [0x8DA3, 0x5473]]"

text \<open>The text \<open>u\<close> is at its end or starts with one of the terminators.\<close>

definition stops_at :: "jstring list \<Rightarrow> jstring \<Rightarrow> bool" where
  "stops_at terms u \<longleftrightarrow> u = [] \<or> list_ex (\<lambda>x. prefix x u) terms"

text \<open>
  The section text \<open>g\<close>, followed in the text by \<open>post\<close>, ends at the nearest terminator:
  \<open>post\<close> is at the end of the text or starts with a terminator, and no terminator starts
  at any position of \<open>g\<close>.
\<close>

definition ends_at_nearest :: "jstring list \<Rightarrow> jstring \<Rightarrow> jstring \<Rightarrow> bool" where
  "ends_at_nearest terms g post \<longleftrightarrow>
     stops_at terms post \<and> list_all (\<lambda>j. \<not> stops_at terms (drop j (g @ post))) [0..<length g]"

section \<open>Sample texts\<close>

text \<open>
  An education section with one entry:
  \<open>U+5B66 U+6B74\<close>, new line, \<open>2010 U+5E74 4 U+6708 A U+9AD8 U+6821 U+5165 U+5B66\<close>, new line.
\<close>

definition text_one_entry :: jstring where
  "text_one_entry = [0x5B66, 0x6B74, 0xA, 0x32, 0x30, 0x31, 0x30, 0x5E74, 0x34, 0x6708,
                     0x20, 0x41, 0x9AD8, 0x6821, 0x5165, 0x5B66, 0xA]"

text \<open>
  An education section whose only line ends in the line separator U+2028:
  \<open>U+5B66 U+6B74\<close>, new line, \<open>2020 U+5E74 4 U+6708 U+2028\<close>.
\<close>

definition text_separator :: jstring where
  "text_separator = [0x5B66, 0x6B74, 0xA, 0x32, 0x30, 0x32, 0x30, 0x5E74, 0x34, 0x6708,
                     0x2028]"

text \<open>
  A birth date with the age annotation:
  \<open>U+751F U+5E74 U+6708 U+65E5 U+FF1A 1990 U+5E74 5 U+6708 3 U+65E5 U+FF08 U+6E80 34 U+6B73 U+FF09\<close>;
  and the same line without the annotation.
\<close>

definition text_birth_age :: jstring where
  "text_birth_age = [0x751F, 0x5E74, 0x6708, 0x65E5, 0xFF1A, 0x31, 0x39, 0x39, 0x30,
                     0x5E74, 0x35, 0x6708, 0x33, 0x65E5, 0xFF08, 0x6E80, 0x33, 0x34,
                     0x6B73, 0xFF09]"

definition text_birth_only :: jstring where
  "text_birth_only = [0x751F, 0x5E74, 0x6708, 0x65E5, 0xFF1A, 0x31, 0x39, 0x39, 0x30,
                      0x5E74, 0x35, 0x6708, 0x33, 0x65E5]"

text \<open>
  The same birth date and annotation with a space after the colon, before and after each
  parenthesis and around the digits of the age.
\<close>

definition text_birth_spaced :: jstring where
  "text_birth_spaced = [0x751F, 0x5E74, 0x6708, 0x65E5, 0xFF1A, 0x20, 0x31, 0x39, 0x39,
                        0x30, 0x5E74, 0x35, 0x6708, 0x33, 0x65E5, 0x20, 0xFF08, 0x20,
                        0x6E80, 0x20, 0x33, 0x34, 0x20, 0x6B73, 0x20, 0xFF09]"

text \<open>
  Two lines with the label: the first has the date \<open>1990 U+5E74 5 U+6708 3 U+65E5\<close> and no
  annotation, the second has the date \<open>2000 U+5E74 1 U+6708 1 U+65E5\<close> and the annotation
  \<open>U+FF08 U+6E80 20 U+6B73 U+FF09\<close>.
\<close>

definition text_two_labels :: jstring where
  "text_two_labels = [0x751F, 0x5E74, 0x6708, 0x65E5, 0xFF1A, 0x31, 0x39, 0x39, 0x30,
                      0x5E74, 0x35, 0x6708, 0x33, 0x65E5, 0x0A, 0x751F, 0x5E74, 0x6708,
                      0x65E5, 0xFF1A, 0x32, 0x30, 0x30, 0x30, 0x5E74, 0x31, 0x6708, 0x31,
                      0x65E5, 0xFF08, 0x6E80, 0x32, 0x30, 0x6B73, 0xFF09]"

text \<open>
  An education section of two lines followed by the header of the work history and one
  line of it:
  \<open>U+5B66 U+6B74\<close>, \<open>2010 U+5E74 4 U+6708 A U+9AD8 U+6821 U+5165 U+5B66\<close>,
  \<open>2013 U+5E74 3 U+6708 A U+9AD8 U+6821 U+5352 U+696D\<close>, \<open>U+8077 U+6B74\<close>,
  \<open>2013 U+5E74 4 U+6708 B U+793E U+5165 U+793E\<close>, each followed by a new line.
\<close>

definition text_two_entries :: jstring where
  "text_two_entries = [0x5B66, 0x6B74, 0xA, 0x32, 0x30, 0x31, 0x30, 0x5E74, 0x34,
                       0x6708, 0x20, 0x41, 0x9AD8, 0x6821, 0x5165, 0x5B66, 0xA, 0x32,
                       0x30, 0x31, 0x33, 0x5E74, 0x33, 0x6708, 0x20, 0x41, 0x9AD8,
                       0x6821, 0x5352, 0x696D, 0xA, 0x8077, 0x6B74, 0xA, 0x32, 0x30,
                       0x31, 0x33, 0x5E74, 0x34, 0x6708, 0x20, 0x42, 0x793E, 0x5165,
                       0x793E, 0xA]"

text \<open>
  An education section of one line followed by the header U+8DA3 U+5473 and a line below
  it, with no work history in between:
  \<open>U+5B66 U+6B74\<close>, \<open>2010 U+5E74 4 U+6708 A U+9AD8 U+6821 U+5165 U+5B66\<close>, \<open>U+8DA3 U+5473\<close>,
  \<open>2015 U+5E74 4 U+6708 U+8AAD U+66F8\<close>, each followed by a new line.
\<close>

definition text_other_header :: jstring where
  "text_other_header = [0x5B66, 0x6B74, 0xA, 0x32, 0x30, 0x31, 0x30, 0x5E74, 0x34,
                        0x6708, 0x20, 0x41, 0x9AD8, 0x6821, 0x5165, 0x5B66, 0xA, 0x8DA3,
                        0x5473, 0xA, 0x32, 0x30, 0x31, 0x35, 0x5E74, 0x34, 0x6708, 0x20,
                        0x8AAD, 0x66F8, 0xA]"

text \<open>
  The same two lines and the header U+8DA3 U+5473 between them, after the header of the
  work history:
  \<open>U+8077 U+6B74\<close>, \<open>2013 U+5E74 4 U+6708 B U+793E U+5165 U+793E\<close>, \<open>U+8DA3 U+5473\<close>,
  \<open>2015 U+5E74 4 U+6708 U+8AAD U+66F8\<close>, each followed by a new line.
\<close>

definition text_work_other_header :: jstring where
  "text_work_other_header = [0x8077, 0x6B74, 0xA, 0x32, 0x30, 0x31, 0x33, 0x5E74, 0x34,
                             0x6708, 0x20, 0x42, 0x793E, 0x5165, 0x793E, 0xA, 0x8DA3,
                             0x5473, 0xA, 0x32, 0x30, 0x31, 0x35, 0x5E74, 0x34, 0x6708,
                             0x20, 0x8AAD, 0x66F8, 0xA]"

text \<open>
  An address line with a postal code:
  \<open>U+73FE U+4F4F U+6240 U+FF1A U+3012 123-4567\<close>, a space, \<open>U+6771 U+4EAC U+90FD\<close>, new line;
  and a text with the postal code on the line before the address line:
  \<open>U+3012 123-4567\<close>, new line, \<open>U+73FE U+4F4F U+6240 U+FF1A U+6771 U+4EAC\<close>.
\<close>

definition text_address :: jstring where
  "text_address = [0x73FE, 0x4F4F, 0x6240, 0xFF1A, 0x3012, 0x31, 0x32, 0x33, 0x2D, 0x34,
                   0x35, 0x36, 0x37, 0x20, 0x6771, 0x4EAC, 0x90FD, 0xA]"

definition text_postal_outside :: jstring where
  "text_postal_outside = [0x3012, 0x31, 0x32, 0x33, 0x2D, 0x34, 0x35, 0x36, 0x37, 0xA,
                          0x73FE, 0x4F4F, 0x6240, 0xFF1A, 0x6771, 0x4EAC]"

text \<open>
  A record with four licenses and no other field, and a template sheet in which the cell
  I17, the cell of the health condition, holds a text.
\<close>

definition data_four_licenses :: ExtractedResumeData where
  "data_four_licenses =
     emptyData\<lparr>licenses := Some
       [\<lparr>year = [0x32, 0x30, 0x31, 0x30], month = [0x34], description = [0x41]\<rparr>,
        \<lparr>year = [0x32, 0x30, 0x31, 0x31], month = [0x35], description = [0x42]\<rparr>,
        \<lparr>year = [0x32, 0x30, 0x31, 0x32], month = [0x36], description = [0x43]\<rparr>,
        \<lparr>year = [0x32, 0x30, 0x31, 0x33], month = [0x37], description = [0x44]\<rparr>]\<rparr>"

definition sheet_template :: worksheet where
  "sheet_template = [(''I'', 17) \<mapsto> TextValue [0x54]]"

section \<open>Properties of the extractor\<close>

subsection \<open>The guard\<close>

text \<open>
  Claim C1.  \<open>extractResumeData\<close> raises its error exactly when the OCR result is missing
  or its page list is missing or empty; for every OCR result with at least one page it
  returns a record (the model is a total function, so it terminates), whatever the text
  of the pages is.
\<close>

theorem extractResumeData_raises_iff:
  "(extractResumeData ocrResult = Inl NoValidOCRResult \<longleftrightarrow>
      ocrResult = None \<or> (\<exists>r. ocrResult = Some r \<and> (pages r = None \<or> pages r = Some []))) \<and>
   ((\<exists>d. extractResumeData ocrResult = Inr d) \<longleftrightarrow>
      (\<exists>r p ps. ocrResult = Some r \<and> pages r = Some (p # ps))) \<and>
   (\<forall>e. extractResumeData ocrResult = Inl e \<longrightarrow> e = NoValidOCRResult)"
  by (cases ocrResult)
     (auto simp: extractResumeData_def neq_Nil_conv split: option.splits if_splits)

theorem extractResumeData_raises_iff_witness:
  "extractResumeData (Some \<lparr>pages = Some []\<rparr>) = Inl NoValidOCRResult \<and>
   extractResumeData (Some \<lparr>pages = None\<rparr>) = Inl NoValidOCRResult \<and>
   extractResumeData None = Inl NoValidOCRResult \<and>
   (\<exists>d. extractResumeData (Some \<lparr>pages = Some [\<lparr>index = 0, markdown = None\<rparr>]\<rparr>) = Inr d)"
  using extractResumeData_raises_iff [of "Some \<lparr>pages = Some []\<rparr>"]
    extractResumeData_raises_iff [of "Some \<lparr>pages = None\<rparr>"]
    extractResumeData_raises_iff [of None]
    extractResumeData_raises_iff [of "Some \<lparr>pages = Some [\<lparr>index = 0, markdown = None\<rparr>]\<rparr>"]
  by simp

subsection \<open>Fields that no step assigns\<close>

definition alternativesAbsent :: "ExtractedResumeData \<Rightarrow> bool" where
  "alternativesAbsent d \<longleftrightarrow>
     alternativeAddress d = None \<and> alternativeAddressKana d = None \<and>
     alternativePhoneNumber d = None"

lemma alternativesAbsent_steps:
  assumes "alternativesAbsent d"
  shows "alternativesAbsent (stepName t d)" "alternativesAbsent (stepNameKana t d)"
    "alternativesAbsent (stepBirthDate t d)" "alternativesAbsent (stepGender t d)"
    "alternativesAbsent (stepAddress t d)" "alternativesAbsent (stepPhone t d)"
    "alternativesAbsent (stepEmail t d)" "alternativesAbsent (stepEducation t d)"
    "alternativesAbsent (stepWork t d)" "alternativesAbsent (stepLicenses t d)"
    "alternativesAbsent (stepHealth t d)" "alternativesAbsent (stepHobbies t d)"
    "alternativesAbsent (stepStation t d)" "alternativesAbsent (stepDependents t d)"
    "alternativesAbsent (stepSpouse t d)" "alternativesAbsent (stepSupportingSpouse t d)"
  using assms
  by (simp_all add: alternativesAbsent_def stepName_def stepNameKana_def stepBirthDate_def
      stepGender_def stepAddress_def stepPhone_def stepEmail_def stepEducation_def
      stepWork_def stepLicenses_def stepHealth_def stepHobbies_def stepStation_def
      stepDependents_def stepSpouse_def stepSupportingSpouse_def Let_def
      split: option.splits)

lemma alternativesAbsent_extractFromText: "alternativesAbsent (extractFromText t)"
proof -
  have "alternativesAbsent emptyData"
    by (simp add: alternativesAbsent_def emptyData_def)
  then show ?thesis
    unfolding extractFromText_def comp_def
    by (intro alternativesAbsent_steps)
qed

text \<open>
  Claim C9.  In every record that \<open>extractResumeData\<close> returns the fields
  \<open>alternativeAddress\<close>, \<open>alternativeAddressKana\<close> and \<open>alternativePhoneNumber\<close> are absent:
  the interface declares them and no extraction step assigns them.
\<close>

theorem alternatives_never_assigned:
  "extractResumeData ocrResult = Inr d \<Longrightarrow>
     alternativeAddress d = None \<and> alternativeAddressKana d = None \<and>
     alternativePhoneNumber d = None"
  using alternativesAbsent_extractFromText
  by (auto simp: extractResumeData_def alternativesAbsent_def split: option.splits if_splits)

theorem alternatives_never_assigned_witness:
  "extractResumeData (Some \<lparr>pages = Some [\<lparr>index = 0, markdown = Some [0x6C0F, 0x540D, 0x41]\<rparr>]\<rparr>)
     = Inr (extractFromText [0x6C0F, 0x540D, 0x41]) \<and>
   alternativeAddress (extractFromText [0x6C0F, 0x540D, 0x41]) = None \<and>
   alternativeAddressKana (extractFromText [0x6C0F, 0x540D, 0x41]) = None \<and>
   alternativePhoneNumber (extractFromText [0x6C0F, 0x540D, 0x41]) = None"
proof -
  have run: "extractResumeData
      (Some \<lparr>pages = Some [\<lparr>index = 0, markdown = Some [0x6C0F, 0x540D, 0x41]\<rparr>]\<rparr>)
    = Inr (extractFromText [0x6C0F, 0x540D, 0x41])"
    by (simp add: extractResumeData_def allTextOf_def)
  from alternatives_never_assigned [OF run] run show ?thesis by simp
qed

section \<open>Properties of the history store\<close>

lemma getStoredOCRResults_cases:
  "getStoredOCRResults ls =
     (if getItemThrows ls then ArrayValue []
      else case item ls of
             Some (JsonArray xs) \<Rightarrow> ArrayValue xs
           | Some (JsonString n) \<Rightarrow> StringValue n
           | Some JsonNotIterable \<Rightarrow> NotIterable
           | _ \<Rightarrow> ArrayValue [])"
  by (simp add: getStoredOCRResults_def getItem_def JSON_parse_def
      split: option.splits raw.splits)

lemma readList_read: "\<not> getItemThrows ls \<Longrightarrow> readList ls = storedList ls"
  by (simp add: readList_def spread_def getStoredOCRResults_cases storedList_def
      split: option.splits raw.splits)

lemma readList_spread: "spread (getStoredOCRResults ls) = Inr xs \<Longrightarrow> readList ls = xs"
  by (simp add: readList_def)

lemma saveOCRResult_spread:
  "spread (getStoredOCRResults ls) = Inr xs \<Longrightarrow>
     saveOCRResult uniqueId now res fname ls =
       Inr (\<lparr>entry_id = uniqueId, timestamp = now, filename = fname, result = res\<rparr>,
            if setItemThrows ls then ls
            else ls\<lparr>item := Some (JsonArray (take 10 (Entry \<lparr>entry_id = uniqueId, timestamp = now, filename = fname, result = res\<rparr> # xs)))\<rparr>)"
  by (simp add: saveOCRResult_def setItem_def Let_def)

lemma saveOCRResult_not_iterable:
  "spread (getStoredOCRResults ls) = Inl e \<Longrightarrow>
     saveOCRResult uniqueId now res fname ls = Inl e"
  by (simp add: saveOCRResult_def Let_def)

lemma spread_Inl:
  "spread (getStoredOCRResults ls) = Inl e \<longleftrightarrow>
     e = TypeError \<and> getItem ls = Inr (Some JsonNotIterable)"
  by (auto simp: spread_def getStoredOCRResults_cases getItem_def
      split: option.splits raw.splits parsed.splits)

lemma filter_other_ids_eq:
  "filter_other_ids i xs =
     (if NullElement \<in> set xs then Inl TypeError
      else Inr (filter (\<lambda>x. elementId x \<noteq> Some i) xs))"
  by (induction xs) (auto simp: idOf_def elementId_def split: element.splits)

lemma length_filter_same: "length (filter P xs) = length xs \<longleftrightarrow> (\<forall>x\<in>set xs. P x)"
proof (induction xs)
  case Nil
  then show ?case by simp
next
  case (Cons x xs)
  have le: "length (filter P xs) \<le> length xs" by simp
  show ?case
  proof (cases "P x")
    case True
    with Cons show ?thesis by simp
  next
    case False
    with le show ?thesis by (auto simp del: length_filter_le)
  qed
qed

lemma deleteStoredOCRResult_array:
  assumes "getStoredOCRResults ls = ArrayValue xs"
  shows "deleteStoredOCRResult i ls =
     (if NullElement \<in> set xs \<or> (\<forall>x\<in>set xs. elementId x \<noteq> Some i) \<or> setItemThrows ls
      then (False, ls)
      else (True, ls\<lparr>item := Some (JsonArray (filter (\<lambda>x. elementId x \<noteq> Some i) xs))\<rparr>))"
proof -
  have "length xs = length (filter (\<lambda>x. elementId x \<noteq> Some i) xs)
        \<longleftrightarrow> (\<forall>x\<in>set xs. elementId x \<noteq> Some i)"
    using length_filter_same [of "\<lambda>x. elementId x \<noteq> Some i" xs]
    by (simp add: eq_commute)
  with assms show ?thesis
    by (simp add: deleteStoredOCRResult_def filter_other_ids_eq setItem_def)
qed

lemma deleteStoredOCRResult_no_array:
  assumes "\<forall>xs. getStoredOCRResults ls \<noteq> ArrayValue xs"
  shows "deleteStoredOCRResult i ls = (False, ls)"
  using assms by (cases "getStoredOCRResults ls") (simp_all add: deleteStoredOCRResult_def)

lemma read_no_array:
  assumes "\<forall>xs. getStoredOCRResults ls \<noteq> ArrayValue xs"
  shows "\<not> getItemThrows ls \<and> (\<forall>x\<in>set (storedList ls). x = Foreign None)"
  using assms
  by (auto simp: getStoredOCRResults_cases storedList_def
      split: if_splits option.splits raw.splits)

lemma read_array:
  assumes "getStoredOCRResults ls = ArrayValue xs"
  shows "getItemThrows ls \<and> xs = [] \<or> \<not> getItemThrows ls \<and> xs = storedList ls"
  using assms
  by (auto simp: getStoredOCRResults_cases storedList_def
      split: if_splits option.splits raw.splits)

text \<open>
  Claim C4, as stated, fails: when \<open>setItem\<close> throws, the \<open>catch\<close> only logs and the stored
  list stays as it was, so after the call the new entry is not in it.  Here the storage
  holds no list and refuses the write: the call returns the new record, the storage is
  as it was, and the stored list is still empty.
\<close>

theorem saveOCRResult_write_fails_counterexample:
  "saveOCRResult [0x61] 1 \<lparr>pages = None\<rparr> [0x66]
      \<lparr>item = None, getItemThrows = False, setItemThrows = True\<rparr>
     = Inr (\<lparr>entry_id = [0x61], timestamp = 1, filename = [0x66], result = \<lparr>pages = None\<rparr>\<rparr>,
            \<lparr>item = None, getItemThrows = False, setItemThrows = True\<rparr>) \<and>
   storedList \<lparr>item = None, getItemThrows = False, setItemThrows = True\<rparr> = []"
  by (simp add: saveOCRResult_def spread_def getStoredOCRResults_cases setItem_def
      storedList_def Let_def)

text \<open>
  Claim C4, amended.  After a call to \<open>saveOCRResult\<close> that returns and in which \<open>setItem\<close>
  succeeds, the stored list is the new entry followed by the entries read before, cut to
  10: it has at most 10 entries, the new entry is at index 0, the entries read before
  follow in their order, and when 10 entries were read the last of them (the oldest) is
  the one that is dropped; if the list read was a list of records ordered by descending
  time stamp and the clock has not gone back, the stored list is so ordered too.  The
  entries read are what the spread of the value read gave, and when the read succeeds
  they are the stored list.  When \<open>setItem\<close> throws, the storage is unchanged.
\<close>

theorem saveOCRResult_bounded:
  assumes "saveOCRResult uniqueId now res fname ls = Inr (n, ls')"
  shows "spread (getStoredOCRResults ls) = Inr (readList ls) \<and>
         (\<not> setItemThrows ls \<longrightarrow>
            storedList ls' = take 10 (Entry n # readList ls) \<and>
            length (storedList ls') \<le> 10 \<and>
            storedList ls' ! 0 = Entry n \<and>
            (length (readList ls) = 10 \<longrightarrow>
               storedList ls' = Entry n # butlast (readList ls)) \<and>
            (\<forall>rs. readList ls = map Entry rs \<and>
                  sorted_wrt (\<lambda>a b. timestamp b \<le> timestamp a) rs \<and>
                  (\<forall>r\<in>set rs. timestamp r \<le> now) \<longrightarrow>
               storedList ls' = map Entry (take 10 (n # rs)) \<and>
               sorted_wrt (\<lambda>a b. timestamp b \<le> timestamp a) (take 10 (n # rs)))) \<and>
         (\<not> getItemThrows ls \<longrightarrow> readList ls = storedList ls) \<and>
         (setItemThrows ls \<longrightarrow> ls' = ls)"
proof -
  let ?old = "readList ls"
  have rd: "spread (getStoredOCRResults ls) = Inr ?old"
  proof (cases "spread (getStoredOCRResults ls)")
    case (Inl e)
    with assms show ?thesis by (simp add: saveOCRResult_not_iterable)
  next
    case (Inr xs)
    then show ?thesis by (simp add: readList_def)
  qed
  note run = assms [unfolded saveOCRResult_spread [OF rd]]
  have n: "n = \<lparr>entry_id = uniqueId, timestamp = now, filename = fname, result = res\<rparr>"
    using run by simp
  have fail: "setItemThrows ls \<longrightarrow> ls' = ls"
    using run by auto
  have ok: "storedList ls' = take 10 (Entry n # ?old)" if "\<not> setItemThrows ls"
    using run that n by (auto simp: storedList_def)
  have ten: "take 10 (Entry n # ?old) = Entry n # take 9 ?old"
    by (simp add: take_Cons')
  have evict: "take 9 ?old = butlast ?old" if "length ?old = 10"
    using that by (simp add: butlast_conv_take)
  have srt: "take 10 (Entry n # ?old) = map Entry (take 10 (n # rs)) \<and>
      sorted_wrt (\<lambda>a b. timestamp b \<le> timestamp a) (take 10 (n # rs))"
    if "?old = map Entry rs" "sorted_wrt (\<lambda>a b. timestamp b \<le> timestamp a) rs"
      and "\<forall>r\<in>set rs. timestamp r \<le> now" for rs
  proof -
    have "sorted_wrt (\<lambda>a b. timestamp b \<le> timestamp a) (take 9 rs)"
      using that(2) by (rule sorted_wrt_take)
    moreover have "\<forall>r\<in>set (take 9 rs). timestamp r \<le> timestamp n"
      using that(3) n by (auto dest: in_set_takeD)
    moreover have "take 10 (n # rs) = n # take 9 rs"
      by (simp add: take_Cons')
    ultimately show ?thesis
      using that(1) by (simp add: take_map take_Cons')
  qed
  show ?thesis
    using rd fail ok ten evict srt readList_read [of ls] by simp
qed

theorem saveOCRResult_bounded_witness:
  "saveOCRResult [0x61] 7 \<lparr>pages = None\<rparr> [0x66]
     \<lparr>item = Some (JsonArray
         (replicate 10 (Entry \<lparr>entry_id = [0x62], timestamp = 3, filename = [], result = \<lparr>pages = None\<rparr>\<rparr>))),
      getItemThrows = False, setItemThrows = False\<rparr>
   = Inr (\<lparr>entry_id = [0x61], timestamp = 7, filename = [0x66], result = \<lparr>pages = None\<rparr>\<rparr>,
      \<lparr>item = Some (JsonArray
         (Entry \<lparr>entry_id = [0x61], timestamp = 7, filename = [0x66], result = \<lparr>pages = None\<rparr>\<rparr> #
          replicate 9 (Entry \<lparr>entry_id = [0x62], timestamp = 3, filename = [], result = \<lparr>pages = None\<rparr>\<rparr>))),
       getItemThrows = False, setItemThrows = False\<rparr>) \<and>
   length (storedList
     \<lparr>item = Some (JsonArray
         (Entry \<lparr>entry_id = [0x61], timestamp = 7, filename = [0x66], result = \<lparr>pages = None\<rparr>\<rparr> #
          replicate 9 (Entry \<lparr>entry_id = [0x62], timestamp = 3, filename = [], result = \<lparr>pages = None\<rparr>\<rparr>))),
       getItemThrows = False, setItemThrows = False\<rparr>) \<le> 10"
proof -
  have run: "saveOCRResult [0x61] 7 \<lparr>pages = None\<rparr> [0x66]
     \<lparr>item = Some (JsonArray
         (replicate 10 (Entry \<lparr>entry_id = [0x62], timestamp = 3, filename = [], result = \<lparr>pages = None\<rparr>\<rparr>))),
      getItemThrows = False, setItemThrows = False\<rparr>
   = Inr (\<lparr>entry_id = [0x61], timestamp = 7, filename = [0x66], result = \<lparr>pages = None\<rparr>\<rparr>,
      \<lparr>item = Some (JsonArray
         (Entry \<lparr>entry_id = [0x61], timestamp = 7, filename = [0x66], result = \<lparr>pages = None\<rparr>\<rparr> #
          replicate 9 (Entry \<lparr>entry_id = [0x62], timestamp = 3, filename = [], result = \<lparr>pages = None\<rparr>\<rparr>))),
       getItemThrows = False, setItemThrows = False\<rparr>)"
    by (simp add: saveOCRResult_def spread_def setItem_def getStoredOCRResults_def getItem_def
        JSON_parse_def Let_def numeral_eq_Suc)
  from saveOCRResult_bounded [OF run] run show ?thesis by simp
qed

text \<open>
  Claim C7.  A failing storage operation never reaches the caller.  When \<open>getItem\<close> throws
  or the stored text does not parse, \<open>getStoredOCRResults\<close> returns the empty list,
  \<open>getStoredOCRResultById\<close> returns \<open>null\<close>, and \<open>saveOCRResult\<close> returns the new record,
  having stored it alone unless \<open>setItem\<close> throws as well; \<open>deleteStoredOCRResult\<close> returns
  \<open>false\<close> and leaves the storage as it was, also when \<open>setItem\<close> throws.  When the call of
  \<open>setItem\<close> that \<open>saveOCRResult\<close> makes with the new list throws, \<open>saveOCRResult\<close> returns the
  new record and leaves the storage as it was.  The only exception that reaches the caller
  of \<open>saveOCRResult\<close> is the \<open>TypeError\<close> of the spread, and it arises exactly when \<open>getItem\<close>
  has succeeded and the stored text has parsed, to a value that is not iterable: no
  storage operation has failed then, and \<open>setItem\<close> is not called.
\<close>

theorem storage_failures_contained:
  "(getItemThrows ls \<or> item ls = Some NotJson \<longrightarrow>
      getStoredOCRResults ls = ArrayValue [] \<and>
      saveOCRResult uniqueId now res fname ls =
        Inr (\<lparr>entry_id = uniqueId, timestamp = now, filename = fname, result = res\<rparr>,
             if setItemThrows ls then ls
             else ls\<lparr>item := Some (JsonArray [Entry \<lparr>entry_id = uniqueId, timestamp = now, filename = fname, result = res\<rparr>])\<rparr>)) \<and>
   (\<forall>existing e.
      spread (getStoredOCRResults ls) = Inr existing \<and>
      setItem ls (take 10 (Entry \<lparr>entry_id = uniqueId, timestamp = now, filename = fname, result = res\<rparr> # existing)) = Inl e \<longrightarrow>
      saveOCRResult uniqueId now res fname ls = Inr (\<lparr>entry_id = uniqueId, timestamp = now, filename = fname, result = res\<rparr>, ls)) \<and>
   (\<forall>e. saveOCRResult uniqueId now res fname ls = Inl e \<longleftrightarrow>
      e = TypeError \<and> getItem ls = Inr (Some JsonNotIterable)) \<and>
   (getItemThrows ls \<or> item ls = Some NotJson \<longrightarrow> getStoredOCRResultById i ls = Inr None) \<and>
   (getItemThrows ls \<or> item ls = Some NotJson \<or> setItemThrows ls \<longrightarrow>
      deleteStoredOCRResult i ls = (False, ls))"
proof -
  have one: "getStoredOCRResults ls = ArrayValue [] \<and>
      saveOCRResult uniqueId now res fname ls =
        Inr (\<lparr>entry_id = uniqueId, timestamp = now, filename = fname, result = res\<rparr>, if setItemThrows ls then ls else ls\<lparr>item := Some (JsonArray [Entry \<lparr>entry_id = uniqueId, timestamp = now, filename = fname, result = res\<rparr>])\<rparr>)"
    if "getItemThrows ls \<or> item ls = Some NotJson"
  proof -
    from that have rd: "getStoredOCRResults ls = ArrayValue []"
      by (auto simp: getStoredOCRResults_cases)
    then have "spread (getStoredOCRResults ls) = Inr []"
      by (simp add: spread_def)
    from saveOCRResult_spread [OF this] rd show ?thesis by simp
  qed
  have two: "saveOCRResult uniqueId now res fname ls = Inr (\<lparr>entry_id = uniqueId, timestamp = now, filename = fname, result = res\<rparr>, ls)"
    if "spread (getStoredOCRResults ls) = Inr existing"
      and "setItem ls (take 10 (Entry \<lparr>entry_id = uniqueId, timestamp = now, filename = fname, result = res\<rparr> # existing)) = Inl e" for existing e
  proof -
    from that(2) have "setItemThrows ls"
      by (simp add: setItem_def split: if_splits)
    with saveOCRResult_spread [OF that(1)] show ?thesis by simp
  qed
  have three: "saveOCRResult uniqueId now res fname ls = Inl e \<longleftrightarrow>
      e = TypeError \<and> getItem ls = Inr (Some JsonNotIterable)" for e
  proof (cases "spread (getStoredOCRResults ls)")
    case (Inl e')
    with saveOCRResult_not_iterable [OF Inl] spread_Inl [of ls e'] show ?thesis by auto
  next
    case (Inr xs)
    then have "getItem ls \<noteq> Inr (Some JsonNotIterable)"
      using spread_Inl [of ls TypeError] by auto
    with saveOCRResult_spread [OF Inr] show ?thesis by simp
  qed
  have four: "getStoredOCRResultById i ls = Inr None"
    if "getItemThrows ls \<or> item ls = Some NotJson"
    using one [OF that] by (simp add: getStoredOCRResultById_def)
  have five: "deleteStoredOCRResult i ls = (False, ls)"
    if "getItemThrows ls \<or> item ls = Some NotJson \<or> setItemThrows ls"
  proof (cases "\<exists>xs. getStoredOCRResults ls = ArrayValue xs")
    case False
    then show ?thesis by (simp add: deleteStoredOCRResult_no_array)
  next
    case True
    then obtain xs where xs: "getStoredOCRResults ls = ArrayValue xs" by blast
    show ?thesis
    proof (cases "setItemThrows ls")
      case True
      then show ?thesis by (simp add: deleteStoredOCRResult_array [OF xs])
    next
      case False
      with that have "getItemThrows ls \<or> item ls = Some NotJson" by simp
      from one [OF this] xs have "xs = []" by simp
      then show ?thesis by (simp add: deleteStoredOCRResult_array [OF xs])
    qed
  qed
  show ?thesis
    by (intro conjI allI impI) (erule one [THEN conjunct1] | erule one [THEN conjunct2]
        | (erule conjE, erule two, assumption) | rule three | erule four | erule five)+
qed

theorem storage_failures_contained_witness:
  "saveOCRResult [0x61] 7 \<lparr>pages = None\<rparr> [0x66]
      \<lparr>item = Some NotJson, getItemThrows = True, setItemThrows = True\<rparr>
     = Inr (\<lparr>entry_id = [0x61], timestamp = 7, filename = [0x66], result = \<lparr>pages = None\<rparr>\<rparr>,
            \<lparr>item = Some NotJson, getItemThrows = True, setItemThrows = True\<rparr>) \<and>
   getStoredOCRResults \<lparr>item = Some NotJson, getItemThrows = True, setItemThrows = True\<rparr>
     = ArrayValue [] \<and>
   saveOCRResult [0x61] 7 \<lparr>pages = None\<rparr> [0x66]
      \<lparr>item = Some NotJson, getItemThrows = False, setItemThrows = False\<rparr>
     = Inr (\<lparr>entry_id = [0x61], timestamp = 7, filename = [0x66], result = \<lparr>pages = None\<rparr>\<rparr>,
            \<lparr>item = Some (JsonArray
               [Entry \<lparr>entry_id = [0x61], timestamp = 7, filename = [0x66], result = \<lparr>pages = None\<rparr>\<rparr>]),
             getItemThrows = False, setItemThrows = False\<rparr>) \<and>
   saveOCRResult [0x61] 7 \<lparr>pages = None\<rparr> [0x66]
      \<lparr>item = Some JsonNotIterable, getItemThrows = False, setItemThrows = True\<rparr>
     = Inl TypeError \<and>
   saveOCRResult [0x61] 7 \<lparr>pages = None\<rparr> [0x66]
      \<lparr>item = Some (JsonArray
         [Entry \<lparr>entry_id = [0x62], timestamp = 3, filename = [], result = \<lparr>pages = None\<rparr>\<rparr>]),
       getItemThrows = False, setItemThrows = True\<rparr>
     = Inr (\<lparr>entry_id = [0x61], timestamp = 7, filename = [0x66], result = \<lparr>pages = None\<rparr>\<rparr>,
            \<lparr>item = Some (JsonArray
               [Entry \<lparr>entry_id = [0x62], timestamp = 3, filename = [], result = \<lparr>pages = None\<rparr>\<rparr>]),
             getItemThrows = False, setItemThrows = True\<rparr>)"
proof -
  have a: "saveOCRResult [0x61] 7 \<lparr>pages = None\<rparr> [0x66]
      \<lparr>item = Some NotJson, getItemThrows = True, setItemThrows = True\<rparr>
     = Inr (\<lparr>entry_id = [0x61], timestamp = 7, filename = [0x66], result = \<lparr>pages = None\<rparr>\<rparr>,
            \<lparr>item = Some NotJson, getItemThrows = True, setItemThrows = True\<rparr>)"
    and b: "getStoredOCRResults \<lparr>item = Some NotJson, getItemThrows = True, setItemThrows = True\<rparr>
     = ArrayValue []"
    using storage_failures_contained [of
      "\<lparr>item = Some NotJson, getItemThrows = True, setItemThrows = True\<rparr>"
      "[0x61]" 7 "\<lparr>pages = None\<rparr>" "[0x66]"]
    by simp_all
  have c: "saveOCRResult [0x61] 7 \<lparr>pages = None\<rparr> [0x66]
      \<lparr>item = Some NotJson, getItemThrows = False, setItemThrows = False\<rparr>
     = Inr (\<lparr>entry_id = [0x61], timestamp = 7, filename = [0x66], result = \<lparr>pages = None\<rparr>\<rparr>,
            \<lparr>item = Some (JsonArray
               [Entry \<lparr>entry_id = [0x61], timestamp = 7, filename = [0x66], result = \<lparr>pages = None\<rparr>\<rparr>]),
             getItemThrows = False, setItemThrows = False\<rparr>)"
    using storage_failures_contained [of
      "\<lparr>item = Some NotJson, getItemThrows = False, setItemThrows = False\<rparr>"
      "[0x61]" 7 "\<lparr>pages = None\<rparr>" "[0x66]"]
    by simp
  have d: "saveOCRResult [0x61] 7 \<lparr>pages = None\<rparr> [0x66]
      \<lparr>item = Some JsonNotIterable, getItemThrows = False, setItemThrows = True\<rparr>
     = Inl TypeError"
    using storage_failures_contained [of
      "\<lparr>item = Some JsonNotIterable, getItemThrows = False, setItemThrows = True\<rparr>"
      "[0x61]" 7 "\<lparr>pages = None\<rparr>" "[0x66]"]
    by (simp add: getItem_def)
  have e: "saveOCRResult [0x61] 7 \<lparr>pages = None\<rparr> [0x66]
      \<lparr>item = Some (JsonArray
         [Entry \<lparr>entry_id = [0x62], timestamp = 3, filename = [], result = \<lparr>pages = None\<rparr>\<rparr>]),
       getItemThrows = False, setItemThrows = True\<rparr>
     = Inr (\<lparr>entry_id = [0x61], timestamp = 7, filename = [0x66], result = \<lparr>pages = None\<rparr>\<rparr>,
            \<lparr>item = Some (JsonArray
               [Entry \<lparr>entry_id = [0x62], timestamp = 3, filename = [], result = \<lparr>pages = None\<rparr>\<rparr>]),
             getItemThrows = False, setItemThrows = True\<rparr>)"
    using storage_failures_contained [of
      "\<lparr>item = Some (JsonArray
         [Entry \<lparr>entry_id = [0x62], timestamp = 3, filename = [], result = \<lparr>pages = None\<rparr>\<rparr>]),
       getItemThrows = False, setItemThrows = True\<rparr>"
      "[0x61]" 7 "\<lparr>pages = None\<rparr>" "[0x66]"]
    by (simp add: getStoredOCRResults_cases spread_def setItem_def)
  from a b c d e show ?thesis by simp
qed

text \<open>
  Claim C10, as stated, fails: the \<open>catch\<close> returns \<open>false\<close> for every exception, also for
  the \<open>TypeError\<close> that the callback of \<open>filter\<close> throws on a \<open>null\<close> element.  Here the stored
  array holds \<open>null\<close> and an entry with the id \<open>b\<close>, and both storage operations succeed:
  \<open>deleteStoredOCRResult\<close> returns \<open>false\<close> and the entry stays.
\<close>

theorem deleteStoredOCRResult_null_element_counterexample:
  "deleteStoredOCRResult [0x62]
     \<lparr>item = Some (JsonArray
        [NullElement,
         Entry \<lparr>entry_id = [0x62], timestamp = 2, filename = [], result = \<lparr>pages = None\<rparr>\<rparr>]),
      getItemThrows = False, setItemThrows = False\<rparr>
   = (False,
      \<lparr>item = Some (JsonArray
        [NullElement,
         Entry \<lparr>entry_id = [0x62], timestamp = 2, filename = [], result = \<lparr>pages = None\<rparr>\<rparr>]),
      getItemThrows = False, setItemThrows = False\<rparr>) \<and>
   storedList
     \<lparr>item = Some (JsonArray
        [NullElement,
         Entry \<lparr>entry_id = [0x62], timestamp = 2, filename = [], result = \<lparr>pages = None\<rparr>\<rparr>]),
      getItemThrows = False, setItemThrows = False\<rparr>
   = [NullElement,
      Entry \<lparr>entry_id = [0x62], timestamp = 2, filename = [], result = \<lparr>pages = None\<rparr>\<rparr>] \<and>
   elementId (Entry \<lparr>entry_id = [0x62], timestamp = 2, filename = [], result = \<lparr>pages = None\<rparr>\<rparr>)
     = Some [0x62]"
  by (simp add: deleteStoredOCRResult_def getStoredOCRResults_def getItem_def JSON_parse_def
      idOf_def storedList_def elementId_def)

text \<open>
  Claim C10, amended.  \<open>deleteStoredOCRResult\<close> returns \<open>true\<close> exactly when the stored list
  has an element with the given id, holds no \<open>null\<close> element, and both storage operations
  succeed.  On \<open>true\<close> the stored list afterwards is the original list without the elements
  of that id, the other elements in their order; on \<open>false\<close> the storage is unchanged.
\<close>

theorem deleteStoredOCRResult_spec:
  assumes "deleteStoredOCRResult i ls = (b, ls')"
  shows "(b \<longleftrightarrow> (\<exists>x\<in>set (storedList ls). elementId x = Some i) \<and>
                NullElement \<notin> set (storedList ls) \<and>
                \<not> getItemThrows ls \<and> \<not> setItemThrows ls) \<and>
         (b \<longrightarrow> storedList ls' = filter (\<lambda>x. elementId x \<noteq> Some i) (storedList ls)) \<and>
         (\<not> b \<longrightarrow> ls' = ls)"
proof (cases "\<exists>xs. getStoredOCRResults ls = ArrayValue xs")
  case False
  then have none: "\<forall>xs. getStoredOCRResults ls \<noteq> ArrayValue xs" by simp
  from deleteStoredOCRResult_no_array [OF none] assms have "b = False" "ls' = ls"
    by simp_all
  moreover from read_no_array [OF none]
  have "\<not> (\<exists>x\<in>set (storedList ls). elementId x = Some i)"
    by (auto simp: elementId_def)
  ultimately show ?thesis by simp
next
  case True
  then obtain xs where xs: "getStoredOCRResults ls = ArrayValue xs" by blast
  note del = assms [unfolded deleteStoredOCRResult_array [OF xs]]
  from read_array [OF xs] show ?thesis
  proof
    assume "getItemThrows ls \<and> xs = []"
    with del show ?thesis by simp
  next
    assume rd: "\<not> getItemThrows ls \<and> xs = storedList ls"
    show ?thesis
    proof (cases "NullElement \<in> set xs \<or> (\<forall>x\<in>set xs. elementId x \<noteq> Some i) \<or>
        setItemThrows ls")
      case True
      with del have "b = False" "ls' = ls"
        by simp_all
      with True rd show ?thesis by blast
    next
      case no: False
      with del have b: "b = True"
        and ls': "ls' = ls\<lparr>item := Some (JsonArray
                    (filter (\<lambda>x. elementId x \<noteq> Some i) xs))\<rparr>"
        by simp_all
      have "storedList ls' = filter (\<lambda>x. elementId x \<noteq> Some i) xs"
        unfolding ls' by (simp add: storedList_def)
      with b no rd show ?thesis by blast
    qed
  qed
qed

theorem deleteStoredOCRResult_spec_witness:
  "deleteStoredOCRResult [0x62]
     \<lparr>item = Some (JsonArray
        [Entry \<lparr>entry_id = [0x61], timestamp = 3, filename = [], result = \<lparr>pages = None\<rparr>\<rparr>,
         Entry \<lparr>entry_id = [0x62], timestamp = 2, filename = [], result = \<lparr>pages = None\<rparr>\<rparr>,
         Entry \<lparr>entry_id = [0x63], timestamp = 1, filename = [], result = \<lparr>pages = None\<rparr>\<rparr>]),
      getItemThrows = False, setItemThrows = False\<rparr>
   = (True,
      \<lparr>item = Some (JsonArray
        [Entry \<lparr>entry_id = [0x61], timestamp = 3, filename = [], result = \<lparr>pages = None\<rparr>\<rparr>,
         Entry \<lparr>entry_id = [0x63], timestamp = 1, filename = [], result = \<lparr>pages = None\<rparr>\<rparr>]),
      getItemThrows = False, setItemThrows = False\<rparr>) \<and>
   storedList
     \<lparr>item = Some (JsonArray
        [Entry \<lparr>entry_id = [0x61], timestamp = 3, filename = [], result = \<lparr>pages = None\<rparr>\<rparr>,
         Entry \<lparr>entry_id = [0x63], timestamp = 1, filename = [], result = \<lparr>pages = None\<rparr>\<rparr>]),
      getItemThrows = False, setItemThrows = False\<rparr>
   = [Entry \<lparr>entry_id = [0x61], timestamp = 3, filename = [], result = \<lparr>pages = None\<rparr>\<rparr>,
      Entry \<lparr>entry_id = [0x63], timestamp = 1, filename = [], result = \<lparr>pages = None\<rparr>\<rparr>]"
proof -
  have run: "deleteStoredOCRResult [0x62]
     \<lparr>item = Some (JsonArray
        [Entry \<lparr>entry_id = [0x61], timestamp = 3, filename = [], result = \<lparr>pages = None\<rparr>\<rparr>,
         Entry \<lparr>entry_id = [0x62], timestamp = 2, filename = [], result = \<lparr>pages = None\<rparr>\<rparr>,
         Entry \<lparr>entry_id = [0x63], timestamp = 1, filename = [], result = \<lparr>pages = None\<rparr>\<rparr>]),
      getItemThrows = False, setItemThrows = False\<rparr>
   = (True,
      \<lparr>item = Some (JsonArray
        [Entry \<lparr>entry_id = [0x61], timestamp = 3, filename = [], result = \<lparr>pages = None\<rparr>\<rparr>,
         Entry \<lparr>entry_id = [0x63], timestamp = 1, filename = [], result = \<lparr>pages = None\<rparr>\<rparr>]),
      getItemThrows = False, setItemThrows = False\<rparr>)"
    by (simp add: deleteStoredOCRResult_def setItem_def getStoredOCRResults_def getItem_def
        JSON_parse_def idOf_def)
  from deleteStoredOCRResult_spec [OF run] run show ?thesis
    by (simp add: storedList_def elementId_def)
qed

section \<open>Properties of the template filler\<close>

lemma writeRows_frame:
  "c \<notin> {(col, r). col \<in> {c1, c2, c3} \<and> start \<le> r \<and> r < start + length es} \<Longrightarrow>
     writeRows c1 c2 c3 start es ws c = ws c"
proof (induction es arbitrary: start ws)
  case Nil
  then show ?case by simp
next
  case (Cons e es)
  have "c \<notin> {(col, r). col \<in> {c1, c2, c3} \<and> Suc start \<le> r \<and> r < Suc start + length es}"
    using Cons.prems by auto
  then have "writeRows c1 c2 c3 (Suc start) es
       (ws((c1, start) \<mapsto> TextValue (year e), (c2, start) \<mapsto> TextValue (month e),
           (c3, start) \<mapsto> TextValue (description e))) c
     = (ws((c1, start) \<mapsto> TextValue (year e), (c2, start) \<mapsto> TextValue (month e),
           (c3, start) \<mapsto> TextValue (description e))) c"
    by (rule Cons.IH)
  moreover have "c \<noteq> (c1, start)" "c \<noteq> (c2, start)" "c \<noteq> (c3, start)"
    using Cons.prems by auto
  ultimately show ?case by simp
qed

lemma fillRows_frame:
  "c \<notin> rowCells c1 c2 c3 start l \<Longrightarrow> fillRows c1 c2 c3 start l ws c = ws c"
  by (cases l) (simp_all add: fillRows_def rowCells_def writeRows_frame)

lemma fillRows_nothing:
  "l = None \<or> l = Some [] \<Longrightarrow> fillRows c1 c2 c3 start l ws = ws"
  by (auto simp: fillRows_def)

lemma fillField_frame: "c \<notin> mappedTarget f d \<Longrightarrow> fillField f d ws c = ws c"
  by (cases f)
     (simp_all add: fillName_def fillNameKana_def fillBirthDate_def fillGender_def
        fillAddressKana_def fillPostalCode_def fillAddress_def fillPhoneNumber_def
        fillEmail_def fillEducation_def fillWork_def fillLicenses_def
        fillHealthCondition_def fillHobbies_def fillNearestStation_def fillDependents_def
        fillHasSpouse_def fillSupportingSpouse_def fillRows_frame Let_def
        split: option.splits jsnumber.splits)

lemma fillField_absent: "absent f d \<Longrightarrow> fillField f d ws = ws"
  by (cases f)
     (simp_all add: fillName_def fillNameKana_def fillBirthDate_def fillGender_def
        fillAddressKana_def fillPostalCode_def fillAddress_def fillPhoneNumber_def
        fillEmail_def fillEducation_def fillWork_def fillLicenses_def
        fillHealthCondition_def fillHobbies_def fillNearestStation_def fillDependents_def
        fillHasSpouse_def fillSupportingSpouse_def fillRows_nothing truthy_def)

lemma fold_fillField_frame:
  "\<forall>f\<in>set fs. c \<in> mappedTarget f d \<longrightarrow> absent f d \<Longrightarrow>
     fold (\<lambda>f. fillField f d) fs ws c = ws c"
proof (induction fs arbitrary: ws)
  case Nil
  then show ?case by simp
next
  case (Cons f fs)
  have "fillField f d ws c = ws c"
  proof (cases "c \<in> mappedTarget f d")
    case True
    with Cons.prems have "absent f d" by simp
    then show ?thesis by (simp add: fillField_absent)
  next
    case False
    then show ?thesis by (rule fillField_frame)
  qed
  moreover have "fold (\<lambda>f. fillField f d) fs (fillField f d ws) c = fillField f d ws c"
    using Cons.prems by (intro Cons.IH) simp
  ultimately show ?case by simp
qed

text \<open>
  Claim C5, as stated, fails: a cell can be left alone by the block of its own field and
  still be written, because the regions of the lists have no lower end.  The fourth row
  of the licenses is row 17, so with four licenses and no health condition the cell I17,
  the cell of the health condition, loses the value of the template and holds the year
  of the fourth license.
\<close>

theorem licenses_overwrite_health_cell_counterexample:
  "healthCondition data_four_licenses = None \<and>
   generateResumeExcel data_four_licenses [''Sheet1'' \<mapsto> sheet_template]
     = Inr [''Sheet1'' \<mapsto> fillSheet data_four_licenses sheet_template] \<and>
   sheet_template (''I'', 17) = Some (TextValue [0x54]) \<and>
   fillSheet data_four_licenses sheet_template (''I'', 17)
     = Some (TextValue [0x32, 0x30, 0x31, 0x33])"
  by (simp add: generateResumeExcel_def data_four_licenses_def sheet_template_def
      fillSheet_def blockOrder_def emptyData_def fillName_def fillNameKana_def
      fillBirthDate_def fillGender_def fillAddressKana_def fillPostalCode_def
      fillAddress_def fillPhoneNumber_def fillEmail_def fillEducation_def fillWork_def
      fillLicenses_def fillHealthCondition_def fillHobbies_def fillNearestStation_def
      fillDependents_def fillHasSpouse_def fillSupportingSpouse_def fillRows_def truthy_def)

text \<open>
  Claim C5, amended.  On a workbook with a sheet \<open>Sheet1\<close>, \<open>generateResumeExcel\<close> returns the
  workbook with that sheet filled, and for every record: a block whose field is absent
  writes nothing; the block of a field writes no cell outside the cells mapped to the
  field (one cell for a scalar field; for education the columns A to C from row 14, for
  work history the columns A to C from row 20, for licenses the columns I to K from row
  14, one row per entry, with no last row); the region of a list is empty, and its block
  writes nothing, when the list is absent or empty; and a cell keeps the value of the
  template whenever every field mapped to it is absent, where a cell below the first row
  of a list region is mapped to that list as well as to its own field.
\<close>

theorem generateResumeExcel_frame:
  assumes "wb ''Sheet1'' = Some ws"
  shows "generateResumeExcel d wb = Inr (wb(''Sheet1'' \<mapsto> fillSheet d ws)) \<and>
         (\<forall>f w. absent f d \<longrightarrow> fillField f d w = w) \<and>
         (\<forall>f w c. c \<notin> mappedTarget f d \<longrightarrow> fillField f d w c = w c) \<and>
         (\<forall>w. educationHistory d = None \<or> educationHistory d = Some [] \<longrightarrow>
            mappedTarget EducationHistory d = {} \<and> fillField EducationHistory d w = w) \<and>
         (\<forall>w. workHistory d = None \<or> workHistory d = Some [] \<longrightarrow>
            mappedTarget WorkHistory d = {} \<and> fillField WorkHistory d w = w) \<and>
         (\<forall>w. licenses d = None \<or> licenses d = Some [] \<longrightarrow>
            mappedTarget Licenses d = {} \<and> fillField Licenses d w = w) \<and>
         (\<forall>c. (\<forall>f. c \<in> mappedTarget f d \<longrightarrow> absent f d) \<longrightarrow> fillSheet d ws c = ws c)"
proof -
  have run: "generateResumeExcel d wb = Inr (wb(''Sheet1'' \<mapsto> fillSheet d ws))"
    using assms by (simp add: generateResumeExcel_def)
  have lists: "l = None \<or> l = Some [] \<Longrightarrow> rowCells c1 c2 c3 start l = {}" for c1 c2 c3 start l
    by (auto simp: rowCells_def)
  have all: "(\<forall>f. c \<in> mappedTarget f d \<longrightarrow> absent f d) \<Longrightarrow> fillSheet d ws c = ws c" for c
    unfolding fillSheet_def by (rule fold_fillField_frame) simp
  show ?thesis
    using run all
    by (simp add: fillField_absent fillField_frame lists fillEducation_def fillWork_def
        fillLicenses_def fillRows_nothing)
qed

theorem generateResumeExcel_frame_witness:
  "generateResumeExcel
      (emptyData\<lparr>name := Some [0x41],
          licenses := Some [\<lparr>year = [0x32], month = [0x33], description = [0x58]\<rparr>]\<rparr>)
      [''Sheet1'' \<mapsto> [(''B'', 2::nat) \<mapsto> TextValue [0x54], (''I'', 14) \<mapsto> TextValue [0x55]]]
     = Inr ([''Sheet1'' \<mapsto> [(''B'', 2::nat) \<mapsto> TextValue [0x54], (''I'', 14) \<mapsto> TextValue [0x55]]]
         (''Sheet1'' \<mapsto> fillSheet
            (emptyData\<lparr>name := Some [0x41],
          licenses := Some [\<lparr>year = [0x32], month = [0x33], description = [0x58]\<rparr>]\<rparr>)
            [(''B'', 2::nat) \<mapsto> TextValue [0x54], (''I'', 14) \<mapsto> TextValue [0x55]])) \<and>
   fillSheet
      (emptyData\<lparr>name := Some [0x41],
          licenses := Some [\<lparr>year = [0x32], month = [0x33], description = [0x58]\<rparr>]\<rparr>)
      [(''B'', 2::nat) \<mapsto> TextValue [0x54], (''I'', 14) \<mapsto> TextValue [0x55]] (''B'', 2) = Some (TextValue [0x54]) \<and>
   fillSheet
      (emptyData\<lparr>name := Some [0x41],
          licenses := Some [\<lparr>year = [0x32], month = [0x33], description = [0x58]\<rparr>]\<rparr>)
      [(''B'', 2::nat) \<mapsto> TextValue [0x54], (''I'', 14) \<mapsto> TextValue [0x55]] (''B'', 3) = Some (TextValue [0x41]) \<and>
   fillSheet
      (emptyData\<lparr>name := Some [0x41],
          licenses := Some [\<lparr>year = [0x32], month = [0x33], description = [0x58]\<rparr>]\<rparr>)
      [(''B'', 2::nat) \<mapsto> TextValue [0x54], (''I'', 14) \<mapsto> TextValue [0x55]] (''I'', 14) = Some (TextValue [0x32])"
proof -
  let ?d = "(emptyData\<lparr>name := Some [0x41],
          licenses := Some [\<lparr>year = [0x32], month = [0x33], description = [0x58]\<rparr>]\<rparr>)"
  let ?ws = "[(''B'', 2::nat) \<mapsto> TextValue [0x54], (''I'', 14) \<mapsto> TextValue [0x55]]"
  have sheet: "[''Sheet1'' \<mapsto> ?ws] ''Sheet1'' = Some ?ws" by simp
  have free: "\<forall>f. (''B'', 2) \<in> mappedTarget f ?d \<longrightarrow> absent f ?d"
  proof
    fix f show "(''B'', 2) \<in> mappedTarget f ?d \<longrightarrow> absent f ?d"
      by (cases f) (simp_all add: emptyData_def rowCells_def)
  qed
  have b3: "fillSheet ?d ?ws (''B'', 3) = Some (TextValue [0x41])"
    by (simp add: fillSheet_def blockOrder_def emptyData_def fillName_def fillNameKana_def
        fillBirthDate_def fillGender_def fillAddressKana_def fillPostalCode_def
        fillAddress_def fillPhoneNumber_def fillEmail_def fillEducation_def fillWork_def
        fillLicenses_def fillHealthCondition_def fillHobbies_def fillNearestStation_def
        fillDependents_def fillHasSpouse_def fillSupportingSpouse_def fillRows_def truthy_def)
  have i14: "fillSheet ?d ?ws (''I'', 14) = Some (TextValue [0x32])"
    by (simp add: fillSheet_def blockOrder_def emptyData_def fillName_def fillNameKana_def
        fillBirthDate_def fillGender_def fillAddressKana_def fillPostalCode_def
        fillAddress_def fillPhoneNumber_def fillEmail_def fillEducation_def fillWork_def
        fillLicenses_def fillHealthCondition_def fillHobbies_def fillNearestStation_def
        fillDependents_def fillHasSpouse_def fillSupportingSpouse_def fillRows_def truthy_def)
  from generateResumeExcel_frame [of "[''Sheet1'' \<mapsto> ?ws]" ?ws ?d, OF sheet] free b3 i14 show ?thesis by simp
qed

section \<open>Facts about the matcher\<close>

subsection \<open>The set of matches\<close>

lemma star_greedy_mem:
  "s' \<in> set (star_greedy P s) \<longleftrightarrow> (\<exists>w. s = w @ s' \<and> (\<forall>x\<in>set w. P x))"
proof (induction s)
  case Nil
  then show ?case by auto
next
  case (Cons c cs)
  show ?case
  proof (cases "P c")
    case True
    with Cons show ?thesis
      by (auto simp: Cons_eq_append_conv)
  next
    case False
    then show ?thesis
      by (auto simp: Cons_eq_append_conv)
  qed
qed

lemma star_lazy_mem:
  "s' \<in> set (star_lazy P s) \<longleftrightarrow> (\<exists>w. s = w @ s' \<and> (\<forall>x\<in>set w. P x))"
proof (induction s)
  case Nil
  then show ?case by auto
next
  case (Cons c cs)
  show ?case
  proof (cases "P c")
    case True
    with Cons show ?thesis
      by (auto simp: Cons_eq_append_conv)
  next
    case False
    then show ?thesis
      by (auto simp: Cons_eq_append_conv)
  qed
qed

lemma mem_Str:
  "(s', c') \<in> set (ms (Str w) (s, c)) \<longleftrightarrow> s = w @ s' \<and> c' = c"
  by (auto simp: prefix_def)

lemma mem_One:
  "(s', c') \<in> set (ms (One a) (s, c)) \<longleftrightarrow> (\<exists>x. s = x # s' \<and> atom_ok a x) \<and> c' = c"
  by (auto split: list.splits)

lemma mem_Star:
  "(s', c') \<in> set (ms (Star a) (s, c)) \<longleftrightarrow>
     (\<exists>w. s = w @ s' \<and> (\<forall>x\<in>set w. atom_ok a x)) \<and> c' = c"
  by (auto simp: star_greedy_mem)

lemma mem_LazyStar:
  "(s', c') \<in> set (ms (LazyStar a) (s, c)) \<longleftrightarrow>
     (\<exists>w. s = w @ s' \<and> (\<forall>x\<in>set w. atom_ok a x)) \<and> c' = c"
  by (auto simp: star_lazy_mem)

lemma mem_Plus:
  "(s', c') \<in> set (ms (Plus a) (s, c)) \<longleftrightarrow>
     (\<exists>w. w \<noteq> [] \<and> s = w @ s' \<and> (\<forall>x\<in>set w. atom_ok a x)) \<and> c' = c"
proof (cases s)
  case Nil
  then show ?thesis by auto
next
  case (Cons x xs)
  show ?thesis
  proof (cases "atom_ok a x")
    case True
    have "(\<exists>w. xs = w @ s' \<and> (\<forall>y\<in>set w. atom_ok a y)) \<longleftrightarrow>
          (\<exists>w. w \<noteq> [] \<and> x # xs = w @ s' \<and> (\<forall>y\<in>set w. atom_ok a y))"
      using True by (auto simp: Cons_eq_append_conv)
    with Cons True show ?thesis by (auto simp: star_greedy_mem)
  next
    case False
    have "\<not> (\<exists>w. w \<noteq> [] \<and> x # xs = w @ s' \<and> (\<forall>y\<in>set w. atom_ok a y))"
      using False by (auto simp: Cons_eq_append_conv)
    with Cons False show ?thesis by auto
  qed
qed

lemma mem_Times:
  "(s', c') \<in> set (ms (Times n a) (s, c)) \<longleftrightarrow>
     (\<exists>w. length w = n \<and> s = w @ s' \<and> (\<forall>x\<in>set w. atom_ok a x)) \<and> c' = c"
proof -
  have "n \<le> length s \<and> list_all (atom_ok a) (take n s) \<and> s' = drop n s \<longleftrightarrow>
        (\<exists>w. length w = n \<and> s = w @ s' \<and> (\<forall>x\<in>set w. atom_ok a x))"
  proof
    assume "n \<le> length s \<and> list_all (atom_ok a) (take n s) \<and> s' = drop n s"
    then have "length (take n s) = n \<and> s = take n s @ s' \<and> (\<forall>x\<in>set (take n s). atom_ok a x)"
      by (simp add: list_all_iff)
    then show "\<exists>w. length w = n \<and> s = w @ s' \<and> (\<forall>x\<in>set w. atom_ok a x)" by blast
  next
    assume "\<exists>w. length w = n \<and> s = w @ s' \<and> (\<forall>x\<in>set w. atom_ok a x)"
    then show "n \<le> length s \<and> list_all (atom_ok a) (take n s) \<and> s' = drop n s"
      by (auto simp: list_all_iff)
  qed
  then show ?thesis by auto
qed

lemma mem_Opt:
  "(s', c') \<in> set (ms (Opt a) (s, c)) \<longleftrightarrow>
     (s' = s \<or> (\<exists>x. s = x # s' \<and> atom_ok a x)) \<and> c' = c"
  by (auto split: list.splits)

lemma mem_Seq:
  "(s', c') \<in> set (ms (Seq r1 r2) (s, c)) \<longleftrightarrow>
     (\<exists>s1 c1. (s1, c1) \<in> set (ms r1 (s, c)) \<and> (s', c') \<in> set (ms r2 (s1, c1)))"
  by auto

lemma mem_Alt:
  "(s', c') \<in> set (ms (Alt r1 r2) (s, c)) \<longleftrightarrow>
     (s', c') \<in> set (ms r1 (s, c)) \<or> (s', c') \<in> set (ms r2 (s, c))"
  by auto

lemma mem_Eos:
  "(s', c') \<in> set (ms Eos (s, c)) \<longleftrightarrow> s = [] \<and> s' = [] \<and> c' = c"
  by auto

lemma mem_Grp:
  "(s', c') \<in> set (ms (Grp i r) (s, c)) \<longleftrightarrow>
     (\<exists>w c0. s = w @ s' \<and> (s', c0) \<in> set (ms r (s, c)) \<and> c' = c0(i \<mapsto> w))"
proof
  assume "(s', c') \<in> set (ms (Grp i r) (s, c))"
  then obtain c0 where in0: "(s', c0) \<in> set (ms r (s, c))"
    and c': "c' = c0(i \<mapsto> take (length s - length s') s)"
    by auto
  from in0 have "suffix s' s" by (rule ms_suffix)
  then obtain w where "s = w @ s'" by (auto simp: suffix_def)
  with in0 c' show "\<exists>w c0. s = w @ s' \<and> (s', c0) \<in> set (ms r (s, c)) \<and> c' = c0(i \<mapsto> w)"
    by auto
next
  assume "\<exists>w c0. s = w @ s' \<and> (s', c0) \<in> set (ms r (s, c)) \<and> c' = c0(i \<mapsto> w)"
  then obtain w c0 where "s = w @ s'" "(s', c0) \<in> set (ms r (s, c))" "c' = c0(i \<mapsto> w)"
    by blast
  then show "(s', c') \<in> set (ms (Grp i r) (s, c))"
    by (auto intro!: image_eqI [where x = "(s', c0)"])
qed

lemmas ms_mem = mem_Str mem_One mem_Star mem_LazyStar mem_Plus mem_Times mem_Opt mem_Seq
  mem_Alt mem_Eos mem_Grp

text \<open>
  From here on the equations of the matcher are unfolded only on request; \<open>ms_mem\<close>
  describes the set of matches.
\<close>

declare ms.simps [simp del]

subsection \<open>Where a search matches\<close>

lemma first_at_SomeD:
  assumes "first_at r s = Some m"
  shows "pre_text m = [] \<and> s = matched m @ post_text m \<and>
         (\<exists>rest. ms r (s, Map.empty) = (post_text m, groups m) # rest)"
proof -
  from assms obtain s' c rest where
    hd: "ms r (s, Map.empty) = (s', c) # rest" and
    m: "m = \<lparr>pre_text = [], matched = take (length s - length s') s, post_text = s', groups = c\<rparr>"
    by (auto simp: first_at_def split: list.splits)
  with first_at_parts [OF assms] show ?thesis by simp
qed

lemma first_at_None_iff: "first_at r s = None \<longleftrightarrow> ms r (s, Map.empty) = []"
  by (auto simp: first_at_def split: list.splits)

lemma search_SomeD:
  "search r s = Some m \<Longrightarrow>
     s = pre_text m @ matched m @ post_text m \<and>
     (\<exists>rest. ms r (matched m @ post_text m, Map.empty) = (post_text m, groups m) # rest)"
proof (induction s arbitrary: m)
  case Nil
  then show ?case using first_at_SomeD [of r "[]" m] by auto
next
  case (Cons x xs)
  show ?case
  proof (cases "first_at r (x # xs)")
    case None
    with Cons.prems obtain m' where
      m': "search r xs = Some m'" "m = m'\<lparr>pre_text := x # pre_text m'\<rparr>"
      by auto
    with Cons.IH [OF m'(1)] show ?thesis by simp
  next
    case (Some m')
    with Cons.prems have "m = m'" by simp
    with Some first_at_SomeD [of r "x # xs" m] show ?thesis by auto
  qed
qed

lemma search_None_iff:
  "search r s = None \<longleftrightarrow> (\<forall>u. suffix u s \<longrightarrow> ms r (u, Map.empty) = [])"
proof (induction s)
  case Nil
  then show ?case by (simp add: first_at_None_iff)
next
  case (Cons x xs)
  have "search r (x # xs) = None \<longleftrightarrow> first_at r (x # xs) = None \<and> search r xs = None"
    by (auto split: option.splits)
  also have "\<dots> \<longleftrightarrow> ms r (x # xs, Map.empty) = [] \<and>
      (\<forall>u. suffix u xs \<longrightarrow> ms r (u, Map.empty) = [])"
    using Cons.IH by (simp add: first_at_None_iff)
  also have "\<dots> \<longleftrightarrow> (\<forall>u. suffix u (x # xs) \<longrightarrow> ms r (u, Map.empty) = [])"
    by (auto simp: suffix_Cons)
  finally show ?case .
qed

lemma search_at_start:
  "ms r (s, Map.empty) \<noteq> [] \<Longrightarrow> search r s = first_at r s"
  by (cases s) (auto simp: first_at_None_iff split: option.splits)

text \<open>The search, too, is unfolded only on request; \<open>re_eval\<close> evaluates it on a given text.\<close>

declare search.simps [simp del]

lemmas re_eval = ms.simps search.simps first_at_def truthy_group_def is_space_def is_digit_def
  is_dot_def

subsection \<open>Which step assigns which field\<close>

lemma step_frames:
  "birthDate (stepName t d) = birthDate d"
  "age (stepName t d) = age d"
  "address (stepName t d) = address d"
  "postalCode (stepName t d) = postalCode d"
  "educationHistory (stepName t d) = educationHistory d"
  "workHistory (stepName t d) = workHistory d"
  "licenses (stepName t d) = licenses d"
  "birthDate (stepNameKana t d) = birthDate d"
  "age (stepNameKana t d) = age d"
  "address (stepNameKana t d) = address d"
  "postalCode (stepNameKana t d) = postalCode d"
  "educationHistory (stepNameKana t d) = educationHistory d"
  "workHistory (stepNameKana t d) = workHistory d"
  "licenses (stepNameKana t d) = licenses d"
  "address (stepBirthDate t d) = address d"
  "postalCode (stepBirthDate t d) = postalCode d"
  "educationHistory (stepBirthDate t d) = educationHistory d"
  "workHistory (stepBirthDate t d) = workHistory d"
  "licenses (stepBirthDate t d) = licenses d"
  "birthDate (stepGender t d) = birthDate d"
  "age (stepGender t d) = age d"
  "address (stepGender t d) = address d"
  "postalCode (stepGender t d) = postalCode d"
  "educationHistory (stepGender t d) = educationHistory d"
  "workHistory (stepGender t d) = workHistory d"
  "licenses (stepGender t d) = licenses d"
  "birthDate (stepAddress t d) = birthDate d"
  "age (stepAddress t d) = age d"
  "educationHistory (stepAddress t d) = educationHistory d"
  "workHistory (stepAddress t d) = workHistory d"
  "licenses (stepAddress t d) = licenses d"
  "birthDate (stepPhone t d) = birthDate d"
  "age (stepPhone t d) = age d"
  "address (stepPhone t d) = address d"
  "postalCode (stepPhone t d) = postalCode d"
  "educationHistory (stepPhone t d) = educationHistory d"
  "workHistory (stepPhone t d) = workHistory d"
  "licenses (stepPhone t d) = licenses d"
  "birthDate (stepEmail t d) = birthDate d"
  "age (stepEmail t d) = age d"
  "address (stepEmail t d) = address d"
  "postalCode (stepEmail t d) = postalCode d"
  "educationHistory (stepEmail t d) = educationHistory d"
  "workHistory (stepEmail t d) = workHistory d"
  "licenses (stepEmail t d) = licenses d"
  "birthDate (stepEducation t d) = birthDate d"
  "age (stepEducation t d) = age d"
  "address (stepEducation t d) = address d"
  "postalCode (stepEducation t d) = postalCode d"
  "workHistory (stepEducation t d) = workHistory d"
  "licenses (stepEducation t d) = licenses d"
  "birthDate (stepWork t d) = birthDate d"
  "age (stepWork t d) = age d"
  "address (stepWork t d) = address d"
  "postalCode (stepWork t d) = postalCode d"
  "educationHistory (stepWork t d) = educationHistory d"
  "licenses (stepWork t d) = licenses d"
  "birthDate (stepLicenses t d) = birthDate d"
  "age (stepLicenses t d) = age d"
  "address (stepLicenses t d) = address d"
  "postalCode (stepLicenses t d) = postalCode d"
  "educationHistory (stepLicenses t d) = educationHistory d"
  "workHistory (stepLicenses t d) = workHistory d"
  "birthDate (stepHealth t d) = birthDate d"
  "age (stepHealth t d) = age d"
  "address (stepHealth t d) = address d"
  "postalCode (stepHealth t d) = postalCode d"
  "educationHistory (stepHealth t d) = educationHistory d"
  "workHistory (stepHealth t d) = workHistory d"
  "licenses (stepHealth t d) = licenses d"
  "birthDate (stepHobbies t d) = birthDate d"
  "age (stepHobbies t d) = age d"
  "address (stepHobbies t d) = address d"
  "postalCode (stepHobbies t d) = postalCode d"
  "educationHistory (stepHobbies t d) = educationHistory d"
  "workHistory (stepHobbies t d) = workHistory d"
  "licenses (stepHobbies t d) = licenses d"
  "birthDate (stepStation t d) = birthDate d"
  "age (stepStation t d) = age d"
  "address (stepStation t d) = address d"
  "postalCode (stepStation t d) = postalCode d"
  "educationHistory (stepStation t d) = educationHistory d"
  "workHistory (stepStation t d) = workHistory d"
  "licenses (stepStation t d) = licenses d"
  "birthDate (stepDependents t d) = birthDate d"
  "age (stepDependents t d) = age d"
  "address (stepDependents t d) = address d"
  "postalCode (stepDependents t d) = postalCode d"
  "educationHistory (stepDependents t d) = educationHistory d"
  "workHistory (stepDependents t d) = workHistory d"
  "licenses (stepDependents t d) = licenses d"
  "birthDate (stepSpouse t d) = birthDate d"
  "age (stepSpouse t d) = age d"
  "address (stepSpouse t d) = address d"
  "postalCode (stepSpouse t d) = postalCode d"
  "educationHistory (stepSpouse t d) = educationHistory d"
  "workHistory (stepSpouse t d) = workHistory d"
  "licenses (stepSpouse t d) = licenses d"
  "birthDate (stepSupportingSpouse t d) = birthDate d"
  "age (stepSupportingSpouse t d) = age d"
  "address (stepSupportingSpouse t d) = address d"
  "postalCode (stepSupportingSpouse t d) = postalCode d"
  "educationHistory (stepSupportingSpouse t d) = educationHistory d"
  "workHistory (stepSupportingSpouse t d) = workHistory d"
  "licenses (stepSupportingSpouse t d) = licenses d"
  by (simp_all add: stepName_def stepNameKana_def stepBirthDate_def stepGender_def stepAddress_def stepPhone_def stepEmail_def stepEducation_def stepWork_def stepLicenses_def stepHealth_def stepHobbies_def stepStation_def stepDependents_def stepSpouse_def stepSupportingSpouse_def Let_def split: option.splits)

lemma extractFromText_birthDate:
  "birthDate (extractFromText t) = map_option trim (truthy_group (search birthDateRe t) 1)"
  by (simp add: extractFromText_def step_frames stepBirthDate_def emptyData_def Let_def
      split: option.splits)

lemma extractFromText_age:
  "age (extractFromText t) =
     (case truthy_group (search birthDateRe t) 1 of
        None \<Rightarrow> None
      | Some g \<Rightarrow> map_option parseInt10 (truthy_group (search ageRe t) 1))"
  by (simp add: extractFromText_def step_frames stepBirthDate_def emptyData_def Let_def
      split: option.splits)

lemma extractFromText_address:
  "address (extractFromText t) = map_option trim (truthy_group (search addressRe t) 1)"
  by (simp add: extractFromText_def step_frames stepAddress_def emptyData_def Let_def
      split: option.splits)

lemma extractFromText_postalCode:
  "postalCode (extractFromText t) =
     (case truthy_group (search addressRe t) 1 of
        None \<Rightarrow> None
      | Some g \<Rightarrow> truthy_group (search postalCodeRe g) 1)"
  by (simp add: extractFromText_def step_frames stepAddress_def emptyData_def Let_def
      split: option.splits)

lemma extractFromText_educationHistory:
  "educationHistory (extractFromText t) =
     (case truthy_group (search educationSectionRe t) 1 of
        None \<Rightarrow> None
      | Some g \<Rightarrow> entriesOf g)"
  by (simp add: extractFromText_def step_frames stepEducation_def emptyData_def
      split: option.splits)

lemma extractFromText_workHistory:
  "workHistory (extractFromText t) =
     (case truthy_group (search workSectionRe t) 1 of
        None \<Rightarrow> None
      | Some g \<Rightarrow> entriesOf g)"
  by (simp add: extractFromText_def step_frames stepWork_def emptyData_def
      split: option.splits)

lemma extractFromText_licenses:
  "licenses (extractFromText t) =
     (case truthy_group (search licenseSectionRe t) 1 of
        None \<Rightarrow> None
      | Some g \<Rightarrow> entriesOf g)"
  by (simp add: extractFromText_def step_frames stepLicenses_def emptyData_def
      split: option.splits)

lemma extractResumeData_pages:
  "extractResumeData (Some \<lparr>pages = Some ps\<rparr>) = Inr d \<longleftrightarrow>
     ps \<noteq> [] \<and> d = extractFromText (allTextOf ps)"
  by (auto simp: extractResumeData_def)

subsection \<open>Captures are parts of the input\<close>

lemma sublist_of_suffix:
  assumes "sublist g u" "suffix u s"
  shows "sublist g s"
proof -
  from assms(1) obtain ps ss where "u = ps @ g @ ss" by (auto simp: sublist_def)
  moreover from assms(2) obtain zs where "s = zs @ u" by (auto simp: suffix_def)
  ultimately have "s = (zs @ ps) @ g @ ss" by simp
  then show ?thesis unfolding sublist_def by blast
qed

lemma ms_caps_sublist:
  "(s', c') \<in> set (ms r (s, c)) \<Longrightarrow> c' i = Some g \<Longrightarrow> c i = Some g \<or> sublist g s"
proof (induction r arbitrary: s c s' c')
  case (Seq r1 r2)
  from Seq.prems(1) obtain s1 c1 where
    one: "(s1, c1) \<in> set (ms r1 (s, c))" and two: "(s', c') \<in> set (ms r2 (s1, c1))"
    by (auto simp: mem_Seq)
  from Seq.IH(2) [OF two Seq.prems(2)] show ?case
  proof
    assume "c1 i = Some g"
    with Seq.IH(1) [OF one] show ?thesis .
  next
    assume "sublist g s1"
    moreover from one have "suffix s1 s" by (rule ms_suffix)
    ultimately show ?thesis
      by (blast intro: sublist_of_suffix)
  qed
next
  case (Alt r1 r2)
  from Alt.prems(1) have "(s', c') \<in> set (ms r1 (s, c)) \<or> (s', c') \<in> set (ms r2 (s, c))"
    by (simp add: mem_Alt)
  then show ?case
    using Alt.IH Alt.prems(2) by blast
next
  case (Grp j r)
  from Grp.prems(1) obtain w c0 where
    s: "s = w @ s'" and in0: "(s', c0) \<in> set (ms r (s, c))" and c': "c' = c0(j \<mapsto> w)"
    by (auto simp: mem_Grp)
  show ?case
  proof (cases "i = j")
    case True
    with c' Grp.prems(2) have "g = w" by simp
    with s show ?thesis by simp
  next
    case False
    with c' Grp.prems(2) have "c0 i = Some g" by simp
    with Grp.IH [OF in0] show ?thesis .
  qed
qed (auto simp: ms_mem)

lemma search_groups_sublist:
  assumes "search r s = Some m" "groups m i = Some g"
  shows "sublist g s"
proof -
  from search_SomeD [OF assms(1)] obtain rest where
    s: "s = pre_text m @ matched m @ post_text m" and
    hd: "ms r (matched m @ post_text m, Map.empty) = (post_text m, groups m) # rest"
    by blast
  from hd have "(post_text m, groups m) \<in> set (ms r (matched m @ post_text m, Map.empty))"
    by simp
  from ms_caps_sublist [OF this assms(2)] have "sublist g (matched m @ post_text m)"
    by simp
  moreover have "suffix (matched m @ post_text m) s"
    using s by (simp add: suffix_def)
  ultimately show ?thesis by (rule sublist_of_suffix)
qed

subsection \<open>The address and the postal code\<close>

lemma trim_keeps_inside:
  assumes "\<not> is_space x" "\<not> is_space y"
  shows "trim (a @ x # mid @ y # b) =
           dropWhile is_space a @ x # mid @ y # rev (dropWhile is_space (rev b))"
proof -
  have "dropWhile is_space (a @ x # mid @ y # b) = dropWhile is_space a @ x # mid @ y # b"
    using assms(1) by (simp add: dropWhile_append3)
  moreover have "dropWhile is_space (rev b @ y # rev mid @ x # rev (dropWhile is_space a))
      = dropWhile is_space (rev b) @ y # rev mid @ x # rev (dropWhile is_space a)"
    using assms(2) by (simp add: dropWhile_append3)
  ultimately show ?thesis by (simp add: trim_def)
qed

lemma is_digit_not_space: "is_digit x \<Longrightarrow> \<not> is_space x"
  by (auto simp: is_digit_def is_space_def)

lemma postalCodeRe_sound:
  assumes "truthy_group (search postalCodeRe g) 1 = Some p"
  shows "\<exists>a w d3 d4 b. g = a @ [0x3012] @ w @ p @ b \<and> (\<forall>x\<in>set w. is_space x) \<and>
           p = d3 @ [0x2D] @ d4 \<and> length d3 = 3 \<and> length d4 = 4 \<and>
           (\<forall>x\<in>set d3. is_digit x) \<and> (\<forall>x\<in>set d4. is_digit x)"
proof -
  from assms obtain m where m: "search postalCodeRe g = Some m" and p: "groups m 1 = Some p"
    by (auto simp: truthy_group_def split: option.splits if_splits)
  from search_SomeD [OF m] obtain rest where
    g: "g = pre_text m @ matched m @ post_text m" and
    hd: "ms postalCodeRe (matched m @ post_text m, Map.empty) = (post_text m, groups m) # rest"
    by blast
  from hd have "(post_text m, groups m) \<in> set (ms postalCodeRe (matched m @ post_text m, Map.empty))"
    by simp
  then obtain w d3 d4 where
    mt: "matched m @ post_text m = [0x3012] @ w @ d3 @ [0x2D] @ d4 @ post_text m" and
    w: "\<forall>x\<in>set w. is_space x" and
    d: "length d3 = 3" "length d4 = 4" "\<forall>x\<in>set d3. is_digit x" "\<forall>x\<in>set d4. is_digit x" and
    c: "groups m = [1 \<mapsto> d3 @ [0x2D] @ d4]"
    unfolding postalCodeRe_def by (auto simp: ms_mem)
  from c p have "p = d3 @ [0x2D] @ d4" by simp
  with g mt w d show ?thesis by (metis append.assoc)
qed

text \<open>
  Claim C6.  \<open>postalCode\<close> is set only when \<open>address\<close> is set.  A postal code that is set was
  found inside the captured address text \<open>g\<close> (a part of the input text, and the text
  whose trimmed form is the address), as the mark U+3012, white space, three digits, a
  hyphen and four digits; the stored address still contains the mark, the white space and
  the postal code.  A postal code that stands in the text outside the address line is not
  found: the last conjunct is such a text.
\<close>

theorem postalCode_nested:
  assumes "extractResumeData (Some \<lparr>pages = Some ps\<rparr>) = Inr d"
  shows "(postalCode d \<noteq> None \<longrightarrow> address d \<noteq> None) \<and>
         (\<forall>p. postalCode d = Some p \<longrightarrow>
            (\<exists>g a w d3 d4 b.
               truthy_group (search addressRe (allTextOf ps)) 1 = Some g \<and>
               (\<exists>pre post. allTextOf ps = pre @ g @ post) \<and>
               address d = Some (trim g) \<and>
               g = a @ [0x3012] @ w @ p @ b \<and> (\<forall>x\<in>set w. is_space x) \<and>
               p = d3 @ [0x2D] @ d4 \<and> length d3 = 3 \<and> length d4 = 4 \<and>
               (\<forall>x\<in>set d3. is_digit x) \<and> (\<forall>x\<in>set d4. is_digit x) \<and>
               (\<exists>a' b'. address d = Some (a' @ [0x3012] @ w @ p @ b')))) \<and>
         postalCode (extractFromText text_postal_outside) = None"
proof -
  let ?t = "allTextOf ps"
  from assms have d: "d = extractFromText ?t"
    by (simp add: extractResumeData_pages)
  have only: "postalCode d \<noteq> None \<longrightarrow> address d \<noteq> None"
    unfolding d by (simp add: extractFromText_postalCode extractFromText_address
        split: option.splits)
  have inside: "\<exists>g a w d3 d4 b.
               truthy_group (search addressRe ?t) 1 = Some g \<and>
               (\<exists>pre post. ?t = pre @ g @ post) \<and>
               address d = Some (trim g) \<and>
               g = a @ [0x3012] @ w @ p @ b \<and> (\<forall>x\<in>set w. is_space x) \<and>
               p = d3 @ [0x2D] @ d4 \<and> length d3 = 3 \<and> length d4 = 4 \<and>
               (\<forall>x\<in>set d3. is_digit x) \<and> (\<forall>x\<in>set d4. is_digit x) \<and>
               (\<exists>a' b'. address d = Some (a' @ [0x3012] @ w @ p @ b'))"
    if "postalCode d = Some p" for p
  proof -
    from that obtain g where g: "truthy_group (search addressRe ?t) 1 = Some g"
      and pc: "truthy_group (search postalCodeRe g) 1 = Some p"
      unfolding d by (auto simp: extractFromText_postalCode split: option.splits)
    have addr: "address d = Some (trim g)"
      unfolding d using g by (simp add: extractFromText_address)
    from g obtain m where m: "search addressRe ?t = Some m" and gm: "groups m 1 = Some g"
      by (auto simp: truthy_group_def split: option.splits if_splits)
    from search_groups_sublist [OF m gm] have part: "\<exists>pre post. ?t = pre @ g @ post"
      by (simp add: sublist_def)
    from postalCodeRe_sound [OF pc] obtain a w d3 d4 b where
      gg: "g = a @ [0x3012] @ w @ p @ b" and w: "\<forall>x\<in>set w. is_space x" and
      p: "p = d3 @ [0x2D] @ d4" and l: "length d3 = 3" "length d4 = 4" and
      dg: "\<forall>x\<in>set d3. is_digit x" "\<forall>x\<in>set d4. is_digit x"
      by blast
    from l(2) obtain d4' y where d4: "d4 = d4' @ [y]"
      by (cases d4 rule: rev_cases) auto
    with dg(2) have y: "\<not> is_space y" by (simp add: is_digit_not_space)
    have mark: "\<not> is_space 0x3012" by (simp add: is_space_def)
    have "g = a @ 0x3012 # (w @ d3 @ [0x2D] @ d4') @ y # b"
      using gg p d4 by simp
    then have "trim g = dropWhile is_space a @ 0x3012 # (w @ d3 @ [0x2D] @ d4') @ y #
        rev (dropWhile is_space (rev b))"
      using trim_keeps_inside [OF mark y, of a "w @ d3 @ [0x2D] @ d4'" b] by simp
    then have "trim g = dropWhile is_space a @ [0x3012] @ w @ p @ rev (dropWhile is_space (rev b))"
      using p d4 by simp
    with addr have "address d = Some (dropWhile is_space a @ [0x3012] @ w @ p @
        rev (dropWhile is_space (rev b)))" by simp
    then have "\<exists>a' b'. address d = Some (a' @ [0x3012] @ w @ p @ b')" by blast
    with g part addr gg w p l dg show ?thesis by blast
  qed
  have raw: "postalCode (extractFromText text_postal_outside) = None"
    by (simp add: extractFromText_postalCode text_postal_outside_def addressRe_def
        postalCodeRe_def re_eval)
  from only inside raw show ?thesis by blast
qed

theorem postalCode_nested_witness:
  "extractResumeData (Some \<lparr>pages = Some [\<lparr>index = 0, markdown = Some text_address\<rparr>]\<rparr>)
     = Inr (extractFromText text_address) \<and>
   postalCode (extractFromText text_address) = Some [0x31, 0x32, 0x33, 0x2D, 0x34, 0x35, 0x36, 0x37] \<and>
   address (extractFromText text_address)
     = Some [0x3012, 0x31, 0x32, 0x33, 0x2D, 0x34, 0x35, 0x36, 0x37, 0x20, 0x6771,
             0x4EAC, 0x90FD] \<and>
   address (extractFromText text_address) \<noteq> None"
proof -
  have run: "extractResumeData (Some \<lparr>pages = Some [\<lparr>index = 0, markdown = Some text_address\<rparr>]\<rparr>)
     = Inr (extractFromText text_address)"
    by (simp add: extractResumeData_def allTextOf_def)
  have pc: "postalCode (extractFromText text_address) = Some [0x31, 0x32, 0x33, 0x2D, 0x34, 0x35, 0x36, 0x37]"
    by (simp add: extractFromText_postalCode text_address_def addressRe_def postalCodeRe_def
        re_eval)
  have ad: "address (extractFromText text_address)
     = Some [0x3012, 0x31, 0x32, 0x33, 0x2D, 0x34, 0x35, 0x36, 0x37, 0x20, 0x6771,
             0x4EAC, 0x90FD]"
    by (simp add: extractFromText_address text_address_def addressRe_def re_eval trim_def)
  from postalCode_nested [OF run] pc
  have "address (extractFromText text_address) \<noteq> None"
    by simp
  with run pc ad show ?thesis by simp
qed

subsection \<open>Building a match\<close>

lemma mem_StrI: "(s', c) \<in> set (ms (Str w) (w @ s', c))"
  by (simp add: mem_Str)

lemma mem_OneI: "atom_ok a x \<Longrightarrow> (s', c) \<in> set (ms (One a) (x # s', c))"
  by (simp add: mem_One)

lemma mem_StarI: "\<forall>x\<in>set w. atom_ok a x \<Longrightarrow> (s', c) \<in> set (ms (Star a) (w @ s', c))"
  by (auto simp: mem_Star)

lemma mem_PlusI:
  "w \<noteq> [] \<Longrightarrow> \<forall>x\<in>set w. atom_ok a x \<Longrightarrow> (s', c) \<in> set (ms (Plus a) (w @ s', c))"
  by (auto simp: mem_Plus)

lemma mem_SeqI:
  "(s1, c1) \<in> set (ms r1 (s, c)) \<Longrightarrow> (s', c') \<in> set (ms r2 (s1, c1)) \<Longrightarrow>
     (s', c') \<in> set (ms (Seq r1 r2) (s, c))"
  by (auto simp: mem_Seq)

lemma mem_GrpI:
  "(s', c0) \<in> set (ms r (w @ s', c)) \<Longrightarrow> (s', c0(i \<mapsto> w)) \<in> set (ms (Grp i r) (w @ s', c))"
  by (auto simp: mem_Grp)

subsection \<open>The global match\<close>

lemma match_all_None: "search r s = None \<Longrightarrow> match_all r s = []"
  by (subst match_all.simps) simp

lemma match_all_Some:
  "search r s = Some m \<Longrightarrow> matched m \<noteq> [] \<Longrightarrow>
     match_all r s = matched m # match_all r (post_text m)"
  by (subst match_all.simps) simp

lemma match_all_sound:
  "e \<in> set (match_all r s) \<Longrightarrow> \<exists>u m. suffix u s \<and> search r u = Some m \<and> matched m = e"
proof (induction r s rule: match_all.induct)
  case (1 r s)
  show ?case
  proof (cases "search r s")
    case None
    with "1.prems" show ?thesis by (simp add: match_all_None)
  next
    case (Some m)
    from search_parts [OF Some] have s: "s = pre_text m @ matched m @ post_text m" .
    then have suf: "suffix (post_text m) s"
      by (metis append.assoc suffixI)
    show ?thesis
    proof (cases "matched m = []")
      case False
      with Some "1.prems" have "e = matched m \<or> e \<in> set (match_all r (post_text m))"
        by (simp add: match_all_Some)
      then show ?thesis
      proof
        assume "e = matched m"
        with Some show ?thesis by blast
      next
        assume "e \<in> set (match_all r (post_text m))"
        from "1.IH"(2) [OF Some False this] obtain u m' where
          u: "suffix u (post_text m)" and m': "search r u = Some m'" "matched m' = e"
          by blast
        from u suf have "suffix u s" by (rule suffix_order.trans)
        with m' show ?thesis by blast
      qed
    next
      case True
      show ?thesis
      proof (cases "post_text m")
        case Nil
        with Some True "1.prems" have "e = matched m"
          by (subst (asm) match_all.simps) simp
        with Some show ?thesis by blast
      next
        case (Cons x xs)
        with Some True "1.prems" have "e = matched m \<or> e \<in> set (match_all r xs)"
          by (subst (asm) match_all.simps) auto
        then show ?thesis
        proof
          assume "e = matched m"
          with Some show ?thesis by blast
        next
          assume "e \<in> set (match_all r xs)"
          from "1.IH"(1) [OF Some True Cons this] obtain u m' where
            u: "suffix u xs" and m': "search r u = Some m'" "matched m' = e"
            by blast
          have "suffix xs s"
            using suf Cons by (metis suffix_ConsD)
          with u have "suffix u s" by (rule suffix_order.trans)
          with m' show ?thesis by blast
        qed
      qed
    qed
  qed
qed

subsection \<open>The entries\<close>

lemma entriesRe_sound:
  assumes "(s', c') \<in> set (ms entriesRe (s, Map.empty))"
  obtains y w1 w2 mo w3 w4 de where
    "s = y @ w1 @ [0x5E74] @ w2 @ mo @ w3 @ [0x6708] @ w4 @ de @ s'"
    "y \<noteq> []" "\<forall>x\<in>set y. is_digit x" "mo \<noteq> []" "\<forall>x\<in>set mo. is_digit x"
    "\<forall>x\<in>set w1. is_space x" "\<forall>x\<in>set w2. is_space x"
    "\<forall>x\<in>set w3. is_space x" "\<forall>x\<in>set w4. is_space x"
    "de \<noteq> []" "\<forall>x\<in>set de. x \<noteq> 0x0A \<and> x \<noteq> 0x0D"
  using assms unfolding entriesRe_def by (auto simp: ms_mem)

lemma partsRe_sound:
  assumes "(s', c') \<in> set (ms partsRe (s, Map.empty))"
  obtains y mo de where "c' = [1 \<mapsto> y, 2 \<mapsto> mo, 3 \<mapsto> de]"
    "y \<noteq> []" "\<forall>x\<in>set y. is_digit x" "mo \<noteq> []" "\<forall>x\<in>set mo. is_digit x"
  using assms unfolding partsRe_def by (auto simp: ms_mem)

lemma partsRe_complete:
  assumes "y \<noteq> []" "\<forall>x\<in>set y. is_digit x" "mo \<noteq> []" "\<forall>x\<in>set mo. is_digit x"
    "\<forall>x\<in>set w1. is_space x" "\<forall>x\<in>set w2. is_space x"
    "\<forall>x\<in>set w3. is_space x" "\<forall>x\<in>set w4. is_space x"
    "de \<noteq> []" "\<forall>x\<in>set de. is_dot x"
  shows "([], [1 \<mapsto> y, 2 \<mapsto> mo, 3 \<mapsto> de]) \<in>
           set (ms partsRe (y @ w1 @ [0x5E74] @ w2 @ mo @ w3 @ [0x6708] @ w4 @ de @ [], Map.empty))"
  unfolding partsRe_def seqs.simps
  by (rule mem_SeqI mem_GrpI mem_PlusI mem_StarI mem_StrI | simp add: assms)+

lemma entryOf_cases:
  "(year (entryOf x) \<noteq> [] \<and> (\<forall>c\<in>set (year (entryOf x)). is_digit c) \<and>
    month (entryOf x) \<noteq> [] \<and> (\<forall>c\<in>set (month (entryOf x)). is_digit c)) \<or>
   (search partsRe x = None \<and> entryOf x = \<lparr>year = [], month = [], description = trim x\<rparr>)"
proof (cases "search partsRe x")
  case None
  then show ?thesis by (simp add: entryOf_def)
next
  case (Some m)
  from search_SomeD [OF Some] obtain rest where
    "ms partsRe (matched m @ post_text m, Map.empty) = (post_text m, groups m) # rest"
    by blast
  then have "(post_text m, groups m) \<in> set (ms partsRe (matched m @ post_text m, Map.empty))"
    by simp
  then obtain y mo de where "groups m = [1 \<mapsto> y, 2 \<mapsto> mo, 3 \<mapsto> de]"
    "y \<noteq> []" "\<forall>c\<in>set y. is_digit c" "mo \<noteq> []" "\<forall>c\<in>set mo. is_digit c"
    by (rule partsRe_sound)
  with Some show ?thesis by (simp add: entryOf_def)
qed

lemma scan_match_decomposes:
  assumes "search entriesRe u = Some m"
    and "0x2028 \<notin> set (matched m)" "0x2029 \<notin> set (matched m)"
  shows "search partsRe (matched m) \<noteq> None"
proof -
  from search_SomeD [OF assms(1)] obtain rest where
    "ms entriesRe (matched m @ post_text m, Map.empty) = (post_text m, groups m) # rest"
    by blast
  then have "(post_text m, groups m) \<in> set (ms entriesRe (matched m @ post_text m, Map.empty))"
    by simp
  then obtain y w1 w2 mo w3 w4 de where
    eq: "matched m @ post_text m
           = y @ w1 @ [0x5E74] @ w2 @ mo @ w3 @ [0x6708] @ w4 @ de @ post_text m" and
    y: "y \<noteq> []" "\<forall>x\<in>set y. is_digit x" and mo: "mo \<noteq> []" "\<forall>x\<in>set mo. is_digit x" and
    w: "\<forall>x\<in>set w1. is_space x" "\<forall>x\<in>set w2. is_space x"
       "\<forall>x\<in>set w3. is_space x" "\<forall>x\<in>set w4. is_space x" and
    de: "de \<noteq> []" "\<forall>x\<in>set de. x \<noteq> 0x0A \<and> x \<noteq> 0x0D"
    by (rule entriesRe_sound)
  from eq have "matched m @ post_text m
      = (y @ w1 @ [0x5E74] @ w2 @ mo @ w3 @ [0x6708] @ w4 @ de) @ post_text m"
    by simp
  then have mt: "matched m = y @ w1 @ [0x5E74] @ w2 @ mo @ w3 @ [0x6708] @ w4 @ de"
    by (simp only: append_same_eq)
  have "\<forall>x\<in>set de. is_dot x"
  proof
    fix x assume x: "x \<in> set de"
    with mt have "x \<in> set (matched m)" by simp
    with assms(2,3) have "x \<noteq> 0x2028" "x \<noteq> 0x2029" by auto
    with de(2) x show "is_dot x" by (simp add: is_dot_def)
  qed
  from partsRe_complete [OF y mo w de(1) this]
  have "ms partsRe (matched m, Map.empty) \<noteq> []"
    unfolding mt by auto
  then have "search partsRe (matched m) = first_at partsRe (matched m)"
    "first_at partsRe (matched m) \<noteq> None"
    by (simp_all add: search_at_start first_at_None_iff)
  then show ?thesis by simp
qed

lemma entriesOf_entries:
  assumes "entriesOf g = Some es" "e \<in> set es"
  shows "(year e \<noteq> [] \<and> (\<forall>c\<in>set (year e). is_digit c) \<and>
          month e \<noteq> [] \<and> (\<forall>c\<in>set (month e). is_digit c)) \<or>
         (year e = [] \<and> month e = [] \<and> (0x2028 \<in> set g \<or> 0x2029 \<in> set g))"
proof -
  from assms(1) have "es = map entryOf (match_all entriesRe g)"
    by (auto simp: entriesOf_def split: list.splits)
  with assms(2) obtain x where x: "x \<in> set (match_all entriesRe g)" and e: "e = entryOf x"
    by auto
  from match_all_sound [OF x] obtain u m where
    u: "suffix u g" and m: "search entriesRe u = Some m" and mx: "matched m = x"
    by blast
  from search_parts [OF m] have "set x \<subseteq> set u" using mx by auto
  moreover from u have "set u \<subseteq> set g" by (rule set_mono_suffix)
  ultimately have sub: "set x \<subseteq> set g" by simp
  show ?thesis
  proof (cases "0x2028 \<in> set g \<or> 0x2029 \<in> set g")
    case True
    with entryOf_cases [of x] e show ?thesis by auto
  next
    case False
    with sub have "0x2028 \<notin> set (matched m)" "0x2029 \<notin> set (matched m)"
      using mx by auto
    from scan_match_decomposes [OF m this] mx have "search partsRe x \<noteq> None" by simp
    with entryOf_cases [of x] e show ?thesis by auto
  qed
qed

lemma section_in_text:
  "truthy_group (search r t) i = Some g \<Longrightarrow> set g \<subseteq> set t"
proof -
  assume "truthy_group (search r t) i = Some g"
  then obtain m where "search r t = Some m" "groups m i = Some g"
    by (auto simp: truthy_group_def split: option.splits if_splits)
  then have "sublist g t" by (rule search_groups_sublist)
  then show ?thesis by (rule set_mono_sublist)
qed

text \<open>
  Claim C8, as stated, fails.  The scan pattern ends in \<open>[^\n\r]+\<close>, which matches the
  line separators U+2028 and U+2029; the decomposition pattern ends in \<open>.+\<close>, which does
  not.  On the education section \<open>2020 U+5E74 4 U+6708 U+2028\<close> the scan matches, the
  decomposition does not, and the entry is the fallback with empty year and month.
\<close>

theorem fallback_entry_counterexample:
  "(case extractResumeData (Some \<lparr>pages = Some [\<lparr>index = 0, markdown = Some text_separator\<rparr>]\<rparr>) of
      Inl x \<Rightarrow> None
    | Inr d \<Rightarrow> educationHistory d)
   = Some [\<lparr>year = [], month = [], description = [0x32, 0x30, 0x32, 0x30, 0x5E74, 0x34, 0x6708]\<rparr>]"
proof -
  let ?g = "[0x32, 0x30, 0x32, 0x30, 0x5E74, 0x34, 0x6708, 0x2028]"
  have sec: "truthy_group (search educationSectionRe text_separator) (Suc 0) = Some ?g"
    by (simp add: text_separator_def educationSectionRe_def re_eval)
  have scan: "search entriesRe ?g
      = Some \<lparr>pre_text = [], matched = ?g, post_text = [],
              groups = [1 \<mapsto> [0x32, 0x30, 0x32, 0x30], 2 \<mapsto> [0x34], 3 \<mapsto> [0x2028]]\<rparr>"
    by (simp add: entriesRe_def re_eval)
  have scan2: "search entriesRe [] = None"
    by (simp add: entriesRe_def re_eval)
  have all: "match_all entriesRe ?g = [?g]"
    by (simp add: match_all_Some [OF scan] match_all_None [OF scan2])
  have parts: "search partsRe ?g = None"
    by (simp add: partsRe_def re_eval)
  have "educationHistory (extractFromText text_separator)
      = Some [\<lparr>year = [], month = [], description = [0x32, 0x30, 0x32, 0x30, 0x5E74, 0x34, 0x6708]\<rparr>]"
    by (simp add: extractFromText_educationHistory sec entriesOf_def all entryOf_def parts
        trim_def is_space_def)
  then show ?thesis
    by (simp add: extractResumeData_def allTextOf_def text_separator_def)
qed

text \<open>
  Claim C8, amended.  Every entry of \<open>educationHistory\<close>, \<open>workHistory\<close> and \<open>licenses\<close> has
  either a non-empty all-digit year and a non-empty all-digit month, or it is the
  fallback with empty year and month; when the text contains neither U+2028 nor U+2029
  the fallback does not occur, because then every string that the scan pattern matches
  is matched by the decomposition pattern as well.
\<close>

theorem entries_have_digits:
  assumes "extractResumeData (Some \<lparr>pages = Some ps\<rparr>) = Inr d"
    and "l = educationHistory d \<or> l = workHistory d \<or> l = licenses d"
    and "l = Some es" "e \<in> set es"
  shows "((year e \<noteq> [] \<and> (\<forall>c\<in>set (year e). is_digit c) \<and>
           month e \<noteq> [] \<and> (\<forall>c\<in>set (month e). is_digit c)) \<or>
          (year e = [] \<and> month e = [])) \<and>
         (0x2028 \<notin> set (allTextOf ps) \<and> 0x2029 \<notin> set (allTextOf ps) \<longrightarrow>
            year e \<noteq> [] \<and> (\<forall>c\<in>set (year e). is_digit c) \<and>
            month e \<noteq> [] \<and> (\<forall>c\<in>set (month e). is_digit c))"
proof -
  let ?t = "allTextOf ps"
  from assms(1) have d: "d = extractFromText ?t"
    by (simp add: extractResumeData_pages)
  from assms(2,3) obtain r g where
    g: "truthy_group (search r ?t) 1 = Some g" and es: "entriesOf g = Some es"
    unfolding d
    by (auto simp: extractFromText_educationHistory extractFromText_workHistory
        extractFromText_licenses split: option.splits)
  from g have "set g \<subseteq> set ?t" by (rule section_in_text)
  with entriesOf_entries [OF es assms(4)] show ?thesis by auto
qed

theorem entries_have_digits_witness:
  "extractResumeData (Some \<lparr>pages = Some [\<lparr>index = 0, markdown = Some text_one_entry\<rparr>]\<rparr>)
     = Inr (extractFromText text_one_entry) \<and>
   educationHistory (extractFromText text_one_entry)
     = Some [\<lparr>year = [0x32, 0x30, 0x31, 0x30], month = [0x34],
              description = [0x41, 0x9AD8, 0x6821, 0x5165, 0x5B66]\<rparr>] \<and>
   0x2028 \<notin> set text_one_entry \<and> 0x2029 \<notin> set text_one_entry \<and>
   list_all is_digit [0x32, 0x30, 0x31, 0x30]"
proof -
  let ?e = "\<lparr>year = [0x32, 0x30, 0x31, 0x30], month = [0x34],
             description = [0x41, 0x9AD8, 0x6821, 0x5165, 0x5B66]\<rparr>"
  let ?g = "[0x32, 0x30, 0x31, 0x30, 0x5E74, 0x34, 0x6708, 0x20, 0x41, 0x9AD8, 0x6821, 0x5165,
       0x5B66, 0xA]"
  let ?l = "[0x32, 0x30, 0x31, 0x30, 0x5E74, 0x34, 0x6708, 0x20, 0x41, 0x9AD8, 0x6821, 0x5165,
       0x5B66]"
  have run: "extractResumeData (Some \<lparr>pages = Some [\<lparr>index = 0, markdown = Some text_one_entry\<rparr>]\<rparr>)
     = Inr (extractFromText text_one_entry)"
    by (simp add: extractResumeData_def allTextOf_def)
  have tx: "allTextOf [\<lparr>index = 0, markdown = Some text_one_entry\<rparr>] = text_one_entry"
    by (simp add: allTextOf_def)
  have sec: "truthy_group (search educationSectionRe text_one_entry) (Suc 0) = Some ?g"
    by (simp add: text_one_entry_def educationSectionRe_def re_eval)
  have scan: "search entriesRe ?g
      = Some \<lparr>pre_text = [], matched = ?l, post_text = [0x0A],
              groups = [1 \<mapsto> [0x32, 0x30, 0x31, 0x30], 2 \<mapsto> [0x34], 3 \<mapsto> [0x41, 0x9AD8, 0x6821, 0x5165, 0x5B66]]\<rparr>"
    by (simp add: entriesRe_def re_eval)
  have scan2: "search entriesRe [0x0A] = None"
    by (simp add: entriesRe_def re_eval)
  have all: "match_all entriesRe ?g = [?l]"
    by (simp add: match_all_Some [OF scan] match_all_None [OF scan2])
  have parts: "search partsRe ?l
      = Some \<lparr>pre_text = [], matched = ?l, post_text = [],
              groups = [1 \<mapsto> [0x32, 0x30, 0x31, 0x30], 2 \<mapsto> [0x34], 3 \<mapsto> [0x41, 0x9AD8, 0x6821, 0x5165, 0x5B66]]\<rparr>"
    by (simp add: partsRe_def re_eval)
  have edu: "educationHistory (extractFromText text_one_entry) = Some [?e]"
    by (simp add: extractFromText_educationHistory sec entriesOf_def all entryOf_def parts
        trim_def is_space_def)
  have clean: "0x2028 \<notin> set text_one_entry \<and> 0x2029 \<notin> set text_one_entry"
    by (simp add: text_one_entry_def)
  from entries_have_digits [OF run, where l = "educationHistory (extractFromText text_one_entry)"
      and es = "[?e]" and e = ?e] edu clean tx
  have "\<forall>c\<in>set (year ?e). is_digit c" by simp
  then have "list_all is_digit [0x32, 0x30, 0x31, 0x30]" by (simp add: list_all_iff)
  with run edu clean show ?thesis by simp
qed

subsection \<open>The first match in priority order\<close>

lemma concat_map_hd:
  "concat (map f xs) = y # ys \<Longrightarrow> \<exists>x\<in>set xs. \<exists>zs. f x = y # zs"
proof (induction xs)
  case Nil
  then show ?case by simp
next
  case (Cons x xs)
  then show ?case by (cases "f x") auto
qed

lemma ms_Seq_hd:
  assumes "ms (Seq r1 r2) st = y # ys"
  obtains st1 zs where "st1 \<in> set (ms r1 st)" "ms r2 st1 = y # zs"
  using assms concat_map_hd [of "ms r2" "ms r1 st" y ys] by (auto simp: ms.simps)

lemma star_greedy_hd: "\<exists>zs. star_greedy P s = dropWhile P s # zs"
  by (induction s) auto

lemma take_until_dropWhile: "take (length s - length (dropWhile P s)) s = takeWhile P s"
proof -
  have "length s = length (takeWhile P s) + length (dropWhile P s)"
    by (metis length_append takeWhile_dropWhile_id)
  then have "take (length s - length (dropWhile P s)) s = take (length (takeWhile P s)) s"
    by simp
  then show ?thesis by (simp add: takeWhile_eq_take [symmetric])
qed

lemma ms_Grp_Plus_hd:
  assumes "ms (Grp i (Plus a)) (s, c) = (s', c') # zs"
  shows "s \<noteq> [] \<and> atom_ok a (hd s) \<and> s' = dropWhile (atom_ok a) s \<and>
         c' = c(i \<mapsto> takeWhile (atom_ok a) s)"
proof (cases s)
  case Nil
  with assms show ?thesis by (simp add: ms.simps)
next
  case (Cons x xs)
  show ?thesis
  proof (cases "atom_ok a x")
    case False
    with assms Cons show ?thesis by (simp add: ms.simps)
  next
    case True
    obtain ws where ws: "star_greedy (atom_ok a) xs = dropWhile (atom_ok a) xs # ws"
      using star_greedy_hd by blast
    have dw: "dropWhile (atom_ok a) s = dropWhile (atom_ok a) xs"
      using Cons True by simp
    from assms Cons True ws have
      "s' = dropWhile (atom_ok a) xs"
      "c' = c(i \<mapsto> take (length s - length (dropWhile (atom_ok a) xs)) s)"
      by (auto simp: ms.simps)
    with dw take_until_dropWhile [of s "atom_ok a"] Cons True show ?thesis by simp
  qed
qed

lemma search_SomeI:
  assumes "suffix u s" "st \<in> set (ms r (u, Map.empty))"
  shows "\<exists>m. search r s = Some m"
proof (rule ccontr)
  assume "\<not> (\<exists>m. search r s = Some m)"
  then have "search r s = None" by simp
  with assms(1) have "ms r (u, Map.empty) = []" by (simp add: search_None_iff)
  with assms(2) show False by simp
qed

subsection \<open>The birth date and the age\<close>

lemma atom_colon: "atom_ok (OneOf [Lit 0xFF1A, Lit 0x3A]) x = is_colon x"
  by (simp add: is_colon_def)

lemma atom_date: "atom_ok (NoneOf [Lit 0x0A, Lit 0x0D, Lit 0xFF08, Lit 0x28]) = (\<lambda>x. \<not> ends_date x)"
  by (auto simp: ends_date_def fun_eq_iff)

lemma atom_paren: "atom_ok (OneOf [Lit 0xFF08, Lit 0x28]) x = is_open_paren x"
  by (simp add: is_open_paren_def)

lemma birthDateRe_first:
  assumes "ms birthDateRe (s, Map.empty) = (s', c') # rest"
  obtains cs ws tl where "s = birthLabel @ cs @ ws @ tl"
    "\<forall>x\<in>set cs. is_colon x" "\<forall>x\<in>set ws. is_space x"
    "tl \<noteq> []" "\<not> ends_date (hd tl)"
    "c' = [1 \<mapsto> takeWhile (\<lambda>x. \<not> ends_date x) tl]"
    "s' = dropWhile (\<lambda>x. \<not> ends_date x) tl"
proof -
  from assms obtain st1 z1 where
    st1: "st1 \<in> set (ms (Str birthLabel) (s, Map.empty))" and
    r1: "ms (Seq (Star (OneOf [Lit 0xFF1A, Lit 0x3A]))
           (Seq (Star Space) (Grp 1 (Plus (NoneOf [Lit 0x0A, Lit 0x0D, Lit 0xFF08, Lit 0x28])))))
           st1 = (s', c') # z1"
    unfolding birthDateRe_def seqs.simps birthLabel_def by (rule ms_Seq_hd)
  from r1 obtain st2 z2 where
    st2: "st2 \<in> set (ms (Star (OneOf [Lit 0xFF1A, Lit 0x3A])) st1)" and
    r2: "ms (Seq (Star Space) (Grp 1 (Plus (NoneOf [Lit 0x0A, Lit 0x0D, Lit 0xFF08, Lit 0x28]))))
           st2 = (s', c') # z2"
    by (rule ms_Seq_hd)
  from r2 obtain st3 z3 where
    st3: "st3 \<in> set (ms (Star Space) st2)" and
    r3: "ms (Grp 1 (Plus (NoneOf [Lit 0x0A, Lit 0x0D, Lit 0xFF08, Lit 0x28]))) st3 = (s', c') # z3"
    by (rule ms_Seq_hd)
  obtain s1 c1 where p1: "st1 = (s1, c1)" by (cases st1)
  obtain s2 c2 where p2: "st2 = (s2, c2)" by (cases st2)
  obtain s3 c3 where p3: "st3 = (s3, c3)" by (cases st3)
  from st1 p1 have e1: "s = birthLabel @ s1" "c1 = Map.empty" by (simp_all add: mem_Str)
  from st2 p1 p2 obtain cs where e2: "s1 = cs @ s2" "\<forall>x\<in>set cs. is_colon x" "c2 = c1"
    by (auto simp: mem_Star is_colon_def)
  from st3 p2 p3 obtain ws where e3: "s2 = ws @ s3" "\<forall>x\<in>set ws. is_space x" "c3 = c2"
    by (auto simp: mem_Star)
  from ms_Grp_Plus_hd [OF r3 [unfolded p3]] have
    "s3 \<noteq> []" "\<not> ends_date (hd s3)" "s' = dropWhile (\<lambda>x. \<not> ends_date x) s3"
    "c' = c3(1 \<mapsto> takeWhile (\<lambda>x. \<not> ends_date x) s3)"
    by (simp_all add: atom_date)
  with e1 e2 e3 that [of cs ws s3] show thesis by simp
qed

lemma birthDateRe_complete:
  assumes "\<forall>x\<in>set cs. is_colon x" "\<forall>x\<in>set ws. is_space x" "\<not> ends_date c"
  shows "(post, [1 \<mapsto> [c]]) \<in>
           set (ms birthDateRe (birthLabel @ cs @ ws @ [c] @ post, Map.empty))"
  unfolding birthDateRe_def seqs.simps birthLabel_def
  by (rule mem_SeqI mem_GrpI mem_PlusI mem_StarI mem_StrI
      | simp add: assms [unfolded is_colon_def ends_date_def])+

lemma birthDate_truthy:
  assumes "search birthDateRe t = Some m"
  obtains pre cs ws run post where
    "t = pre @ birthLabel @ cs @ ws @ run @ post"
    "\<forall>x\<in>set cs. is_colon x" "\<forall>x\<in>set ws. is_space x"
    "run \<noteq> []" "\<forall>x\<in>set run. \<not> ends_date x" "post = [] \<or> ends_date (hd post)"
    "truthy_group (search birthDateRe t) 1 = Some run"
proof -
  from search_SomeD [OF assms] obtain rest where
    t: "t = pre_text m @ matched m @ post_text m" and
    hd: "ms birthDateRe (matched m @ post_text m, Map.empty) = (post_text m, groups m) # rest"
    by blast
  from hd obtain cs ws tl where
    s: "matched m @ post_text m = birthLabel @ cs @ ws @ tl" and
    cs: "\<forall>x\<in>set cs. is_colon x" and ws: "\<forall>x\<in>set ws. is_space x" and
    tl: "tl \<noteq> []" "\<not> ends_date (hd tl)" and
    g: "groups m = [1 \<mapsto> takeWhile (\<lambda>x. \<not> ends_date x) tl]" and
    p: "post_text m = dropWhile (\<lambda>x. \<not> ends_date x) tl"
    by (rule birthDateRe_first)
  let ?run = "takeWhile (\<lambda>x. \<not> ends_date x) tl"
  let ?post = "dropWhile (\<lambda>x. \<not> ends_date x) tl"
  from tl have run: "?run \<noteq> []" by (cases tl) auto
  have all: "\<forall>x\<in>set ?run. \<not> ends_date x" by (auto dest: set_takeWhileD)
  have stop: "?post = [] \<or> ends_date (hd ?post)"
    using hd_dropWhile [of "\<lambda>x. \<not> ends_date x" tl] by auto
  have eq: "t = pre_text m @ birthLabel @ cs @ ws @ ?run @ ?post"
    using t s by simp
  have tg: "truthy_group (search birthDateRe t) 1 = Some ?run"
    using assms g run by (simp add: truthy_group_def)
  show thesis by (rule that [OF eq cs ws run all stop tg])
qed

lemma birthDate_found:
  assumes "t = pre @ birthLabel @ cs @ ws @ c # post"
    "\<forall>x\<in>set cs. is_colon x" "\<forall>x\<in>set ws. is_space x" "\<not> ends_date c"
  shows "\<exists>m. search birthDateRe t = Some m"
proof -
  have "suffix (birthLabel @ cs @ ws @ [c] @ post) t"
    using assms(1) by (simp add: suffix_def)
  with birthDateRe_complete [OF assms(2-4)] show ?thesis by (rule search_SomeI [rotated])
qed

lemma ageRe_sound:
  assumes "(s', c') \<in> set (ms ageRe (s, Map.empty))"
  obtains cs ws run p w1 w2 ds w3 where
    "s = birthLabel @ cs @ ws @ run @ [p] @ w1 @ [0x6E80] @ w2 @ ds @ w3 @ [0x6B73] @ s'"
    "\<forall>x\<in>set cs. is_colon x" "\<forall>x\<in>set ws. is_space x"
    "run \<noteq> []" "\<forall>x\<in>set run. \<not> ends_date x" "is_open_paren p"
    "\<forall>x\<in>set w1. is_space x" "\<forall>x\<in>set w2. is_space x"
    "ds \<noteq> []" "\<forall>x\<in>set ds. is_digit x" "\<forall>x\<in>set w3. is_space x"
    "c' = [1 \<mapsto> ds]"
  using assms unfolding ageRe_def birthLabel_def
  by (auto simp: ms_mem is_colon_def ends_date_def is_open_paren_def)

lemma ageRe_complete:
  assumes "\<forall>x\<in>set cs. is_colon x" "\<forall>x\<in>set ws. is_space x"
    "run \<noteq> []" "\<forall>x\<in>set run. \<not> ends_date x" "is_open_paren p"
    "\<forall>x\<in>set w1. is_space x" "\<forall>x\<in>set w2. is_space x"
    "ds \<noteq> []" "\<forall>x\<in>set ds. is_digit x" "\<forall>x\<in>set w3. is_space x"
  shows "(post, [1 \<mapsto> ds]) \<in>
           set (ms ageRe (birthLabel @ cs @ ws @ run @ p # w1 @ [0x6E80] @ w2 @ ds @ w3 @
                  [0x6B73] @ post, Map.empty))"
  unfolding ageRe_def seqs.simps birthLabel_def
  by (rule mem_SeqI mem_GrpI mem_PlusI mem_StarI mem_StrI mem_OneI
      | simp add: assms [unfolded is_colon_def ends_date_def is_open_paren_def])+

lemma age_truthy:
  assumes "truthy_group (search ageRe t) 1 = Some ds"
  shows "\<exists>pre cs ws run p w1 w2 w3 post.
              t = pre @ birthLabel @ cs @ ws @ run @ [p] @ w1 @ [0x6E80] @ w2 @ ds @ w3 @
                [0x6B73] @ post \<and>
              (\<forall>x\<in>set cs. is_colon x) \<and> (\<forall>x\<in>set ws. is_space x) \<and>
              run \<noteq> [] \<and> (\<forall>x\<in>set run. \<not> ends_date x) \<and> is_open_paren p \<and>
              (\<forall>x\<in>set w1. is_space x) \<and> (\<forall>x\<in>set w2. is_space x) \<and>
              ds \<noteq> [] \<and> (\<forall>x\<in>set ds. is_digit x) \<and> (\<forall>x\<in>set w3. is_space x)"
proof -
  from assms obtain m where m: "search ageRe t = Some m" and g: "groups m 1 = Some ds"
    by (auto simp: truthy_group_def split: option.splits if_splits)
  from search_SomeD [OF m] obtain rest where
    t: "t = pre_text m @ matched m @ post_text m" and
    hd: "ms ageRe (matched m @ post_text m, Map.empty) = (post_text m, groups m) # rest"
    by blast
  from hd have "(post_text m, groups m) \<in> set (ms ageRe (matched m @ post_text m, Map.empty))"
    by simp
  then obtain cs ws run p w1 w2 ds' w3 where
    s: "matched m @ post_text m
          = birthLabel @ cs @ ws @ run @ [p] @ w1 @ [0x6E80] @ w2 @ ds' @ w3 @ [0x6B73] @
            post_text m" and
    f: "\<forall>x\<in>set cs. is_colon x" "\<forall>x\<in>set ws. is_space x"
       "run \<noteq> []" "\<forall>x\<in>set run. \<not> ends_date x" "is_open_paren p"
       "\<forall>x\<in>set w1. is_space x" "\<forall>x\<in>set w2. is_space x"
       "ds' \<noteq> []" "\<forall>x\<in>set ds'. is_digit x" "\<forall>x\<in>set w3. is_space x" and
    c: "groups m = [1 \<mapsto> ds']"
    by (rule ageRe_sound)
  from c g have "ds' = ds" by simp
  with t s f show ?thesis by blast
qed

lemma age_found:
  assumes "t = pre @ birthLabel @ cs @ ws @ run @ [p] @ w1 @ [0x6E80] @ w2 @ ds @ w3 @
             [0x6B73] @ post"
    "\<forall>x\<in>set cs. is_colon x" "\<forall>x\<in>set ws. is_space x"
    "run \<noteq> []" "\<forall>x\<in>set run. \<not> ends_date x" "is_open_paren p"
    "\<forall>x\<in>set w1. is_space x" "\<forall>x\<in>set w2. is_space x"
    "ds \<noteq> []" "\<forall>x\<in>set ds. is_digit x" "\<forall>x\<in>set w3. is_space x"
  shows "\<exists>g. truthy_group (search ageRe t) 1 = Some g"
proof -
  have "suffix (birthLabel @ cs @ ws @ run @ p # w1 @ [0x6E80] @ w2 @ ds @ w3 @ [0x6B73] @ post) t"
    using assms(1) by (simp add: suffix_def)
  with ageRe_complete [OF assms(2-11)] obtain m where m: "search ageRe t = Some m"
    using search_SomeI by blast
  from search_SomeD [OF m] obtain rest where
    "ms ageRe (matched m @ post_text m, Map.empty) = (post_text m, groups m) # rest"
    by blast
  then have "(post_text m, groups m) \<in> set (ms ageRe (matched m @ post_text m, Map.empty))"
    by simp
  then obtain g where "g \<noteq> []" "groups m = [1 \<mapsto> g]"
    by (rule ageRe_sound)
  with m show ?thesis by (simp add: truthy_group_def)
qed

text \<open>
  Claim C3, as stated, fails: \<open>age\<close> comes from a second search of the whole text, which
  need not match at the label whose date is stored.  In the text of two label lines the
  stored birth date is the one of the first line, which is followed by a new line and
  not by an annotation, and \<open>age\<close> is 20, from the annotation of the second line.
\<close>

theorem age_from_other_label_counterexample:
  "extractResumeData (Some \<lparr>pages = Some [\<lparr>index = 0, markdown = Some text_two_labels\<rparr>]\<rparr>)
     = Inr (extractFromText text_two_labels) \<and>
   birthDate (extractFromText text_two_labels)
     = Some [0x31, 0x39, 0x39, 0x30, 0x5E74, 0x35, 0x6708, 0x33, 0x65E5] \<and>
   age (extractFromText text_two_labels) = Some (Int53 20) \<and>
   take 15 text_two_labels
     = birthLabel @ [0xFF1A] @ [0x31, 0x39, 0x39, 0x30, 0x5E74, 0x35, 0x6708, 0x33, 0x65E5] @
       [0x0A]"
proof -
  have run: "extractResumeData
      (Some \<lparr>pages = Some [\<lparr>index = 0, markdown = Some text_two_labels\<rparr>]\<rparr>)
     = Inr (extractFromText text_two_labels)"
    by (simp add: extractResumeData_def allTextOf_def)
  have b: "truthy_group (search birthDateRe text_two_labels) (Suc 0)
      = Some [0x31, 0x39, 0x39, 0x30, 0x5E74, 0x35, 0x6708, 0x33, 0x65E5]"
    by (simp add: text_two_labels_def birthDateRe_def re_eval)
  have a: "truthy_group (search ageRe text_two_labels) (Suc 0) = Some [0x32, 0x30]"
    by (simp add: text_two_labels_def ageRe_def re_eval)
  have v: "birthDate (extractFromText text_two_labels)
      = Some [0x31, 0x39, 0x39, 0x30, 0x5E74, 0x35, 0x6708, 0x33, 0x65E5]"
    "age (extractFromText text_two_labels) = Some (Int53 20)"
    by (simp_all add: extractFromText_birthDate extractFromText_age b a trim_def
        is_space_def parseInt10_def decimal_def)
  have t: "take 15 text_two_labels
     = birthLabel @ [0xFF1A] @ [0x31, 0x39, 0x39, 0x30, 0x5E74, 0x35, 0x6708, 0x33, 0x65E5] @
       [0x0A]"
    by (simp add: text_two_labels_def birthLabel_def)
  from run v t show ?thesis by simp
qed

text \<open>
  Claim C3, amended.  \<open>birthDate\<close> is set exactly when the text has the label, then colons
  and white space, and then a character that is not a new line, a carriage return or an
  opening parenthesis; it is then the trimmed run of such characters after a label, a run
  that ends at the end of the text or just before a new line, a carriage return or an
  opening parenthesis.  \<open>age\<close> is set exactly when at some occurrence of the label, which
  need not be the one whose date is stored, such a run is followed at once by an opening
  parenthesis, U+6E80, digits and U+6B73 (white space allowed in between); it is then the
  number that \<open>parseInt\<close> gives for those digits, which is the integer they denote when
  that is below \<open>2^53\<close>.  So when no occurrence of the label has the annotation, \<open>age\<close> stays
  unset, also when \<open>birthDate\<close> is set; and \<open>age\<close> is never set without \<open>birthDate\<close>.
\<close>

theorem birthDate_and_age:
  assumes "extractResumeData (Some \<lparr>pages = Some ps\<rparr>) = Inr d"
  shows "(birthDate d \<noteq> None \<longleftrightarrow>
            (\<exists>pre cs ws c post.
               allTextOf ps = pre @ birthLabel @ cs @ ws @ c # post \<and>
               (\<forall>x\<in>set cs. is_colon x) \<and> (\<forall>x\<in>set ws. is_space x) \<and> \<not> ends_date c)) \<and>
         (\<forall>b. birthDate d = Some b \<longrightarrow>
            (\<exists>pre cs ws run post.
               allTextOf ps = pre @ birthLabel @ cs @ ws @ run @ post \<and>
               (\<forall>x\<in>set cs. is_colon x) \<and> (\<forall>x\<in>set ws. is_space x) \<and>
               run \<noteq> [] \<and> (\<forall>x\<in>set run. \<not> ends_date x) \<and>
               (post = [] \<or> ends_date (hd post)) \<and> b = trim run)) \<and>
         (age d \<noteq> None \<longleftrightarrow>
            (\<exists>pre cs ws run p w1 w2 ds w3 post.
              allTextOf ps = pre @ birthLabel @ cs @ ws @ run @ [p] @ w1 @ [0x6E80] @ w2 @ ds @ w3 @
                [0x6B73] @ post \<and>
              (\<forall>x\<in>set cs. is_colon x) \<and> (\<forall>x\<in>set ws. is_space x) \<and>
              run \<noteq> [] \<and> (\<forall>x\<in>set run. \<not> ends_date x) \<and> is_open_paren p \<and>
              (\<forall>x\<in>set w1. is_space x) \<and> (\<forall>x\<in>set w2. is_space x) \<and>
              ds \<noteq> [] \<and> (\<forall>x\<in>set ds. is_digit x) \<and> (\<forall>x\<in>set w3. is_space x))) \<and>
         (\<forall>n. age d = Some n \<longrightarrow>
            (\<exists>pre cs ws run p w1 w2 ds w3 post.
              allTextOf ps = pre @ birthLabel @ cs @ ws @ run @ [p] @ w1 @ [0x6E80] @ w2 @ ds @ w3 @
                [0x6B73] @ post \<and>
              (\<forall>x\<in>set cs. is_colon x) \<and> (\<forall>x\<in>set ws. is_space x) \<and>
              run \<noteq> [] \<and> (\<forall>x\<in>set run. \<not> ends_date x) \<and> is_open_paren p \<and>
              (\<forall>x\<in>set w1. is_space x) \<and> (\<forall>x\<in>set w2. is_space x) \<and>
              ds \<noteq> [] \<and> (\<forall>x\<in>set ds. is_digit x) \<and> (\<forall>x\<in>set w3. is_space x) \<and>
              n = parseInt10 ds \<and>
              (decimal ds < 2 ^ 53 \<longrightarrow> n = Int53 (decimal ds)))) \<and>
         (age d \<noteq> None \<longrightarrow> birthDate d \<noteq> None)"
proof -
  let ?t = "allTextOf ps"
  from assms have d: "d = extractFromText ?t"
    by (simp add: extractResumeData_pages)
  have bd: "birthDate d = map_option trim (truthy_group (search birthDateRe ?t) 1)"
    unfolding d by (rule extractFromText_birthDate)
  have ag: "age d = (case truthy_group (search birthDateRe ?t) 1 of
        None \<Rightarrow> None
      | Some g \<Rightarrow> map_option parseInt10 (truthy_group (search ageRe ?t) 1))"
    unfolding d by (rule extractFromText_age)
  have found: "truthy_group (search birthDateRe ?t) 1 \<noteq> None"
    if "?t = pre @ birthLabel @ cs @ ws @ c # post"
      "\<forall>x\<in>set cs. is_colon x" "\<forall>x\<in>set ws. is_space x" "\<not> ends_date c"
    for pre cs ws c post
  proof -
    from birthDate_found [OF that] obtain m where m: "search birthDateRe ?t = Some m" by blast
    then show ?thesis by (rule birthDate_truthy) simp
  qed
  have one: "birthDate d \<noteq> None \<longleftrightarrow>
            (\<exists>pre cs ws c post.
               ?t = pre @ birthLabel @ cs @ ws @ c # post \<and>
               (\<forall>x\<in>set cs. is_colon x) \<and> (\<forall>x\<in>set ws. is_space x) \<and> \<not> ends_date c)"
  proof
    assume "birthDate d \<noteq> None"
    with bd obtain m where m: "search birthDateRe ?t = Some m"
      by (auto simp: truthy_group_def split: option.splits)
    from m obtain pre cs ws run post where
      t: "?t = pre @ birthLabel @ cs @ ws @ run @ post" and
      f: "\<forall>x\<in>set cs. is_colon x" "\<forall>x\<in>set ws. is_space x" and
      r: "run \<noteq> []" "\<forall>x\<in>set run. \<not> ends_date x"
      by (rule birthDate_truthy)
    from r obtain c r' where "run = c # r'" "\<not> ends_date c" by (cases run) auto
    with t have "?t = pre @ birthLabel @ cs @ ws @ c # (r' @ post)" by simp
    with f \<open>\<not> ends_date c\<close> show "\<exists>pre cs ws c post.
               ?t = pre @ birthLabel @ cs @ ws @ c # post \<and>
               (\<forall>x\<in>set cs. is_colon x) \<and> (\<forall>x\<in>set ws. is_space x) \<and> \<not> ends_date c"
      by blast
  next
    assume "\<exists>pre cs ws c post.
               ?t = pre @ birthLabel @ cs @ ws @ c # post \<and>
               (\<forall>x\<in>set cs. is_colon x) \<and> (\<forall>x\<in>set ws. is_space x) \<and> \<not> ends_date c"
    with found have "truthy_group (search birthDateRe ?t) 1 \<noteq> None" by blast
    with bd show "birthDate d \<noteq> None" by simp
  qed
  have two: "\<exists>pre cs ws run post.
               ?t = pre @ birthLabel @ cs @ ws @ run @ post \<and>
               (\<forall>x\<in>set cs. is_colon x) \<and> (\<forall>x\<in>set ws. is_space x) \<and>
               run \<noteq> [] \<and> (\<forall>x\<in>set run. \<not> ends_date x) \<and>
               (post = [] \<or> ends_date (hd post)) \<and> b = trim run"
    if "birthDate d = Some b" for b
  proof -
    from that bd obtain g where g: "truthy_group (search birthDateRe ?t) 1 = Some g" "b = trim g"
      by auto
    then obtain m where m: "search birthDateRe ?t = Some m"
      by (auto simp: truthy_group_def split: option.splits)
    from m obtain pre cs ws run post where
      f: "?t = pre @ birthLabel @ cs @ ws @ run @ post"
      "\<forall>x\<in>set cs. is_colon x" "\<forall>x\<in>set ws. is_space x"
      "run \<noteq> []" "\<forall>x\<in>set run. \<not> ends_date x" "post = [] \<or> ends_date (hd post)" and
      tg: "truthy_group (search birthDateRe ?t) 1 = Some run"
      by (rule birthDate_truthy)
    from g tg have "b = trim run" by simp
    with f show ?thesis by blast
  qed
  have three: "\<exists>pre cs ws run p w1 w2 ds w3 post.
              ?t = pre @ birthLabel @ cs @ ws @ run @ [p] @ w1 @ [0x6E80] @ w2 @ ds @ w3 @
                [0x6B73] @ post \<and>
              (\<forall>x\<in>set cs. is_colon x) \<and> (\<forall>x\<in>set ws. is_space x) \<and>
              run \<noteq> [] \<and> (\<forall>x\<in>set run. \<not> ends_date x) \<and> is_open_paren p \<and>
              (\<forall>x\<in>set w1. is_space x) \<and> (\<forall>x\<in>set w2. is_space x) \<and>
              ds \<noteq> [] \<and> (\<forall>x\<in>set ds. is_digit x) \<and> (\<forall>x\<in>set w3. is_space x) \<and>
              n = parseInt10 ds \<and>
              (decimal ds < 2 ^ 53 \<longrightarrow> n = Int53 (decimal ds))"
    if "age d = Some n" for n
  proof -
    from that ag obtain ds where ds: "truthy_group (search ageRe ?t) 1 = Some ds"
      and n: "n = parseInt10 ds"
      by (auto split: option.splits)
    from n have "decimal ds < 2 ^ 53 \<longrightarrow> n = Int53 (decimal ds)"
      by (simp add: parseInt10_def)
    note n = n this
    from age_truthy [OF ds] n show ?thesis by blast
  qed
  have four: "age d \<noteq> None"
    if "?t = pre @ birthLabel @ cs @ ws @ run @ [p] @ w1 @ [0x6E80] @ w2 @ ds @ w3 @
                [0x6B73] @ post \<and>
              (\<forall>x\<in>set cs. is_colon x) \<and> (\<forall>x\<in>set ws. is_space x) \<and>
              run \<noteq> [] \<and> (\<forall>x\<in>set run. \<not> ends_date x) \<and> is_open_paren p \<and>
              (\<forall>x\<in>set w1. is_space x) \<and> (\<forall>x\<in>set w2. is_space x) \<and>
              ds \<noteq> [] \<and> (\<forall>x\<in>set ds. is_digit x) \<and> (\<forall>x\<in>set w3. is_space x)"
    for pre cs ws run p w1 w2 ds w3 post
  proof -
    from that have pat: "?t = pre @ birthLabel @ cs @ ws @ run @ [p] @ w1 @ [0x6E80] @ w2 @ ds @
        w3 @ [0x6B73] @ post"
      and f: "\<forall>x\<in>set cs. is_colon x" "\<forall>x\<in>set ws. is_space x"
       "run \<noteq> []" "\<forall>x\<in>set run. \<not> ends_date x" "is_open_paren p"
       "\<forall>x\<in>set w1. is_space x" "\<forall>x\<in>set w2. is_space x"
       "ds \<noteq> []" "\<forall>x\<in>set ds. is_digit x" "\<forall>x\<in>set w3. is_space x"
      by blast+
    from age_found [OF pat f] obtain g where g: "truthy_group (search ageRe ?t) 1 = Some g"
      by blast
    from f(3,4) obtain c r' where run: "run = c # r'" "\<not> ends_date c" by (cases run) auto
    with pat have "?t = pre @ birthLabel @ cs @ ws @ c #
        (r' @ [p] @ w1 @ [0x6E80] @ w2 @ ds @ w3 @ [0x6B73] @ post)" by simp
    from found [OF this f(1,2) run(2)] g ag show ?thesis by auto
  qed
  have five: "age d \<noteq> None \<longrightarrow> birthDate d \<noteq> None"
    using ag bd by (auto split: option.splits)
  have iff: "age d \<noteq> None \<longleftrightarrow>
            (\<exists>pre cs ws run p w1 w2 ds w3 post.
              ?t = pre @ birthLabel @ cs @ ws @ run @ [p] @ w1 @ [0x6E80] @ w2 @ ds @ w3 @
                [0x6B73] @ post \<and>
              (\<forall>x\<in>set cs. is_colon x) \<and> (\<forall>x\<in>set ws. is_space x) \<and>
              run \<noteq> [] \<and> (\<forall>x\<in>set run. \<not> ends_date x) \<and> is_open_paren p \<and>
              (\<forall>x\<in>set w1. is_space x) \<and> (\<forall>x\<in>set w2. is_space x) \<and>
              ds \<noteq> [] \<and> (\<forall>x\<in>set ds. is_digit x) \<and> (\<forall>x\<in>set w3. is_space x))"
  proof
    assume "age d \<noteq> None"
    then obtain n where "age d = Some n" by auto
    from three [OF this] show "(\<exists>pre cs ws run p w1 w2 ds w3 post.
              ?t = pre @ birthLabel @ cs @ ws @ run @ [p] @ w1 @ [0x6E80] @ w2 @ ds @ w3 @
                [0x6B73] @ post \<and>
              (\<forall>x\<in>set cs. is_colon x) \<and> (\<forall>x\<in>set ws. is_space x) \<and>
              run \<noteq> [] \<and> (\<forall>x\<in>set run. \<not> ends_date x) \<and> is_open_paren p \<and>
              (\<forall>x\<in>set w1. is_space x) \<and> (\<forall>x\<in>set w2. is_space x) \<and>
              ds \<noteq> [] \<and> (\<forall>x\<in>set ds. is_digit x) \<and> (\<forall>x\<in>set w3. is_space x))"
      by (elim exE conjE) (intro exI conjI; assumption)
  next
    assume "(\<exists>pre cs ws run p w1 w2 ds w3 post.
              ?t = pre @ birthLabel @ cs @ ws @ run @ [p] @ w1 @ [0x6E80] @ w2 @ ds @ w3 @
                [0x6B73] @ post \<and>
              (\<forall>x\<in>set cs. is_colon x) \<and> (\<forall>x\<in>set ws. is_space x) \<and>
              run \<noteq> [] \<and> (\<forall>x\<in>set run. \<not> ends_date x) \<and> is_open_paren p \<and>
              (\<forall>x\<in>set w1. is_space x) \<and> (\<forall>x\<in>set w2. is_space x) \<and>
              ds \<noteq> [] \<and> (\<forall>x\<in>set ds. is_digit x) \<and> (\<forall>x\<in>set w3. is_space x))"
    then show "age d \<noteq> None" by (elim exE) (rule four)
  qed
  show ?thesis
    by (intro conjI allI impI) (rule one iff | erule two three | erule five [rule_format])+
qed

theorem birthDate_and_age_witness:
  "extractResumeData (Some \<lparr>pages = Some [\<lparr>index = 0, markdown = None\<rparr>,
                                          \<lparr>index = 1, markdown = Some text_birth_age\<rparr>]\<rparr>)
     = Inr (extractFromText (0x0A # 0x0A # text_birth_age)) \<and>
   birthDate (extractFromText (0x0A # 0x0A # text_birth_age)) = Some [0x31, 0x39, 0x39, 0x30, 0x5E74, 0x35, 0x6708, 0x33, 0x65E5] \<and>
   age (extractFromText (0x0A # 0x0A # text_birth_age)) = Some (Int53 34) \<and>
   birthDate (extractFromText text_birth_only) = Some [0x31, 0x39, 0x39, 0x30, 0x5E74, 0x35, 0x6708, 0x33, 0x65E5] \<and>
   age (extractFromText text_birth_only) = None \<and>
   birthDate (extractFromText text_birth_spaced) = Some [0x31, 0x39, 0x39, 0x30, 0x5E74, 0x35, 0x6708, 0x33, 0x65E5] \<and>
   age (extractFromText text_birth_spaced) = Some (Int53 34) \<and>
   birthDate (extractFromText (0x0A # 0x0A # text_birth_age)) \<noteq> None"
proof -
  have run: "extractResumeData (Some \<lparr>pages = Some [\<lparr>index = 0, markdown = None\<rparr>,
                                          \<lparr>index = 1, markdown = Some text_birth_age\<rparr>]\<rparr>)
     = Inr (extractFromText (0x0A # 0x0A # text_birth_age))"
    by (simp add: extractResumeData_def allTextOf_def)
  have b1: "truthy_group (search birthDateRe (0x0A # 0x0A # text_birth_age)) (Suc 0) = Some [0x31, 0x39, 0x39, 0x30, 0x5E74, 0x35, 0x6708, 0x33, 0x65E5]"
    by (simp add: text_birth_age_def birthDateRe_def re_eval)
  have a1: "truthy_group (search ageRe (0x0A # 0x0A # text_birth_age)) (Suc 0) = Some [0x33, 0x34]"
    by (simp add: text_birth_age_def ageRe_def re_eval)
  have b2: "truthy_group (search birthDateRe text_birth_only) (Suc 0) = Some [0x31, 0x39, 0x39, 0x30, 0x5E74, 0x35, 0x6708, 0x33, 0x65E5]"
    by (simp add: text_birth_only_def birthDateRe_def re_eval)
  have a2: "truthy_group (search ageRe text_birth_only) (Suc 0) = None"
    by (simp add: text_birth_only_def ageRe_def re_eval)
  have b3: "truthy_group (search birthDateRe text_birth_spaced) (Suc 0) = Some ([0x31, 0x39, 0x39, 0x30, 0x5E74, 0x35, 0x6708, 0x33, 0x65E5] @ [0x20])"
    by (simp add: text_birth_spaced_def birthDateRe_def re_eval)
  have a3: "truthy_group (search ageRe text_birth_spaced) (Suc 0) = Some [0x33, 0x34]"
    by (simp add: text_birth_spaced_def ageRe_def re_eval)
  have v: "birthDate (extractFromText (0x0A # 0x0A # text_birth_age)) = Some [0x31, 0x39, 0x39, 0x30, 0x5E74, 0x35, 0x6708, 0x33, 0x65E5]"
    "age (extractFromText (0x0A # 0x0A # text_birth_age)) = Some (Int53 34)"
    "birthDate (extractFromText text_birth_only) = Some [0x31, 0x39, 0x39, 0x30, 0x5E74, 0x35, 0x6708, 0x33, 0x65E5]"
    "age (extractFromText text_birth_only) = None"
    "birthDate (extractFromText text_birth_spaced) = Some [0x31, 0x39, 0x39, 0x30, 0x5E74, 0x35, 0x6708, 0x33, 0x65E5]"
    "age (extractFromText text_birth_spaced) = Some (Int53 34)"
    by (simp_all add: extractFromText_birthDate extractFromText_age b1 a1 b2 a2 b3 a3 trim_def
        is_space_def parseInt10_def decimal_def)
  from birthDate_and_age [OF run]
  have "age (extractFromText (0x0A # 0x0A # text_birth_age)) \<noteq> None \<longrightarrow>
      birthDate (extractFromText (0x0A # 0x0A # text_birth_age)) \<noteq> None"
    by (elim conjE)
  with v(2) have "birthDate (extractFromText (0x0A # 0x0A # text_birth_age)) \<noteq> None" by simp
  with run v show ?thesis by simp
qed

subsection \<open>The lazy capture of a section\<close>

lemma concat_map_first:
  "concat (map f xs) = y # ys \<Longrightarrow>
     \<exists>i<length xs. (\<forall>j<i. f (xs ! j) = []) \<and> (\<exists>zs. f (xs ! i) = y # zs)"
proof (induction xs)
  case Nil
  then show ?case by simp
next
  case (Cons x xs)
  show ?case
  proof (cases "f x")
    case Nil
    with Cons.prems have "concat (map f xs) = y # ys" by simp
    from Cons.IH [OF this] obtain i zs where
      i: "i < length xs" "\<forall>j<i. f (xs ! j) = []" "f (xs ! i) = y # zs"
      by blast
    have "\<forall>j<Suc i. f ((x # xs) ! j) = []"
    proof (intro allI impI)
      fix j assume "j < Suc i"
      then show "f ((x # xs) ! j) = []"
        using Nil i(2) by (cases j) auto
    qed
    with i(1,3) show ?thesis
      by (intro exI [of _ "Suc i"]) auto
  next
    case (Cons a as)
    with Cons.prems have "f x = y # as" by simp
    then show ?thesis by (intro exI [of _ 0]) auto
  qed
qed

lemma star_lazy_all:
  "\<forall>x. P x \<Longrightarrow> star_lazy P s = map (\<lambda>k. drop k s) [0..<Suc (length s)]"
proof (induction s)
  case Nil
  then show ?case by simp
next
  case (Cons c cs)
  have "map (\<lambda>k. drop k (c # cs)) [0..<Suc (length (c # cs))]
      = drop 0 (c # cs) # map (\<lambda>k. drop (Suc k) (c # cs)) [0..<Suc (length cs)]"
    using map_upt_Suc [of "\<lambda>k. drop k (c # cs)" "Suc (length cs)"] by simp
  with Cons show ?case by simp
qed

lemma lazy_section_first:
  assumes hd: "ms (Seq (Grp i (LazyStar a)) r) (s, c) = (s', c') # rest"
    and all: "\<forall>x. atom_ok a x"
  obtains k zs where "k \<le> length s"
    "\<forall>j<k. ms r (drop j s, c(i \<mapsto> take j s)) = []"
    "ms r (drop k s, c(i \<mapsto> take k s)) = (s', c') # zs"
proof -
  let ?ks = "[0..<Suc (length s)]"
  let ?st = "\<lambda>k. (drop k s, c(i \<mapsto> take k s))"
  have "map (\<lambda>u. (u, c(i \<mapsto> take (length s - length u) s))) (map (\<lambda>k. drop k s) ?ks)
      = map ?st ?ks"
    unfolding map_map comp_def
  proof (rule map_cong [OF refl])
    fix k assume "k \<in> set ?ks"
    then have "length s - length (drop k s) = k" by auto
    then show "(drop k s, c(i \<mapsto> take (length s - length (drop k s)) s)) = ?st k"
      by simp
  qed
  then have grp: "ms (Grp i (LazyStar a)) (s, c) = map ?st ?ks"
    by (simp add: ms.simps star_lazy_all [OF all] comp_def del: upt_Suc)
  have "ms (Seq (Grp i (LazyStar a)) r) (s, c)
      = concat (map (ms r) (ms (Grp i (LazyStar a)) (s, c)))"
    by (simp only: ms.simps)
  also have "\<dots> = concat (map (\<lambda>k. ms r (?st k)) ?ks)"
    by (simp only: grp map_map comp_def)
  finally have "concat (map (\<lambda>k. ms r (?st k)) ?ks) = (s', c') # rest"
    using hd by simp
  from concat_map_first [OF this] obtain n zs where
    n: "n < length ?ks" "\<forall>j<n. ms r (?st (?ks ! j)) = []" "ms r (?st (?ks ! n)) = (s', c') # zs"
    by blast
  from n(1) have le: "n \<le> length s" by simp
  have nth: "?ks ! j = j" if "j \<le> length s" for j
    using that by (metis add_0 less_Suc_eq_le nth_upt)
  have none: "\<forall>j<n. ms r (?st j) = []"
  proof (intro allI impI)
    fix j assume j: "j < n"
    with n(2) have "ms r (?st (?ks ! j)) = []" by blast
    moreover from j le have "?ks ! j = j" by (intro nth) simp
    ultimately show "ms r (?st j) = []" by (simp only:)
  qed
  from le have "?ks ! n = n" by (rule nth)
  with n(3) have "ms r (?st n) = (s', c') # zs" by (simp only:)
  with le none show thesis by (rule that)
qed

lemma alts_mem:
  "(s', c') \<in> set (ms (alts ts) (u, cu)) \<longleftrightarrow>
     c' = cu \<and> ((u = [] \<and> s' = []) \<or> (\<exists>x\<in>set ts. u = x @ s'))"
  by (induction ts) (auto simp: ms_mem)

lemma alts_none: "ms (alts ts) (u, cu) = [] \<longleftrightarrow> \<not> stops_at ts u"
proof -
  have "ms (alts ts) (u, cu) = [] \<longleftrightarrow> (\<forall>s' c'. (s', c') \<notin> set (ms (alts ts) (u, cu)))"
    by (cases "ms (alts ts) (u, cu)") auto
  also have "\<dots> \<longleftrightarrow> \<not> stops_at ts u"
    by (auto simp: alts_mem stops_at_def list_ex_iff prefix_def)
  finally show ?thesis .
qed

lemma sectionRe_capture:
  assumes "truthy_group (search (sectionRe header terms) t) 1 = Some g"
  shows "\<exists>pre ws post. t = pre @ header @ ws @ [0x0A] @ g @ post \<and>
           (\<forall>x\<in>set ws. is_space x) \<and> ends_at_nearest terms g post"
proof -
  let ?lazy = "Grp 1 (LazyStar (OneOf [Space, NotSpace]))"
  from assms obtain m where m: "search (sectionRe header terms) t = Some m"
    and g: "groups m 1 = Some g"
    by (auto simp: truthy_group_def split: option.splits if_splits)
  from search_SomeD [OF m] obtain rest where
    t: "t = pre_text m @ matched m @ post_text m" and
    hd: "ms (sectionRe header terms) (matched m @ post_text m, Map.empty)
           = (post_text m, groups m) # rest"
    by blast
  from hd obtain st1 z1 where
    st1: "st1 \<in> set (ms (Str header) (matched m @ post_text m, Map.empty))" and
    r1: "ms (Seq (Star Space) (Seq (Str [0x0A]) (Seq ?lazy (alts terms)))) st1
           = (post_text m, groups m) # z1"
    unfolding sectionRe_def seqs.simps by (rule ms_Seq_hd)
  from r1 obtain st2 z2 where
    st2: "st2 \<in> set (ms (Star Space) st1)" and
    r2: "ms (Seq (Str [0x0A]) (Seq ?lazy (alts terms))) st2 = (post_text m, groups m) # z2"
    by (rule ms_Seq_hd)
  from r2 obtain st3 z3 where
    st3: "st3 \<in> set (ms (Str [0x0A]) st2)" and
    r3: "ms (Seq ?lazy (alts terms)) st3 = (post_text m, groups m) # z3"
    by (rule ms_Seq_hd)
  obtain s1 c1 where p1: "st1 = (s1, c1)" by (cases st1)
  obtain s2 c2 where p2: "st2 = (s2, c2)" by (cases st2)
  obtain s3 c3 where p3: "st3 = (s3, c3)" by (cases st3)
  from st1 p1 have e1: "matched m @ post_text m = header @ s1" "c1 = Map.empty"
    by (simp_all add: mem_Str)
  from st2 p1 p2 obtain ws where e2: "s1 = ws @ s2" "\<forall>x\<in>set ws. is_space x" "c2 = c1"
    by (auto simp: mem_Star)
  from st3 p2 p3 have e3: "s2 = [0x0A] @ s3" "c3 = c2"
    by (simp_all add: mem_Str)
  have any: "\<forall>x. atom_ok (OneOf [Space, NotSpace]) x" by simp
  from lazy_section_first [OF r3 [unfolded p3] any] obtain k zs where
    k: "k \<le> length s3" and
    before: "\<forall>j<k. ms (alts terms) (drop j s3, c3(1 \<mapsto> take j s3)) = []" and
    at: "ms (alts terms) (drop k s3, c3(1 \<mapsto> take k s3)) = (post_text m, groups m) # zs"
    by blast
  from at have "(post_text m, groups m) \<in> set (ms (alts terms) (drop k s3, c3(1 \<mapsto> take k s3)))"
    by simp
  then have "groups m = c3(1 \<mapsto> take k s3)" by (simp add: alts_mem)
  with g have gk: "g = take k s3" by simp
  with k have len: "length g = k" by simp
  have s3: "g @ drop k s3 = s3" using gk by simp
  from at have "ms (alts terms) (drop k s3, c3(1 \<mapsto> take k s3)) \<noteq> []" by simp
  then have stop: "stops_at terms (drop k s3)" by (simp add: alts_none)
  from before have "\<forall>j<k. \<not> stops_at terms (drop j s3)" by (simp add: alts_none)
  with len s3 have "list_all (\<lambda>j. \<not> stops_at terms (drop j (g @ drop k s3))) [0..<length g]"
    by (simp add: list_all_iff)
  with stop have "ends_at_nearest terms g (drop k s3)"
    by (simp add: ends_at_nearest_def)
  moreover have "t = pre_text m @ header @ ws @ [0x0A] @ g @ drop k s3"
    using t e1 e2 e3 s3 by simp
  ultimately show ?thesis using e2(2) by blast
qed

lemma section_patterns:
  "educationSectionRe = sectionRe educationHeader educationTerminators"
  "workSectionRe = sectionRe workHeader workTerminators"
  "licenseSectionRe = sectionRe licenseHeader licenseTerminators"
  by (simp_all add: educationSectionRe_def workSectionRe_def licenseSectionRe_def sectionRe_def
      educationHeader_def workHeader_def licenseHeader_def educationTerminators_def
      workTerminators_def licenseTerminators_def)

text \<open>
  What the three patterns capture.  The text captured for a section starts after the
  header, white space and a new line; it is followed by a terminator of the section's
  pattern or by the end of the text, and no terminator of that pattern starts inside it
  (the capture is lazy); the entries of the section are those of the captured text.
\<close>

lemma section_captures:
  assumes "extractResumeData (Some \<lparr>pages = Some ps\<rparr>) = Inr d"
  shows "(\<forall>es. educationHistory d = Some es \<longrightarrow>
            (\<exists>pre ws g post.
               allTextOf ps = pre @ educationHeader @ ws @ [0x0A] @ g @ post \<and>
               (\<forall>x\<in>set ws. is_space x) \<and> ends_at_nearest educationTerminators g post \<and>
               entriesOf g = Some es)) \<and>
         (\<forall>es. workHistory d = Some es \<longrightarrow>
            (\<exists>pre ws g post.
               allTextOf ps = pre @ workHeader @ ws @ [0x0A] @ g @ post \<and>
               (\<forall>x\<in>set ws. is_space x) \<and> ends_at_nearest workTerminators g post \<and>
               entriesOf g = Some es)) \<and>
         (\<forall>es. licenses d = Some es \<longrightarrow>
            (\<exists>pre ws g post.
               allTextOf ps = pre @ licenseHeader @ ws @ [0x0A] @ g @ post \<and>
               (\<forall>x\<in>set ws. is_space x) \<and> ends_at_nearest licenseTerminators g post \<and>
               entriesOf g = Some es))"
proof -
  let ?t = "allTextOf ps"
  from assms have d: "d = extractFromText ?t"
    by (simp add: extractResumeData_pages)
  have edu: "\<exists>pre ws g post.
               ?t = pre @ educationHeader @ ws @ [0x0A] @ g @ post \<and>
               (\<forall>x\<in>set ws. is_space x) \<and> ends_at_nearest educationTerminators g post \<and>
               entriesOf g = Some es"
    if "educationHistory d = Some es" for es
  proof -
    from that obtain g where
      g: "truthy_group (search (sectionRe educationHeader educationTerminators) ?t) 1 = Some g"
      and es: "entriesOf g = Some es"
      unfolding d
      by (auto simp: extractFromText_educationHistory section_patterns split: option.splits)
    from sectionRe_capture [OF g] es show ?thesis by blast
  qed
  have work: "\<exists>pre ws g post.
               ?t = pre @ workHeader @ ws @ [0x0A] @ g @ post \<and>
               (\<forall>x\<in>set ws. is_space x) \<and> ends_at_nearest workTerminators g post \<and>
               entriesOf g = Some es"
    if "workHistory d = Some es" for es
  proof -
    from that obtain g where
      g: "truthy_group (search (sectionRe workHeader workTerminators) ?t) 1 = Some g"
      and es: "entriesOf g = Some es"
      unfolding d
      by (auto simp: extractFromText_workHistory section_patterns split: option.splits)
    from sectionRe_capture [OF g] es show ?thesis by blast
  qed
  have lic: "\<exists>pre ws g post.
               ?t = pre @ licenseHeader @ ws @ [0x0A] @ g @ post \<and>
               (\<forall>x\<in>set ws. is_space x) \<and> ends_at_nearest licenseTerminators g post \<and>
               entriesOf g = Some es"
    if "licenses d = Some es" for es
  proof -
    from that obtain g where
      g: "truthy_group (search (sectionRe licenseHeader licenseTerminators) ?t) 1 = Some g"
      and es: "entriesOf g = Some es"
      unfolding d
      by (auto simp: extractFromText_licenses section_patterns split: option.splits)
    from sectionRe_capture [OF g] es show ?thesis by blast
  qed
  show ?thesis
    by (intro conjI allI impI) (erule edu work lic)+
qed

text \<open>
  The education section of two lines followed by the header U+8077 U+6B74
  (\<open>text_two_entries\<close>): the captured text is the two lines, without that header, and
  \<open>educationHistory\<close> has exactly two entries.
\<close>

lemma education_two_lines:
  "truthy_group (search educationSectionRe text_two_entries) 1
           = Some [0x32, 0x30, 0x31, 0x30, 0x5E74, 0x34, 0x6708, 0x20, 0x41, 0x9AD8,
                   0x6821, 0x5165, 0x5B66, 0xA, 0x32, 0x30, 0x31, 0x33, 0x5E74, 0x33,
                   0x6708, 0x20, 0x41, 0x9AD8, 0x6821, 0x5352, 0x696D, 0xA]"
  "\<not> includes_str [0x32, 0x30, 0x31, 0x30, 0x5E74, 0x34, 0x6708, 0x20, 0x41, 0x9AD8,
                   0x6821, 0x5165, 0x5B66, 0xA, 0x32, 0x30, 0x31, 0x33, 0x5E74, 0x33,
                   0x6708, 0x20, 0x41, 0x9AD8, 0x6821, 0x5352, 0x696D, 0xA] workHeader"
  "educationHistory (extractFromText text_two_entries)
           = Some [\<lparr>year = [0x32, 0x30, 0x31, 0x30], month = [0x34], description = [0x41, 0x9AD8, 0x6821, 0x5165, 0x5B66]\<rparr>,
                   \<lparr>year = [0x32, 0x30, 0x31, 0x33], month = [0x33], description = [0x41, 0x9AD8, 0x6821, 0x5352, 0x696D]\<rparr>]"
    apply (simp add: text_two_entries_def educationSectionRe_def re_eval)
   apply (simp add: workHeader_def)
  apply (simp add: extractFromText_educationHistory text_two_entries_def educationSectionRe_def
        entriesOf_def entryOf_def match_all.simps entriesRe_def partsRe_def re_eval trim_def)
  done

text \<open>
  Claim C2 says that the capture of each section ends at the nearest following header
  among U+8077 U+6B74, U+514D U+8A31 U+30FB U+8CC7 U+683C, U+5065 U+5EB7 U+72B6 U+614B and
  U+8DA3 U+5473.  The patterns of the work history and of the licenses name every header
  that can follow their section; the pattern of the education section names only
  U+8077 U+6B74 and leaves the three later headers out.  So when the header U+8DA3 U+5473
  follows the education lines (\<open>text_other_header\<close>), the capture runs over that header to
  the end of the text, and the line below the header becomes the second education entry.
  The same lines after the header of the work history (\<open>text_work_other_header\<close>) are cut
  at U+8DA3 U+5473, and \<open>workHistory\<close> has the one entry above it.
\<close>

theorem education_runs_over_later_header:
  "extractResumeData
     (Some \<lparr>pages = Some [\<lparr>index = 0, markdown = Some text_other_header\<rparr>]\<rparr>)
     = Inr (extractFromText text_other_header) \<and>
   truthy_group (search educationSectionRe text_other_header) 1
     = Some [0x32, 0x30, 0x31, 0x30, 0x5E74, 0x34, 0x6708, 0x20, 0x41, 0x9AD8, 0x6821,
             0x5165, 0x5B66, 0xA, 0x8DA3, 0x5473, 0xA, 0x32, 0x30, 0x31, 0x35, 0x5E74,
             0x34, 0x6708, 0x20, 0x8AAD, 0x66F8, 0xA] \<and>
   educationHistory (extractFromText text_other_header)
     = Some [\<lparr>year = [0x32, 0x30, 0x31, 0x30], month = [0x34], description = [0x41, 0x9AD8, 0x6821, 0x5165, 0x5B66]\<rparr>,
             \<lparr>year = [0x32, 0x30, 0x31, 0x35], month = [0x34], description = [0x8AAD, 0x66F8]\<rparr>] \<and>
   truthy_group (search workSectionRe text_work_other_header) 1
     = Some [0x32, 0x30, 0x31, 0x33, 0x5E74, 0x34, 0x6708, 0x20, 0x42, 0x793E, 0x5165,
             0x793E, 0xA] \<and>
   workHistory (extractFromText text_work_other_header)
     = Some [\<lparr>year = [0x32, 0x30, 0x31, 0x33], month = [0x34], description = [0x42, 0x793E, 0x5165, 0x793E]\<rparr>]"
proof -
  have run: "extractResumeData
     (Some \<lparr>pages = Some [\<lparr>index = 0, markdown = Some text_other_header\<rparr>]\<rparr>)
     = Inr (extractFromText text_other_header)"
    by (simp add: extractResumeData_def allTextOf_def)
  have ecap: "truthy_group (search educationSectionRe text_other_header) 1
     = Some [0x32, 0x30, 0x31, 0x30, 0x5E74, 0x34, 0x6708, 0x20, 0x41, 0x9AD8, 0x6821,
             0x5165, 0x5B66, 0xA, 0x8DA3, 0x5473, 0xA, 0x32, 0x30, 0x31, 0x35, 0x5E74,
             0x34, 0x6708, 0x20, 0x8AAD, 0x66F8, 0xA]"
    by (simp add: text_other_header_def educationSectionRe_def re_eval)
  have edu: "educationHistory (extractFromText text_other_header)
      = Some [\<lparr>year = [0x32, 0x30, 0x31, 0x30], month = [0x34], description = [0x41, 0x9AD8, 0x6821, 0x5165, 0x5B66]\<rparr>,
              \<lparr>year = [0x32, 0x30, 0x31, 0x35], month = [0x34], description = [0x8AAD, 0x66F8]\<rparr>]"
    by (simp add: extractFromText_educationHistory text_other_header_def educationSectionRe_def
        entriesOf_def entryOf_def match_all.simps entriesRe_def partsRe_def re_eval trim_def)
  have wcap: "truthy_group (search workSectionRe text_work_other_header) 1
     = Some [0x32, 0x30, 0x31, 0x33, 0x5E74, 0x34, 0x6708, 0x20, 0x42, 0x793E, 0x5165,
             0x793E, 0xA]"
    by (simp add: text_work_other_header_def workSectionRe_def re_eval)
  have work: "workHistory (extractFromText text_work_other_header)
     = Some [\<lparr>year = [0x32, 0x30, 0x31, 0x33], month = [0x34], description = [0x42, 0x793E, 0x5165, 0x793E]\<rparr>]"
    by (simp add: extractFromText_workHistory text_work_other_header_def workSectionRe_def
        entriesOf_def entryOf_def match_all.simps entriesRe_def partsRe_def re_eval trim_def)
  from run ecap edu wcap work show ?thesis by simp
qed

end
